(* ===== verification/Guard_Prelude.thy ===== *)
theory Guard_Prelude
  imports Main "HOL-Library.Word" "HOL-Library.AList" "HOL-Library.Sublist"
begin

text \<open>
  Shared vocabulary of the development: the machine integers of the Rust sources with their
  saturating and checked arithmetic, results with early return, hash maps as association lists
  with distinct keys, and the two interfaces every stateful component of the program is an
  instance of (an operation that keeps an invariant, and a check that characterises a contract).
\<close>

section \<open>Machine integers\<close>

type_synonym u8 = "8 word"
type_synonym u16 = "16 word"
type_synonym u32 = "32 word"
type_synonym u64 = "64 word"
type_synonym u128 = "128 word"

text \<open>
  A \<open>usize\<close> that only counts elements of a collection or bounds one is a \<open>nat\<close>; every
  integer on which the sources do arithmetic keeps its width.
\<close>

named_theorems sat_arith \<open>reading saturating and checked operations as natural numbers\<close>

definition saturating_add :: "'a::len word \<Rightarrow> 'a word \<Rightarrow> 'a word" where
  "saturating_add a b = (if unat a + unat b < 2 ^ LENGTH('a) then a + b else - 1)"

definition saturating_sub :: "'a::len word \<Rightarrow> 'a word \<Rightarrow> 'a word" where
  "saturating_sub a b = (if b \<le> a then a - b else 0)"

definition saturating_mul :: "'a::len word \<Rightarrow> 'a word \<Rightarrow> 'a word" where
  "saturating_mul a b = (if unat a * unat b < 2 ^ LENGTH('a) then a * b else - 1)"

definition checked_add :: "'a::len word \<Rightarrow> 'a word \<Rightarrow> 'a word option" where
  "checked_add a b = (if unat a + unat b < 2 ^ LENGTH('a) then Some (a + b) else None)"

lemma unat_max_word [simp]: "unat (- 1 :: 'a::len word) = 2 ^ LENGTH('a) - 1"
  by (simp add: unsigned_minus_1_eq_mask mask_eq_exp_minus_1)

lemma unat_less_pow: "unat (w :: 'a::len word) < 2 ^ LENGTH('a)"
  by (rule unsigned_less)

lemma unat_saturating_add [sat_arith]:
  "unat (saturating_add a b) = min (2 ^ LENGTH('a) - 1) (unat a + unat (b :: 'a::len word))"
proof (cases "unat a + unat b < 2 ^ LENGTH('a)")
  case True
  then show ?thesis by (simp add: saturating_add_def unat_word_ariths)
next
  case False
  then show ?thesis by (simp add: saturating_add_def)
qed

lemma unat_saturating_sub [sat_arith]:
  "unat (saturating_sub a b) = unat a - unat (b :: 'a::len word)"
  by (auto simp: saturating_sub_def unat_sub word_le_nat_alt)

lemma unat_saturating_mul [sat_arith]:
  "unat (saturating_mul a b) = min (2 ^ LENGTH('a) - 1) (unat a * unat (b :: 'a::len word))"
proof (cases "unat a * unat b < 2 ^ LENGTH('a)")
  case True
  then show ?thesis by (simp add: saturating_mul_def unat_word_ariths)
next
  case False
  then show ?thesis by (simp add: saturating_mul_def)
qed

lemma checked_add_Some_iff [sat_arith]:
  "checked_add a b = Some (c :: 'a::len word) \<longleftrightarrow> unat c = unat a + unat b"
proof
  assume "checked_add a b = Some c"
  then show "unat c = unat a + unat b"
    by (auto simp: checked_add_def unat_word_ariths split: if_splits)
next
  assume c: "unat c = unat a + unat b"
  then have bound: "unat a + unat b < 2 ^ LENGTH('a)"
    by (metis unsigned_less)
  with c have "a + b = c"
    by (simp add: word_unat_eq_iff unat_word_ariths)
  with bound show "checked_add a b = Some c" by (simp add: checked_add_def)
qed

lemma checked_add_None_iff [sat_arith]:
  "checked_add a (b :: 'a::len word) = None \<longleftrightarrow> 2 ^ LENGTH('a) \<le> unat a + unat b"
  by (auto simp: checked_add_def)

lemmas word_cmp_nat = word_le_nat_alt word_less_nat_alt

section \<open>Results and early return\<close>

named_theorems outcome_simps \<open>inversion of pipelines of fallible steps\<close>

text \<open>The \<open>?\<close> operator: the first error ends the computation.\<close>

fun and_then :: "'e + 'a \<Rightarrow> ('a \<Rightarrow> 'e + 'b) \<Rightarrow> 'e + 'b" where
  "and_then (Inl e) f = Inl e"
| "and_then (Inr x) f = f x"

fun map_err :: "('e \<Rightarrow> 'f) \<Rightarrow> 'e + 'a \<Rightarrow> 'f + 'a" where
  "map_err g (Inl e) = Inl (g e)"
| "map_err g (Inr x) = Inr x"

fun ok_or :: "'e \<Rightarrow> 'a option \<Rightarrow> 'e + 'a" where
  "ok_or e None = Inl e"
| "ok_or e (Some x) = Inr x"

fun all_ok :: "('a \<Rightarrow> 'e + unit) \<Rightarrow> 'a list \<Rightarrow> 'e + unit" where
  "all_ok check [] = Inr ()"
| "all_ok check (x # xs) = and_then (check x) (\<lambda>_. all_ok check xs)"

text \<open>A sequence of independent checks; the first that fails decides.\<close>

fun checks :: "('e + unit) list \<Rightarrow> 'e + unit" where
  "checks [] = Inr ()"
| "checks (c # cs) = and_then c (\<lambda>_. checks cs)"

definition reject_if :: "bool \<Rightarrow> 'e \<Rightarrow> 'e + unit" where
  "reject_if bad e = (if bad then Inl e else Inr ())"

lemma and_then_Inr_iff [outcome_simps]:
  "and_then m f = Inr y \<longleftrightarrow> (\<exists>x. m = Inr x \<and> f x = Inr y)"
  by (cases m) auto

lemma and_then_Inl_iff [outcome_simps]:
  "and_then m f = Inl e \<longleftrightarrow> m = Inl e \<or> (\<exists>x. m = Inr x \<and> f x = Inl e)"
  by (cases m) auto

lemma map_err_Inr_iff [outcome_simps]: "map_err g m = Inr y \<longleftrightarrow> m = Inr y"
  by (cases m) auto

lemma map_err_Inl_iff [outcome_simps]:
  "map_err g m = Inl e \<longleftrightarrow> (\<exists>e'. m = Inl e' \<and> e = g e')"
  by (cases m) auto

lemma ok_or_Inr_iff [outcome_simps]: "ok_or e m = Inr y \<longleftrightarrow> m = Some y"
  by (cases m) auto

lemma ok_or_Inl_iff [outcome_simps]: "ok_or e m = Inl e' \<longleftrightarrow> m = None \<and> e' = e"
  by (cases m) auto

lemma all_ok_Inr_iff [outcome_simps]:
  "all_ok check xs = Inr u \<longleftrightarrow> (\<forall>x \<in> set xs. check x = Inr ())"
  by (induction xs) (auto simp: and_then_Inr_iff)

lemma checks_Inr_iff [outcome_simps]: "checks cs = Inr u \<longleftrightarrow> (\<forall>c \<in> set cs. c = Inr ())"
  by (induction cs) (auto simp: and_then_Inr_iff)

lemma reject_if_Inr_iff [outcome_simps]: "reject_if bad e = Inr u \<longleftrightarrow> \<not> bad"
  by (simp add: reject_if_def)

lemma reject_if_Inl_iff [outcome_simps]: "reject_if bad e = Inl e' \<longleftrightarrow> bad \<and> e' = e"
  by (auto simp: reject_if_def)

text \<open>
  A fallible step that also changes a state; the next one runs in the state it left, and only when
  it succeeded.
\<close>

definition then_call :: "('e + 'a) \<times> 's \<Rightarrow> ('a \<Rightarrow> 's \<Rightarrow> ('e + 'b) \<times> 's) \<Rightarrow> ('e + 'b) \<times> 's" where
  "then_call r f = (case r of (Inl e, s) \<Rightarrow> (Inl e, s) | (Inr x, s) \<Rightarrow> f x s)"

lemma then_call_simps [simp]: "then_call (Inl e, s) f = (Inl e, s)" "then_call (Inr x, s) f = f x s"
  by (simp_all add: then_call_def)

lemma then_call_elim:
  assumes "then_call r f = (r', s')"
  obtains (stop) e where "r = (Inl e, s')" "r' = Inl e"
    | (go) x s where "r = (Inr x, s)" "f x s = (r', s')"
  using assms that by (cases r; cases "fst r") (auto simp: then_call_def)

lemma then_call_Inr:
  "then_call r f = (Inr y, s') \<longleftrightarrow> (\<exists>x s. r = (Inr x, s) \<and> f x s = (Inr y, s'))"
  by (cases r; cases "fst r") auto

lemma then_call_Inl:
  "then_call r f = (Inl e, s') \<longleftrightarrow> r = (Inl e, s') \<or> (\<exists>x s. r = (Inr x, s) \<and> f x s = (Inl e, s'))"
  by (cases r; cases "fst r") auto

section \<open>Hash maps\<close>

text \<open>
  A \<open>HashMap\<close> is an association list with distinct keys: \<open>len\<close> is \<open>length\<close>,
  \<open>get\<close> is \<open>map_of\<close>, \<open>insert\<close> is \<open>AList.update\<close> and \<open>retain\<close> is
  \<open>filter\<close>. The iteration order of the source is never observed.
\<close>

abbreviation distinct_keys :: "('k \<times> 'v) list \<Rightarrow> bool" where
  "distinct_keys m \<equiv> distinct (map fst m)"

lemma distinct_keys_filter [simp]: "distinct_keys m \<Longrightarrow> distinct_keys (filter P m)"
  by (induction m) auto

lemma distinct_keys_update [simp]: "distinct_keys m \<Longrightarrow> distinct_keys (AList.update k v m)"
  by (rule distinct_update)

lemma length_update_known:
  "map_of m k \<noteq> None \<Longrightarrow> length (AList.update k v m) = length m"
  by (induction m) auto

lemma length_update_new:
  "map_of m k = None \<Longrightarrow> length (AList.update k v m) = Suc (length m)"
  by (induction m) (auto split: if_splits)

lemma length_update_le: "length (AList.update k v m) \<le> Suc (length m)"
  by (cases "map_of m k") (simp_all add: length_update_known length_update_new)

lemma length_filter_le_trans: "length xs \<le> n \<Longrightarrow> length (filter P xs) \<le> n"
  using length_filter_le order_trans by blast

lemma map_of_filter_distinct:
  "distinct_keys m \<Longrightarrow>
   map_of (filter P m) k = (case map_of m k of None \<Rightarrow> None | Some v \<Rightarrow> if P (k, v) then Some v else None)"
proof (induction m)
  case (Cons a m)
  obtain k' v' where a: "a = (k', v')" by force
  from Cons.prems a have "k' \<notin> fst ` set m" by simp
  then have "map_of m k' = None" by (simp add: map_of_eq_None_iff)
  with Cons a show ?case by (auto split: option.splits)
qed simp

lemma length_filter_keys_finite:
  "distinct_keys m \<Longrightarrow> fst ` set m \<subseteq> K \<Longrightarrow> finite K \<Longrightarrow> length m \<le> card K"
proof -
  assume "distinct_keys m" and "fst ` set m \<subseteq> K" and "finite K"
  then have "card (set (map fst m)) \<le> card K" by (intro card_mono) auto
  with \<open>distinct_keys m\<close> show ?thesis by (metis distinct_card length_map)
qed

section \<open>Interfaces shared by the components\<close>

text \<open>
  An operation that answers an event and keeps an invariant. Every stateful component of the
  program is an instance: its theory interprets the locale on its own step function, and a
  property of one step becomes a property of every run.
\<close>

fun run :: "('s \<Rightarrow> 'e \<Rightarrow> 's) \<Rightarrow> 's \<Rightarrow> 'e list \<Rightarrow> 's" where
  "run step s [] = s"
| "run step s (e # es) = run step (step s e) es"

lemma run_append: "run step s (xs @ ys) = run step (run step s xs) ys"
  by (induction xs arbitrary: s) auto

lemma run_snoc: "run step s (xs @ [x]) = step (run step s xs) x"
  by (simp add: run_append)

locale invariant_machine =
  fixes step :: "'s \<Rightarrow> 'e \<Rightarrow> 's"
    and invar :: "'s \<Rightarrow> bool"
  assumes invar_step: "invar s \<Longrightarrow> invar (step s e)"
begin

lemma invar_run: "invar s \<Longrightarrow> invar (run step s es)"
  by (induction es arbitrary: s) (auto intro: invar_step)

end

text \<open>
  A machine that also has a quantity no step decreases, such as a version number.
\<close>

locale monotone_machine =
  fixes step :: "'s \<Rightarrow> 'e \<Rightarrow> 's"
    and level :: "'s \<Rightarrow> 'l::order"
  assumes level_step: "level s \<le> level (step s e)"
begin

lemma level_run: "level s \<le> level (run step s es)"
proof (induction es arbitrary: s)
  case (Cons e es)
  have "level s \<le> level (step s e)" by (rule level_step)
  also have "\<dots> \<le> level (run step (step s e) es)" by (rule Cons.IH)
  finally show ?case by simp
qed simp

lemma level_prefix: "level (run step s xs) \<le> level (run step s (xs @ ys))"
  by (simp add: run_append level_run)

end

text \<open>
  A machine that meters admissions against a budget: while the events stay within the window the
  usage never falls, and an admission is only made below the budget and is accounted for. Then no
  run admits more than what is left of the budget.
\<close>

fun count_run :: "('s \<Rightarrow> 'e \<Rightarrow> 's) \<Rightarrow> ('s \<Rightarrow> 'e \<Rightarrow> bool) \<Rightarrow> 's \<Rightarrow> 'e list \<Rightarrow> nat" where
  "count_run step hit s [] = 0"
| "count_run step hit s (e # es) = (if hit s e then 1 else 0) + count_run step hit (step s e) es"

locale metered =
  fixes step :: "'s \<Rightarrow> 'e \<Rightarrow> 's"
    and invar :: "'s \<Rightarrow> bool"
    and within :: "'e \<Rightarrow> bool"
    and admits :: "'s \<Rightarrow> 'e \<Rightarrow> bool"
    and used :: "'s \<Rightarrow> nat"
    and budget :: nat
  assumes invar_kept: "invar s \<Longrightarrow> within e \<Longrightarrow> invar (step s e)"
    and used_grows: "invar s \<Longrightarrow> within e \<Longrightarrow> used s \<le> used (step s e)"
    and admits_metered: "invar s \<Longrightarrow> within e \<Longrightarrow> admits s e \<Longrightarrow> used s < budget \<and> used s < used (step s e)"
begin

lemma admissions_bounded:
  "invar s \<Longrightarrow> list_all within es \<Longrightarrow> count_run step admits s es \<le> budget - used s"
proof (induction es arbitrary: s)
  case (Cons e es)
  then have "count_run step admits (step s e) es \<le> budget - used (step s e)"
    by (simp add: invar_kept)
  with Cons.prems show ?case
    using used_grows [of s e] admits_metered [of s e] by auto
qed simp

end

text \<open>
  A validation function and the contract it decides. A client that validates before it acts
  acts on values that satisfy the contract, and is never stopped on one that does.
\<close>

locale validated =
  fixes validate :: "'a \<Rightarrow> 'e + unit"
    and contract :: "'a \<Rightarrow> bool"
  assumes validate_iff: "validate x = Inr () \<longleftrightarrow> contract x"
begin

lemma guarded_ok: "and_then (validate x) (\<lambda>_. f x) = Inr y \<longleftrightarrow> contract x \<and> f x = Inr y"
  using validate_iff [of x] by (cases "validate x") auto

lemma rejected: "\<not> contract x \<Longrightarrow> \<exists>e. validate x = Inl e"
  using validate_iff [of x] by (cases "validate x") auto

lemma all_validated: "all_ok validate xs = Inr () \<longleftrightarrow> (\<forall>x \<in> set xs. contract x)"
  by (simp add: all_ok_Inr_iff validate_iff)

end

text \<open>
  A record that carries a digest of itself. The digest ignores the field that holds it, so a
  record sealed with its digest verifies, and sealing again changes nothing.
\<close>

locale sealed_record =
  fixes digest :: "'a \<Rightarrow> 'e + 'h"
    and content :: "'a \<Rightarrow> 'h"
    and put :: "'a \<Rightarrow> 'h \<Rightarrow> 'a"
  assumes digest_put: "digest (put s h) = digest s"
    and content_put: "content (put s h) = h"
    and put_content: "put s (content s) = s"
begin

lemma seal_verifies:
  "and_then (digest s) (\<lambda>h. Inr (put s h)) = Inr s' \<Longrightarrow> digest s' = Inr (content s')"
  by (auto simp: outcome_simps digest_put content_put)

lemma seal_verified: "digest s = Inr (content s) \<Longrightarrow> and_then (digest s) (\<lambda>h. Inr (put s h)) = Inr s"
  by (simp add: put_content)

lemma seal_fails_iff: "and_then (digest s) (\<lambda>h. Inr (put s h)) = Inl e \<longleftrightarrow> digest s = Inl e"
  by (auto simp: outcome_simps)

end

end
