(* ===== verification/Net_Addr.thy ===== *)
theory Net_Addr
  imports Rust_Text
begin

text \<open>
  IP addresses of Rust's \<open>std::net\<close> and the parser behind \<open>str::parse::<IpAddr>\<close>, which the
  sources use to read forwarded chains, rules and configuration. An IPv4 address is a 32 bit
  word and an IPv6 address a 128 bit word. The parser accepts dotted decimal without leading
  zeros and the textual IPv6 form with one \<open>::\<close> and an optional embedded IPv4 tail; it must
  consume the whole text.
\<close>

section \<open>Addresses\<close>

datatype ip_addr = V4 u32 | V6 u128

section \<open>Parsing\<close>

definition hex_digit_value :: "char \<Rightarrow> nat option" where
  "hex_digit_value c =
     (if is_ascii_digit c then Some (byte c - 48)
      else if 97 \<le> byte c \<and> byte c \<le> 102 then Some (byte c - 87)
      else if 65 \<le> byte c \<and> byte c \<le> 70 then Some (byte c - 55)
      else None)"

definition to_digit :: "nat \<Rightarrow> char \<Rightarrow> nat option" where
  "to_digit radix c =
     (case hex_digit_value c of None \<Rightarrow> None | Some d \<Rightarrow> if d < radix then Some d else None)"

definition read_number :: "nat \<Rightarrow> nat \<Rightarrow> bool \<Rightarrow> nat \<Rightarrow> string \<Rightarrow> (nat \<times> string) option" where
  "read_number radix max_digits allow_zero_prefix width s =
     (let ds = takeWhile (\<lambda>c. to_digit radix c \<noteq> None) s;
          rest = dropWhile (\<lambda>c. to_digit radix c \<noteq> None) s;
          v = foldl (\<lambda>v c. radix * v + the (to_digit radix c)) 0 ds
      in if ds = [] \<or> length ds > max_digits
            \<or> (\<not> allow_zero_prefix \<and> hd ds = CHR ''0'' \<and> length ds > 1)
            \<or> v \<ge> 2 ^ width
         then None else Some (v, rest))"

text \<open>\<open>read_separator\<close>: every element but the first is preceded by the separator.\<close>

definition read_separator ::
    "char \<Rightarrow> bool \<Rightarrow> (string \<Rightarrow> ('a \<times> string) option) \<Rightarrow> string \<Rightarrow> ('a \<times> string) option" where
  "read_separator sep first inner s =
     (if first then inner s
      else (case s of [] \<Rightarrow> None | c # r \<Rightarrow> if c = sep then inner r else None))"

fun read_octets :: "nat \<Rightarrow> bool \<Rightarrow> string \<Rightarrow> (nat list \<times> string) option" where
  "read_octets 0 first s = Some ([], s)"
| "read_octets (Suc n) first s =
     (case read_separator (CHR ''.'') first (read_number 10 3 False 8) s of
        None \<Rightarrow> None
      | Some (v, r) \<Rightarrow> map_option (\<lambda>(vs, r'). (v # vs, r')) (read_octets n False r))"

definition read_ipv4_addr :: "string \<Rightarrow> (nat list \<times> string) option" where
  "read_ipv4_addr s = read_octets 4 True s"

definition octet_groups :: "nat list \<Rightarrow> nat list" where
  "octet_groups os = [256 * os ! 0 + os ! 1, 256 * os ! 2 + os ! 3]"

text \<open>
  \<open>read_groups\<close> reads at most the given number of 16 bit groups; an IPv4 tail counts as two and
  ends the reading. The result is the groups, whether an IPv4 tail was read, and the rest.
\<close>

fun read_groups :: "nat \<Rightarrow> bool \<Rightarrow> string \<Rightarrow> nat list \<times> bool \<times> string" where
  "read_groups 0 first s = ([], False, s)"
| "read_groups (Suc n) first s =
     (case (if n \<ge> 1 then read_separator (CHR '':'') first read_ipv4_addr s else None) of
        Some (os, r) \<Rightarrow> (octet_groups os, True, r)
      | None \<Rightarrow>
          (case read_separator (CHR '':'') first (read_number 16 4 True 16) s of
             None \<Rightarrow> ([], False, s)
           | Some (g, r) \<Rightarrow> (case read_groups n False r of (gs, v4, r') \<Rightarrow> (g # gs, v4, r'))))"

definition read_ipv6_addr :: "string \<Rightarrow> (nat list \<times> string) option" where
  "read_ipv6_addr s =
     (case read_groups 8 True s of (head_groups, head_ipv4, r) \<Rightarrow>
        if length head_groups = 8 then Some (head_groups, r)
        else if head_ipv4 then None
        else (case r of
                a # b # r' \<Rightarrow>
                  if a = CHR '':'' \<and> b = CHR '':'' then
                    (case read_groups (8 - (length head_groups + 1)) True r' of (tail_groups, _, r'') \<Rightarrow>
                       Some (head_groups @ replicate (8 - length head_groups - length tail_groups) 0 @ tail_groups, r''))
                  else None
              | _ \<Rightarrow> None))"

definition word_of_groups :: "nat \<Rightarrow> nat list \<Rightarrow> 'a::len word" where
  "word_of_groups base gs = of_nat (foldl (\<lambda>v g. base * v + g) 0 gs)"

definition parse_ip :: "string \<Rightarrow> ip_addr option" where
  "parse_ip s =
     (case read_ipv4_addr s of
        Some (os, r) \<Rightarrow> if r = [] then Some (V4 (word_of_groups 256 os)) else None
      | None \<Rightarrow> (case read_ipv6_addr s of
                   Some (gs, r) \<Rightarrow> if r = [] then Some (V6 (word_of_groups 65536 gs)) else None
                 | None \<Rightarrow> None))"

section \<open>Printing IPv4 addresses\<close>

definition octets :: "u32 \<Rightarrow> nat list" where
  "octets a = [unat a div 16777216, unat a div 65536 mod 256, unat a div 256 mod 256, unat a mod 256]"

definition show_ipv4 :: "u32 \<Rightarrow> string" where
  "show_ipv4 a = join_with ''.'' (map show_nat (octets a))"

section \<open>Printed IPv4 addresses parse back\<close>

lemma to_digit_decimal: "to_digit 10 c = (if is_ascii_digit c then Some (digit_value c) else None)"
  by (auto simp: to_digit_def hex_digit_value_def is_ascii_digit_def digit_value_def)

lemma takeWhile_digits:
  assumes "list_all is_ascii_digit ds" and "r = [] \<or> \<not> is_ascii_digit (hd r)"
  shows "takeWhile (\<lambda>c. to_digit 10 c \<noteq> None) (ds @ r) = ds"
    and "dropWhile (\<lambda>c. to_digit 10 c \<noteq> None) (ds @ r) = r"
  using assms by (induction ds) (cases r; auto simp: to_digit_decimal)+

lemma decimal_fold:
  "list_all is_ascii_digit ds \<Longrightarrow>
   foldl (\<lambda>v c. 10 * v + the (to_digit 10 c)) n ds = foldl (\<lambda>v c. 10 * v + digit_value c) n ds"
  by (induction ds arbitrary: n) (auto simp: to_digit_decimal)

lemma hd_show_nat: "0 < n \<Longrightarrow> hd (show_nat n) \<noteq> CHR ''0''"
proof (induction n rule: show_nat.induct)
  case (1 n)
  show ?case
  proof (cases "n < 10")
    case True
    then have "byte (hd (show_nat n)) = 48 + n" by (simp add: show_nat.simps [of n] byte_digit_char)
    moreover have "byte (CHR ''0'') = 48" by (simp add: byte_def)
    ultimately show ?thesis using \<open>0 < n\<close> by force
  next
    case False
    with "1.IH" show ?thesis by (simp add: show_nat.simps [of n])
  qed
qed

lemma length_show_nat: "n < 10 ^ Suc k \<Longrightarrow> length (show_nat n) \<le> Suc k"
proof (induction k arbitrary: n)
  case 0
  then show ?case by (simp add: show_nat.simps [of n])
next
  case (Suc k)
  then have "length (show_nat (n div 10)) \<le> Suc k" by (simp add: less_mult_imp_div_less)
  then show ?case by (simp add: show_nat.simps [of n])
qed

lemma show_nat_octet:
  assumes "n < 256"
  shows "length (show_nat n) \<le> 3" and "hd (show_nat n) = CHR ''0'' \<Longrightarrow> length (show_nat n) = 1"
proof -
  show "length (show_nat n) \<le> 3" using length_show_nat [of n 2] assms by simp
  assume "hd (show_nat n) = CHR ''0''"
  then have "n = 0" using hd_show_nat by blast
  then show "length (show_nat n) = 1" by (simp add: show_nat.simps)
qed

lemma read_number_show_octet:
  assumes "n < 256" and "r = [] \<or> \<not> is_ascii_digit (hd r)"
  shows "read_number 10 3 False 8 (show_nat n @ r) = Some (n, r)"
proof -
  note digits = show_nat_digits [of n]
  have "foldl (\<lambda>v c. 10 * v + the (to_digit 10 c)) 0 (show_nat n) = n"
    using decimal_fold [OF digits, of 0] digits_value_show_nat [of n] by (simp add: digits_value_def)
  then show ?thesis
    using show_nat_octet [OF assms(1)] assms(1)
    unfolding read_number_def Let_def takeWhile_digits [OF digits assms(2)] by auto
qed

lemma dot_not_digit: "\<not> is_ascii_digit (CHR ''.'')"
  by (simp add: is_ascii_digit_def byte_def)

lemma octets_less: "\<forall>n \<in> set (octets a). n < 256"
proof -
  have "unat a < 2 ^ 32" using unsigned_less [of a] by simp
  then show ?thesis by (auto simp: octets_def)
qed

lemma read_octets_show:
  assumes "\<forall>n \<in> set os. n < 256"
  shows "os \<noteq> [] \<Longrightarrow> read_octets (length os) True (join_with ''.'' (map show_nat os)) = Some (os, [])"
    and "read_octets (length os) False (concat (map (\<lambda>n. CHR ''.'' # show_nat n) os)) = Some (os, [])"
proof -
  have tail: "read_octets (length os) False (concat (map (\<lambda>n. CHR ''.'' # show_nat n) os)) = Some (os, [])"
    if "\<forall>n \<in> set os. n < 256" for os
    using that
  proof (induction os)
    case (Cons n os)
    let ?r = "concat (map (\<lambda>n. CHR ''.'' # show_nat n) os)"
    have "?r = [] \<or> \<not> is_ascii_digit (hd ?r)" by (cases os) (auto simp: dot_not_digit)
    with Cons show ?case by (simp add: read_separator_def read_number_show_octet)
  qed simp
  then show "read_octets (length os) False (concat (map (\<lambda>n. CHR ''.'' # show_nat n) os)) = Some (os, [])"
    using assms by blast
  have join: "join_with ''.'' (map show_nat (n # os)) = show_nat n @ concat (map (\<lambda>n. CHR ''.'' # show_nat n) os)" for n os
    by (induction os arbitrary: n) auto
  show "read_octets (length os) True (join_with ''.'' (map show_nat os)) = Some (os, [])" if "os \<noteq> []"
  proof (cases os)
    case (Cons n ns)
    let ?r = "concat (map (\<lambda>n. CHR ''.'' # show_nat n) ns)"
    have "?r = [] \<or> \<not> is_ascii_digit (hd ?r)" by (cases ns) (auto simp: dot_not_digit)
    with Cons assms tail [of ns] show ?thesis
      using join [of n ns] by (simp add: read_separator_def read_number_show_octet)
  qed (use that in simp)
qed

lemma word_of_octets: "word_of_groups 256 (octets a) = a"
proof -
  let ?n = "unat a"
  have "foldl (\<lambda>v g. 256 * v + g) 0 (octets a)
      = 256 * (256 * (256 * (?n div 16777216) + ?n div 65536 mod 256) + ?n div 256 mod 256) + ?n mod 256"
    by (simp add: octets_def)
  also have "\<dots> = ?n"
    using div_mult2_eq [of ?n 256 256] div_mult2_eq [of ?n 256 65536] div_mult2_eq [of "?n div 256" 256 256]
    by (simp add: mult_div_mod_eq)
  finally show ?thesis by (simp add: word_of_groups_def)
qed

theorem parse_show_ipv4: "parse_ip (show_ipv4 a) = Some (V4 a)"
proof -
  have "length (octets a) = 4" and "octets a \<noteq> []" by (simp_all add: octets_def)
  then have "read_ipv4_addr (show_ipv4 a) = Some (octets a, [])"
    using read_octets_show(1) [OF octets_less, of a] by (simp add: read_ipv4_addr_def show_ipv4_def)
  then show ?thesis by (simp add: parse_ip_def word_of_octets)
qed

section \<open>Addresses of both families as text\<close>

fun show_hex_nat :: "nat \<Rightarrow> string" where
  "show_hex_nat n = (if n < 16 then [hex_char n] else show_hex_nat (n div 16) @ [hex_char (n mod 16)])"

declare show_hex_nat.simps [simp del]

definition ipv6_segments :: "u128 \<Rightarrow> nat list" where
  "ipv6_segments a = map (\<lambda>i. unat (drop_bit (16 * (7 - i)) a) mod 65536) [0..<8]"

text \<open>The first longest run of zero segments, as start and length.\<close>

fun longest_zero_run :: "nat list \<Rightarrow> nat \<Rightarrow> nat \<times> nat \<Rightarrow> nat \<times> nat \<Rightarrow> nat \<times> nat" where
  "longest_zero_run [] i longest current = longest"
| "longest_zero_run (g # gs) i longest current =
     (if g = 0
      then let current = (if snd current = 0 then (i, 1) else (fst current, Suc (snd current)))
           in longest_zero_run gs (Suc i) (if snd current > snd longest then current else longest) current
      else longest_zero_run gs (Suc i) longest (0, 0))"

definition show_ipv6 :: "u128 \<Rightarrow> string" where
  "show_ipv6 a =
     (let gs = ipv6_segments a;
          show_groups = (\<lambda>gs. join_with '':'' (map show_hex_nat gs));
          (start, len) = longest_zero_run gs 0 (0, 0) (0, 0)
      in if take 6 gs = [0, 0, 0, 0, 0, 0xffff] then ''::ffff:'' @ show_ipv4 (ucast a)
         else if len > 1 then show_groups (take start gs) @ ''::'' @ show_groups (drop (start + len) gs)
         else show_groups gs)"

fun show_ip :: "ip_addr \<Rightarrow> string" where
  "show_ip (V4 a) = show_ipv4 a"
| "show_ip (V6 a) = show_ipv6 a"

end
