(* ===== verification/Rate_Limit.thy ===== *)
theory Rate_Limit
  imports Net_Addr
begin

text \<open>
  The bounded fixed-window rate limiter of \<open>guard-edge/src/rate_limit.rs\<close>: per client, network
  prefix, route class and listener. The mutex makes \<open>check\<close> atomic, so a history of the limiter
  is a sequence of checks. The theorems bound its memory, bound what it admits in a minute at
  every scope, and say exactly when it denies.
\<close>

unbundle bit_operations_syntax

section \<open>Data\<close>

datatype route_class = General | Strict | Upload | Authentication | ManagementAuth

fun route_class_as_str :: "route_class \<Rightarrow> string" where
  "route_class_as_str General = ''general''"
| "route_class_as_str Strict = ''strict''"
| "route_class_as_str Upload = ''upload''"
| "route_class_as_str Authentication = ''authentication''"
| "route_class_as_str ManagementAuth = ''management_auth''"

datatype limit_scope = ClientScope | PrefixScope | RouteScope | GlobalScope

datatype limit_decision = LimitAllow | AllowFallback | LimitDeny limit_scope

record rate_limit_policy =
  rl_client_rpm :: u32
  rl_prefix_rpm :: u32
  rl_route_rpm :: u32
  rl_global_rpm :: u32

definition from_multipliers :: "u32 \<Rightarrow> u32 \<Rightarrow> u32 \<Rightarrow> u32 \<Rightarrow> rate_limit_policy" where
  "from_multipliers client_rpm prefix_multiplier route_multiplier global_multiplier =
     \<lparr> rl_client_rpm = client_rpm,
       rl_prefix_rpm = saturating_mul client_rpm prefix_multiplier,
       rl_route_rpm = saturating_mul client_rpm route_multiplier,
       rl_global_rpm = saturating_mul client_rpm global_multiplier \<rparr>"

type_synonym limit_key = "ip_addr \<times> route_class"

record limit_window =
  lw_minute_bucket :: u64
  lw_request_count :: u32

datatype prefix_key = PrefixV4 u32 | PrefixV6 u64

fun prefix_of :: "ip_addr \<Rightarrow> prefix_key" where
  "prefix_of (V4 value) = PrefixV4 (value AND 0xffffff00)"
| "prefix_of (V6 value) = PrefixV6 (ucast (drop_bit 64 value))"

record limit_state =
  ls_last_cleanup_bucket :: "u64 option"
  ls_windows :: "(limit_key \<times> limit_window) list"
  ls_prefixes :: "(prefix_key \<times> limit_window) list"
  ls_routes :: "(route_class \<times> limit_window) list"
  ls_global :: "limit_window option"

record rate_limiter =
  lim_max_entries :: nat
  lim_max_prefixes :: nat
  lim_state :: limit_state

section \<open>Operations\<close>

text \<open>A \<open>SystemTime\<close> is its distance from the Unix epoch in nanoseconds, negative before it.\<close>

type_synonym system_time = int

definition minute_bucket :: "system_time \<Rightarrow> u64" where
  "minute_bucket now = word_of_int (max 0 now div 1000000000) div 60"

definition new_limiter :: "nat \<Rightarrow> rate_limiter" where
  "new_limiter max_entries =
     \<lparr> lim_max_entries = max_entries,
       lim_max_prefixes = max ((max_entries + 3) div 4) 1,
       lim_state = \<lparr> ls_last_cleanup_bucket = None, ls_windows = [], ls_prefixes = [],
                     ls_routes = [], ls_global = None \<rparr> \<rparr>"

definition consume :: "limit_window \<Rightarrow> u64 \<Rightarrow> u32 \<Rightarrow> limit_window \<times> bool" where
  "consume w bucket limit =
     (let w = (if lw_minute_bucket w \<noteq> bucket
               then w \<lparr> lw_minute_bucket := bucket, lw_request_count := 0 \<rparr> else w)
      in if lw_request_count w \<ge> limit then (w, False)
         else (w \<lparr> lw_request_count := saturating_add (lw_request_count w) 1 \<rparr>, True))"

definition fresh_window :: "u64 \<Rightarrow> limit_window" where
  "fresh_window bucket = \<lparr> lw_minute_bucket = bucket, lw_request_count = 0 \<rparr>"

text \<open>\<open>entry(key).or_insert(fresh)\<close> followed by \<open>consume\<close> on the entry.\<close>

definition consume_entry ::
    "u64 \<Rightarrow> u32 \<Rightarrow> 'k \<Rightarrow> ('k \<times> limit_window) list \<Rightarrow> ('k \<times> limit_window) list \<times> bool" where
  "consume_entry bucket limit k m =
     (let (w, ok) = consume (case map_of m k of Some w \<Rightarrow> w | None \<Rightarrow> fresh_window bucket) bucket limit
      in (AList.update k w m, ok))"

definition cleanup :: "u64 \<Rightarrow> limit_state \<Rightarrow> limit_state" where
  "cleanup bucket st =
     (if ls_last_cleanup_bucket st \<noteq> Some bucket
      then st \<lparr> ls_windows := filter (\<lambda>(_, w). lw_minute_bucket w = bucket) (ls_windows st),
                ls_prefixes := filter (\<lambda>(_, w). lw_minute_bucket w = bucket) (ls_prefixes st),
                ls_routes := filter (\<lambda>(_, w). lw_minute_bucket w = bucket) (ls_routes st),
                ls_global := (case ls_global st of
                                Some w \<Rightarrow> if lw_minute_bucket w \<noteq> bucket then None else Some w
                              | None \<Rightarrow> None),
                ls_last_cleanup_bucket := Some bucket \<rparr>
      else st)"

definition check_client ::
    "nat \<Rightarrow> ip_addr \<Rightarrow> route_class \<Rightarrow> rate_limit_policy \<Rightarrow> u64 \<Rightarrow> limit_state \<Rightarrow> limit_state \<times> limit_decision" where
  "check_client max_entries client_ip route policy bucket st =
     (let k = (client_ip, route)
      in if map_of (ls_windows st) k = None \<and> length (ls_windows st) \<ge> max_entries
         then (st, AllowFallback)
         else let (ws, ok) = consume_entry bucket (rl_client_rpm policy) k (ls_windows st)
              in (st \<lparr> ls_windows := ws \<rparr>, if ok then LimitAllow else LimitDeny ClientScope))"

definition check_prefix ::
    "nat \<Rightarrow> nat \<Rightarrow> ip_addr \<Rightarrow> route_class \<Rightarrow> rate_limit_policy \<Rightarrow> u64 \<Rightarrow> limit_state \<Rightarrow> limit_state \<times> limit_decision" where
  "check_prefix max_entries max_prefixes client_ip route policy bucket st =
     (let k = prefix_of client_ip
      in if map_of (ls_prefixes st) k \<noteq> None \<or> length (ls_prefixes st) < max_prefixes
         then let (ps, ok) = consume_entry bucket (rl_prefix_rpm policy) k (ls_prefixes st);
                  st = st \<lparr> ls_prefixes := ps \<rparr>
              in if \<not> ok then (st, LimitDeny PrefixScope)
                 else check_client max_entries client_ip route policy bucket st
         else check_client max_entries client_ip route policy bucket st)"

definition check_state ::
    "nat \<Rightarrow> nat \<Rightarrow> ip_addr \<Rightarrow> route_class \<Rightarrow> rate_limit_policy \<Rightarrow> u64 \<Rightarrow> limit_state \<Rightarrow> limit_state \<times> limit_decision" where
  "check_state max_entries max_prefixes client_ip route policy bucket st =
     (let st = cleanup bucket st;
          (g, ok) = consume (case ls_global st of Some w \<Rightarrow> w | None \<Rightarrow> fresh_window bucket)
                      bucket (rl_global_rpm policy);
          st = st \<lparr> ls_global := Some g \<rparr>
      in if \<not> ok then (st, LimitDeny GlobalScope)
         else let (rs, ok) = consume_entry bucket (rl_route_rpm policy) route (ls_routes st);
                  st = st \<lparr> ls_routes := rs \<rparr>
              in if \<not> ok then (st, LimitDeny RouteScope)
                 else check_prefix max_entries max_prefixes client_ip route policy bucket st)"

definition check ::
    "rate_limiter \<Rightarrow> ip_addr \<Rightarrow> route_class \<Rightarrow> rate_limit_policy \<Rightarrow> system_time \<Rightarrow> rate_limiter \<times> limit_decision" where
  "check l client_ip route policy now =
     (let (st, d) = check_state (lim_max_entries l) (lim_max_prefixes l) client_ip route policy
                      (minute_bucket now) (lim_state l)
      in (l \<lparr> lim_state := st \<rparr>, d))"

text \<open>One request as the limiter sees it, and the limiter as a machine over requests.\<close>

record check_event =
  ce_client_ip :: ip_addr
  ce_route_class :: route_class
  ce_policy :: rate_limit_policy
  ce_now :: system_time

definition limiter_step :: "rate_limiter \<Rightarrow> check_event \<Rightarrow> rate_limiter" where
  "limiter_step l e = fst (check l (ce_client_ip e) (ce_route_class e) (ce_policy e) (ce_now e))"

definition limiter_decides :: "rate_limiter \<Rightarrow> check_event \<Rightarrow> limit_decision" where
  "limiter_decides l e = snd (check l (ce_client_ip e) (ce_route_class e) (ce_policy e) (ce_now e))"

definition admits_request :: "limit_decision \<Rightarrow> bool" where
  "admits_request d \<longleftrightarrow> d = LimitAllow \<or> d = AllowFallback"

section \<open>Live counters\<close>

text \<open>
  What the limiter has counted for a key in a given minute: a window of another minute counts
  nothing.
\<close>

definition live_count :: "u64 \<Rightarrow> limit_window option \<Rightarrow> nat" where
  "live_count b w = (case w of Some w \<Rightarrow> if lw_minute_bucket w = b then unat (lw_request_count w) else 0 | None \<Rightarrow> 0)"

definition used_global :: "u64 \<Rightarrow> limit_state \<Rightarrow> nat" where
  "used_global b st = live_count b (ls_global st)"

definition used_route :: "u64 \<Rightarrow> route_class \<Rightarrow> limit_state \<Rightarrow> nat" where
  "used_route b r st = live_count b (map_of (ls_routes st) r)"

definition used_prefix :: "u64 \<Rightarrow> prefix_key \<Rightarrow> limit_state \<Rightarrow> nat" where
  "used_prefix b k st = live_count b (map_of (ls_prefixes st) k)"

definition used_client :: "u64 \<Rightarrow> limit_key \<Rightarrow> limit_state \<Rightarrow> nat" where
  "used_client b k st = live_count b (map_of (ls_windows st) k)"

lemmas used_defs = used_global_def used_route_def used_prefix_def used_client_def

lemma live_count_fresh [simp]: "live_count b (Some (fresh_window b)) = 0"
  by (simp add: live_count_def fresh_window_def)

lemma live_count_None [simp]: "live_count b None = 0"
  by (simp add: live_count_def)

lemma consume_ok: "snd (consume w b limit) \<longleftrightarrow> live_count b (Some w) < unat limit"
  by (auto simp: consume_def Let_def live_count_def word_le_nat_alt)

lemma consume_count:
  "live_count b (Some (fst (consume w b limit)))
   = live_count b (Some w) + (if live_count b (Some w) < unat limit then 1 else 0)"
proof -
  have "unat (saturating_add c 1 :: u32) = unat c + 1" if "unat c < unat limit" for c :: u32
    using that unat_less_pow [of limit] by (simp add: unat_saturating_add)
  then show ?thesis
    by (auto simp: consume_def Let_def live_count_def word_le_nat_alt)
qed

lemma consume_bucket: "lw_minute_bucket (fst (consume w b limit)) = b"
  by (simp add: consume_def Let_def)

lemma consume_entry_ok:
  "snd (consume_entry b limit k m) \<longleftrightarrow> live_count b (map_of m k) < unat limit"
  by (auto simp: consume_entry_def Let_def split_beta consume_ok split: option.splits)

lemma consume_entry_count:
  "live_count b (map_of (fst (consume_entry b limit k m)) k')
   = live_count b (map_of m k') + (if k' = k \<and> live_count b (map_of m k) < unat limit then 1 else 0)"
  by (auto simp: consume_entry_def Let_def split_beta consume_count update_conv' split: option.splits)

lemma consume_entry_keys:
  "distinct_keys m \<Longrightarrow> distinct_keys (fst (consume_entry b limit k m))"
  by (simp add: consume_entry_def Let_def split_beta)

lemma consume_entry_length:
  "length (fst (consume_entry b limit k m)) = (if map_of m k = None then Suc (length m) else length m)"
  by (simp add: consume_entry_def Let_def split_beta length_update_known length_update_new)

lemma consume_entry_tracked:
  "map_of (fst (consume_entry b limit k m)) k' = None \<longleftrightarrow> k' \<noteq> k \<and> map_of m k' = None"
  by (simp add: consume_entry_def Let_def split_beta update_conv')

lemmas consume_entry_facts =
  consume_entry_ok consume_entry_count consume_entry_keys consume_entry_length consume_entry_tracked

section \<open>The invariant\<close>

text \<open>
  Hash maps have distinct keys, and once a minute has been cleaned up every remaining window
  belongs to it.
\<close>

definition all_in :: "u64 \<Rightarrow> ('k \<times> limit_window) list \<Rightarrow> bool" where
  "all_in b m \<longleftrightarrow> list_all (\<lambda>(_, w). lw_minute_bucket w = b) m"

definition limit_state_ok :: "nat \<Rightarrow> nat \<Rightarrow> limit_state \<Rightarrow> bool" where
  "limit_state_ok max_entries max_prefixes st \<longleftrightarrow>
     distinct_keys (ls_windows st) \<and> distinct_keys (ls_prefixes st) \<and> distinct_keys (ls_routes st)
     \<and> length (ls_windows st) \<le> max_entries \<and> length (ls_prefixes st) \<le> max_prefixes
     \<and> (case ls_last_cleanup_bucket st of
          None \<Rightarrow> ls_windows st = [] \<and> ls_prefixes st = [] \<and> ls_routes st = [] \<and> ls_global st = None
        | Some b \<Rightarrow> all_in b (ls_windows st) \<and> all_in b (ls_prefixes st) \<and> all_in b (ls_routes st))"

definition limiter_ok :: "rate_limiter \<Rightarrow> bool" where
  "limiter_ok l \<longleftrightarrow> limit_state_ok (lim_max_entries l) (lim_max_prefixes l) (lim_state l)"

lemma all_in_filter: "all_in b (filter (\<lambda>(_, w). lw_minute_bucket w = b) m)"
  by (auto simp: all_in_def list_all_iff)

lemma all_in_consume_entry: "all_in b m \<Longrightarrow> all_in b (fst (consume_entry b limit k m))"
  unfolding consume_entry_def Let_def split_beta
  by (induction m) (auto simp: all_in_def consume_bucket fresh_window_def split: option.splits)

lemma cleanup_ok:
  assumes "limit_state_ok me mp st"
  shows "limit_state_ok me mp (cleanup b st)" and "ls_last_cleanup_bucket (cleanup b st) = Some b"
proof -
  show "limit_state_ok me mp (cleanup b st)"
    using assms by (auto simp: limit_state_ok_def cleanup_def all_in_filter length_filter_le_trans)
  show "ls_last_cleanup_bucket (cleanup b st) = Some b" by (simp add: cleanup_def)
qed

lemma live_count_filter:
  "distinct_keys m \<Longrightarrow>
   live_count b (map_of (filter (\<lambda>(_, w). lw_minute_bucket w = b) m) k) = live_count b (map_of m k)"
  by (auto simp: map_of_filter_distinct live_count_def split: option.splits)

lemma cleanup_used:
  assumes "limit_state_ok me mp st"
  shows "used_global b (cleanup b st) = used_global b st"
    and "used_route b r (cleanup b st) = used_route b r st"
    and "used_prefix b p (cleanup b st) = used_prefix b p st"
    and "used_client b k (cleanup b st) = used_client b k st"
  using assms
  by (auto simp: used_defs cleanup_def limit_state_ok_def live_count_filter,
      auto simp: live_count_def split: option.splits)

section \<open>What each stage of a check does\<close>

lemma check_client_state:
  "ls_global (fst (check_client me ip r p b st)) = ls_global st"
  "ls_routes (fst (check_client me ip r p b st)) = ls_routes st"
  "ls_prefixes (fst (check_client me ip r p b st)) = ls_prefixes st"
  "ls_last_cleanup_bucket (fst (check_client me ip r p b st)) = ls_last_cleanup_bucket st"
  by (simp_all add: check_client_def Let_def split_beta)

lemma check_prefix_state:
  "ls_global (fst (check_prefix me mp ip r p b st)) = ls_global st"
  "ls_routes (fst (check_prefix me mp ip r p b st)) = ls_routes st"
  "ls_last_cleanup_bucket (fst (check_prefix me mp ip r p b st)) = ls_last_cleanup_bucket st"
  by (simp_all add: check_prefix_def Let_def split_beta check_client_state)

lemma check_client_ok:
  assumes "limit_state_ok me mp st" and "ls_last_cleanup_bucket st = Some b"
  shows "limit_state_ok me mp (fst (check_client me ip r p b st))"
  using assms
  by (auto simp: check_client_def Let_def split_beta limit_state_ok_def consume_entry_keys
      consume_entry_length all_in_consume_entry)

lemma check_prefix_ok:
  assumes "limit_state_ok me mp st" and "ls_last_cleanup_bucket st = Some b"
  shows "limit_state_ok me mp (fst (check_prefix me mp ip r p b st))"
proof -
  let ?ps = "fst (consume_entry b (rl_prefix_rpm p) (prefix_of ip) (ls_prefixes st))"
  have "limit_state_ok me mp (st \<lparr> ls_prefixes := ?ps \<rparr>)"
    if "map_of (ls_prefixes st) (prefix_of ip) \<noteq> None \<or> length (ls_prefixes st) < mp"
    using that assms
    by (auto simp: limit_state_ok_def consume_entry_keys consume_entry_length all_in_consume_entry)
  then show ?thesis
    using assms by (simp add: check_prefix_def Let_def split_beta check_client_ok)
qed

lemma check_state_ok:
  assumes "limit_state_ok me mp st"
  shows "limit_state_ok me mp (fst (check_state me mp ip r p b st))"
proof -
  have ok: "limit_state_ok me mp (cleanup b st \<lparr> ls_global := g \<rparr>)" for g
    using cleanup_ok [OF assms, of b] by (simp add: limit_state_ok_def)
  have "limit_state_ok me mp (cleanup b st \<lparr> ls_global := g,
      ls_routes := fst (consume_entry b (rl_route_rpm p) r (ls_routes (cleanup b st))) \<rparr>)" for g
    using ok [of g] cleanup_ok(2) [OF assms, of b]
    by (simp add: limit_state_ok_def consume_entry_keys all_in_consume_entry)
  then show ?thesis
    using ok cleanup_ok(2) [OF assms, of b]
    by (simp add: check_state_def Let_def split_beta check_prefix_ok)
qed

section \<open>Memory is bounded\<close>

lemma routes_bounded: "distinct_keys (m :: (route_class \<times> limit_window) list) \<Longrightarrow> length m \<le> 5"
proof -
  let ?K = "{General, Strict, Upload, Authentication, ManagementAuth}"
  assume "distinct_keys m"
  moreover have "fst ` set m \<subseteq> ?K"
  proof
    fix r assume "r \<in> fst ` set m"
    show "r \<in> ?K" by (cases r) simp_all
  qed
  ultimately have "length m \<le> card ?K" by (intro length_filter_keys_finite) simp_all
  then show ?thesis by simp
qed

interpretation limiter_machine: invariant_machine limiter_step limiter_ok
  by unfold_locales
    (simp add: limiter_ok_def limiter_step_def check_def Let_def split_beta check_state_ok)

lemma new_limiter_ok: "limiter_ok (new_limiter n)"
  by (simp add: limiter_ok_def new_limiter_def limit_state_ok_def)

lemma limiter_step_bounds:
  "lim_max_entries (limiter_step l e) = lim_max_entries l"
  "lim_max_prefixes (limiter_step l e) = lim_max_prefixes l"
  by (simp_all add: limiter_step_def check_def Let_def split_beta)

lemma limiter_run_bounds:
  "lim_max_entries (run limiter_step l es) = lim_max_entries l"
  "lim_max_prefixes (run limiter_step l es) = lim_max_prefixes l"
  by (induction es arbitrary: l) (simp_all add: limiter_step_bounds)

text \<open>
  (C27) The limiter never holds more state than it was configured for: after any sequence of
  requests, whatever addresses, routes, policies and clock values they carry, it tracks at most
  \<open>max_entries\<close> client windows, at most a quarter of that (rounded up, at least one) prefixes
  and at most five route classes.
\<close>

theorem limiter_memory_bounded:
  "let st = lim_state (run limiter_step (new_limiter n) es)
   in length (ls_windows st) \<le> n \<and> length (ls_prefixes st) \<le> max ((n + 3) div 4) 1
      \<and> length (ls_routes st) \<le> 5"
proof -
  have "limiter_ok (run limiter_step (new_limiter n) es)"
    by (rule limiter_machine.invar_run [OF new_limiter_ok])
  then show ?thesis
    by (auto simp: limiter_ok_def limit_state_ok_def limiter_run_bounds Let_def routes_bounded,
        auto simp: new_limiter_def)
qed

section \<open>The decision\<close>

text \<open>
  The contract: scopes are tried from the widest to the narrowest, each on what it has counted in
  the current minute; a prefix or a client that cannot be tracked is left to the wider scopes.
\<close>

definition live_entries :: "u64 \<Rightarrow> ('k \<times> limit_window) list \<Rightarrow> ('k \<times> limit_window) list" where
  "live_entries b m = filter (\<lambda>(_, w). lw_minute_bucket w = b) m"

definition trackable :: "u64 \<Rightarrow> nat \<Rightarrow> 'k \<Rightarrow> ('k \<times> limit_window) list \<Rightarrow> bool" where
  "trackable b n k m \<longleftrightarrow> map_of (live_entries b m) k \<noteq> None \<or> length (live_entries b m) < n"

definition specified_decision ::
    "nat \<Rightarrow> nat \<Rightarrow> ip_addr \<Rightarrow> route_class \<Rightarrow> rate_limit_policy \<Rightarrow> u64 \<Rightarrow> limit_state \<Rightarrow> limit_decision" where
  "specified_decision me mp ip r p b st =
     (if unat (rl_global_rpm p) \<le> used_global b st then LimitDeny GlobalScope
      else if unat (rl_route_rpm p) \<le> used_route b r st then LimitDeny RouteScope
      else if trackable b mp (prefix_of ip) (ls_prefixes st)
              \<and> unat (rl_prefix_rpm p) \<le> used_prefix b (prefix_of ip) st then LimitDeny PrefixScope
      else if \<not> trackable b me (ip, r) (ls_windows st) then AllowFallback
      else if unat (rl_client_rpm p) \<le> used_client b (ip, r) st then LimitDeny ClientScope
      else LimitAllow)"

lemma all_in_live: "all_in b m \<Longrightarrow> live_entries b m = m"
  by (auto simp: all_in_def live_entries_def list_all_iff intro!: filter_True)

lemma cleanup_live:
  assumes "limit_state_ok me mp st"
  shows "ls_windows (cleanup b st) = live_entries b (ls_windows st)"
    and "ls_prefixes (cleanup b st) = live_entries b (ls_prefixes st)"
  using assms
  by (auto simp: cleanup_def limit_state_ok_def all_in_live) (simp_all add: live_entries_def)

lemma check_client_decision:
  "snd (check_client me ip r p b st)
   = (if \<not> (map_of (ls_windows st) (ip, r) \<noteq> None \<or> length (ls_windows st) < me) then AllowFallback
      else if unat (rl_client_rpm p) \<le> used_client b (ip, r) st then LimitDeny ClientScope else LimitAllow)"
  by (auto simp: check_client_def Let_def split_beta consume_entry_ok used_client_def)

lemma check_prefix_decision:
  "snd (check_prefix me mp ip r p b st)
   = (if (map_of (ls_prefixes st) (prefix_of ip) \<noteq> None \<or> length (ls_prefixes st) < mp)
         \<and> unat (rl_prefix_rpm p) \<le> used_prefix b (prefix_of ip) st then LimitDeny PrefixScope
      else snd (check_client me ip r p b st))"
  by (auto simp: check_prefix_def Let_def split_beta consume_entry_ok used_prefix_def
      check_client_decision used_client_def)

lemma global_window_ok:
  "snd (consume (case ls_global st of Some w \<Rightarrow> w | None \<Rightarrow> fresh_window b) b limit)
   \<longleftrightarrow> used_global b st < unat limit"
  by (auto simp: consume_ok used_global_def split: option.splits)

lemma check_state_decision:
  assumes "limit_state_ok me mp st"
  shows "snd (check_state me mp ip r p b st) = specified_decision me mp ip r p b st"
proof -
  note used = cleanup_used [OF assms, of b, unfolded used_defs]
  show ?thesis
    using cleanup_live [OF assms, of b] used
    by (auto simp: check_state_def Let_def split_beta global_window_ok consume_entry_ok
        check_prefix_decision check_client_decision specified_decision_def trackable_def used_defs)
qed

text \<open>
  (C4) The limiter implements its contract: in every reachable limiter the decision for a request
  is the specified one. A denial names the widest scope whose live counter has reached its
  budget, and a request below all its budgets is admitted.
\<close>

theorem limiter_refines_specification:
  assumes "limiter_ok l"
  shows "limiter_decides l e
         = specified_decision (lim_max_entries l) (lim_max_prefixes l) (ce_client_ip e) (ce_route_class e)
             (ce_policy e) (minute_bucket (ce_now e)) (lim_state l)"
  using assms check_state_decision
  by (simp add: limiter_ok_def limiter_decides_def check_def Let_def split_beta)

section \<open>What is admitted in a minute\<close>

lemma check_client_used:
  "used_client b k (fst (check_client me ip r p b st))
   = used_client b k st + (if k = (ip, r) \<and> snd (check_client me ip r p b st) = LimitAllow then 1 else 0)"
  by (auto simp: check_client_def Let_def split_beta used_client_def consume_entry_count consume_entry_ok)

lemma check_prefix_used_client:
  "used_client b k (fst (check_prefix me mp ip r p b st))
   = used_client b k st + (if k = (ip, r) \<and> snd (check_prefix me mp ip r p b st) = LimitAllow then 1 else 0)"
proof -
  have "used_client b k (st \<lparr> ls_prefixes := ps \<rparr>) = used_client b k st" for k ps
    by (simp add: used_client_def)
  then show ?thesis by (simp add: check_prefix_def Let_def split_beta check_client_used)
qed

lemma check_prefix_used_prefix:
  "used_prefix b k (fst (check_prefix me mp ip r p b st))
   = used_prefix b k st
     + (if k = prefix_of ip \<and> (map_of (ls_prefixes st) k \<noteq> None \<or> length (ls_prefixes st) < mp)
           \<and> used_prefix b k st < unat (rl_prefix_rpm p) then 1 else 0)"
  by (auto simp: check_prefix_def Let_def split_beta check_client_state used_prefix_def consume_entry_count)

lemma global_window_count:
  "live_count b (Some (fst (consume (case ls_global st of Some w \<Rightarrow> w | None \<Rightarrow> fresh_window b) b limit)))
   = used_global b st + (if used_global b st < unat limit then 1 else 0)"
  by (auto simp: consume_count used_global_def split: option.splits)

lemma check_state_used:
  fixes b p r ip me mp st
  assumes ok: "limit_state_ok me mp st"
  defines "st' \<equiv> fst (check_state me mp ip r p b st)" and "d \<equiv> snd (check_state me mp ip r p b st)"
  shows "used_global b st' = used_global b st + (if d = LimitDeny GlobalScope then 0 else 1)"
    and "used_route b r' st' = used_route b r' st
           + (if r' = r \<and> d \<noteq> LimitDeny GlobalScope \<and> d \<noteq> LimitDeny RouteScope then 1 else 0)"
    and "used_client b k st' = used_client b k st + (if k = (ip, r) \<and> d = LimitAllow then 1 else 0)"
    and "used_prefix b q st' = used_prefix b q st
           + (if q = prefix_of ip \<and> trackable b mp q (ls_prefixes st)
                \<and> d \<notin> {LimitDeny GlobalScope, LimitDeny RouteScope, LimitDeny PrefixScope} then 1 else 0)"
proof -
  note cu = cleanup_used [OF ok, of b]
  note stage = check_state_def Let_def split_beta global_window_ok consume_entry_ok check_prefix_decision
    check_client_decision
  have frame: "used_global b (st \<lparr> ls_global := g, ls_routes := rs \<rparr>) = live_count b g"
    "used_route b r' (st \<lparr> ls_global := g, ls_routes := rs \<rparr>) = live_count b (map_of rs r')"
    "used_client b k (st \<lparr> ls_global := g, ls_routes := rs \<rparr>) = used_client b k st"
    "used_prefix b q (st \<lparr> ls_global := g, ls_routes := rs \<rparr>) = used_prefix b q st"
    "used_client b k (st \<lparr> ls_global := g \<rparr>) = used_client b k st"
    "used_prefix b q (st \<lparr> ls_global := g \<rparr>) = used_prefix b q st"
    for st g rs r' k q by (simp_all add: used_defs)
  show "used_global b st' = used_global b st + (if d = LimitDeny GlobalScope then 0 else 1)"
    unfolding st'_def d_def cu(1) [symmetric]
    by (simp add: stage) (simp add: used_global_def check_prefix_state global_window_count [unfolded used_global_def])
  show "used_route b r' st' = used_route b r' st
      + (if r' = r \<and> d \<noteq> LimitDeny GlobalScope \<and> d \<noteq> LimitDeny RouteScope then 1 else 0)"
    unfolding st'_def d_def cu(2) [symmetric]
    by (simp add: stage) (simp add: used_route_def check_prefix_state consume_entry_count)
  show "used_client b k st' = used_client b k st + (if k = (ip, r) \<and> d = LimitAllow then 1 else 0)"
    unfolding st'_def d_def cu(4) [symmetric]
    by (simp add: check_state_def Let_def split_beta check_prefix_used_client frame)
  show "used_prefix b q st' = used_prefix b q st
      + (if q = prefix_of ip \<and> trackable b mp q (ls_prefixes st)
           \<and> d \<notin> {LimitDeny GlobalScope, LimitDeny RouteScope, LimitDeny PrefixScope} then 1 else 0)"
    unfolding st'_def d_def cu(3) [symmetric] trackable_def cleanup_live(2) [OF ok, symmetric]
    by (auto simp: stage check_prefix_used_prefix frame used_client_def)
qed

text \<open>A request of the given minute whose policy grants at most the given budget at a scope.\<close>

definition in_minute :: "u64 \<Rightarrow> (rate_limit_policy \<Rightarrow> u32) \<Rightarrow> nat \<Rightarrow> check_event \<Rightarrow> bool" where
  "in_minute b rpm n e \<longleftrightarrow> minute_bucket (ce_now e) = b \<and> unat (rpm (ce_policy e)) \<le> n"

lemma limiter_step_state:
  "lim_state (limiter_step l e) = fst (check_state (lim_max_entries l) (lim_max_prefixes l)
     (ce_client_ip e) (ce_route_class e) (ce_policy e) (minute_bucket (ce_now e)) (lim_state l))"
  by (simp add: limiter_step_def check_def Let_def split_beta)

lemma limiter_decides_state:
  "limiter_decides l e = snd (check_state (lim_max_entries l) (lim_max_prefixes l)
     (ce_client_ip e) (ce_route_class e) (ce_policy e) (minute_bucket (ce_now e)) (lim_state l))"
  by (simp add: limiter_decides_def check_def Let_def split_beta)

lemma limiter_used:
  assumes "limiter_ok l" and "minute_bucket (ce_now e) = b"
  shows "used_global b (lim_state (limiter_step l e))
         = used_global b (lim_state l) + (if limiter_decides l e = LimitDeny GlobalScope then 0 else 1)"
    and "used_route b r (lim_state (limiter_step l e)) = used_route b r (lim_state l)
           + (if r = ce_route_class e \<and> limiter_decides l e \<noteq> LimitDeny GlobalScope
                \<and> limiter_decides l e \<noteq> LimitDeny RouteScope then 1 else 0)"
    and "used_client b k (lim_state (limiter_step l e)) = used_client b k (lim_state l)
           + (if k = (ce_client_ip e, ce_route_class e) \<and> limiter_decides l e = LimitAllow then 1 else 0)"
    and "used_prefix b q (lim_state (limiter_step l e)) = used_prefix b q (lim_state l)
           + (if q = prefix_of (ce_client_ip e) \<and> trackable b (lim_max_prefixes l) q (ls_prefixes (lim_state l))
                \<and> limiter_decides l e \<notin> {LimitDeny GlobalScope, LimitDeny RouteScope, LimitDeny PrefixScope}
              then 1 else 0)"
  unfolding limiter_step_state limiter_decides_state assms(2)
  using assms(1) [unfolded limiter_ok_def] by (rule check_state_used)+

lemma admitted_below_budgets:
  assumes "limiter_ok l" and "admits_request (limiter_decides l e)"
  shows "used_global (minute_bucket (ce_now e)) (lim_state l) < unat (rl_global_rpm (ce_policy e))"
    and "used_route (minute_bucket (ce_now e)) (ce_route_class e) (lim_state l) < unat (rl_route_rpm (ce_policy e))"
    and "limiter_decides l e = LimitAllow \<Longrightarrow>
         used_client (minute_bucket (ce_now e)) (ce_client_ip e, ce_route_class e) (lim_state l)
           < unat (rl_client_rpm (ce_policy e))"
  using assms check_state_decision
  by (auto simp: limiter_decides_state limiter_ok_def admits_request_def specified_decision_def split: if_splits)

interpretation global_meter: metered limiter_step limiter_ok "in_minute b rl_global_rpm n"
    "\<lambda>l e. admits_request (limiter_decides l e)" "\<lambda>l. used_global b (lim_state l)" n for b n
proof
  fix l e
  assume ok: "limiter_ok l" and within: "in_minute b rl_global_rpm n e"
  show "limiter_ok (limiter_step l e)" using ok by (rule limiter_machine.invar_step)
  note used = limiter_used(1) [OF ok, of e b] within
  show "used_global b (lim_state l) \<le> used_global b (lim_state (limiter_step l e))"
    using used by (simp add: in_minute_def)
  assume "admits_request (limiter_decides l e)"
  then show "used_global b (lim_state l) < n
      \<and> used_global b (lim_state l) < used_global b (lim_state (limiter_step l e))"
    using used admitted_below_budgets(1) [OF ok, of e]
    by (auto simp: in_minute_def admits_request_def)
qed

interpretation route_meter: metered limiter_step limiter_ok "in_minute b rl_route_rpm n"
    "\<lambda>l e. admits_request (limiter_decides l e) \<and> ce_route_class e = r" "\<lambda>l. used_route b r (lim_state l)" n for b n r
proof
  fix l e
  assume ok: "limiter_ok l" and within: "in_minute b rl_route_rpm n e"
  show "limiter_ok (limiter_step l e)" using ok by (rule limiter_machine.invar_step)
  note used = limiter_used(2) [OF ok, of e b r] within
  show "used_route b r (lim_state l) \<le> used_route b r (lim_state (limiter_step l e))"
    using used by (simp add: in_minute_def)
  assume "admits_request (limiter_decides l e) \<and> ce_route_class e = r"
  then show "used_route b r (lim_state l) < n
      \<and> used_route b r (lim_state l) < used_route b r (lim_state (limiter_step l e))"
    using used admitted_below_budgets(2) [OF ok, of e]
    by (auto simp: in_minute_def admits_request_def)
qed

interpretation client_meter: metered limiter_step limiter_ok "in_minute b rl_client_rpm n"
    "\<lambda>l e. limiter_decides l e = LimitAllow \<and> (ce_client_ip e, ce_route_class e) = k"
    "\<lambda>l. used_client b k (lim_state l)" n for b n k
proof
  fix l e
  assume ok: "limiter_ok l" and within: "in_minute b rl_client_rpm n e"
  show "limiter_ok (limiter_step l e)" using ok by (rule limiter_machine.invar_step)
  note used = limiter_used(3) [OF ok, of e b k] within
  show "used_client b k (lim_state l) \<le> used_client b k (lim_state (limiter_step l e))"
    using used by (simp add: in_minute_def)
  assume "limiter_decides l e = LimitAllow \<and> (ce_client_ip e, ce_route_class e) = k"
  then show "used_client b k (lim_state l) < n
      \<and> used_client b k (lim_state l) < used_client b k (lim_state (limiter_step l e))"
    using used admitted_below_budgets(3) [OF ok, of e]
    by (auto simp: in_minute_def admits_request_def)
qed

text \<open>A prefix that is tracked in a minute stays tracked for the rest of that minute.\<close>

definition prefix_tracked :: "u64 \<Rightarrow> prefix_key \<Rightarrow> limit_state \<Rightarrow> bool" where
  "prefix_tracked b q st \<longleftrightarrow> map_of (live_entries b (ls_prefixes st)) q \<noteq> None"

lemma check_state_prefixes:
  assumes ok: "limit_state_ok me mp st"
  shows "ls_prefixes (fst (check_state me mp ip r p b st)) = live_entries b (ls_prefixes st)
       \<or> ls_prefixes (fst (check_state me mp ip r p b st))
          = fst (consume_entry b (rl_prefix_rpm p) (prefix_of ip) (live_entries b (ls_prefixes st)))"
  using cleanup_live(2) [OF ok, of b]
  by (simp add: check_state_def check_prefix_def Let_def split_beta check_client_state)

lemma prefix_tracked_step:
  assumes ok: "limit_state_ok me mp st" and tracked: "prefix_tracked b q st"
  shows "prefix_tracked b q (fst (check_state me mp ip r p b st))"
proof -
  let ?st = "fst (check_state me mp ip r p b st)" and ?m = "live_entries b (ls_prefixes st)"
  have live: "all_in b ?m" by (simp add: live_entries_def all_in_filter)
  then have "live_entries b (ls_prefixes ?st) = ls_prefixes ?st"
    using check_state_prefixes [OF ok, of ip r p b] all_in_live all_in_consume_entry by metis
  moreover have "map_of (ls_prefixes ?st) q \<noteq> None"
    using check_state_prefixes [OF ok, of ip r p b] tracked consume_entry_tracked [of b _ _ ?m q]
    unfolding prefix_tracked_def by metis
  ultimately show ?thesis by (simp add: prefix_tracked_def)
qed

lemma admitted_below_prefix:
  assumes "limiter_ok l" and "admits_request (limiter_decides l e)" and "prefix_of (ce_client_ip e) = q"
    and "prefix_tracked (minute_bucket (ce_now e)) q (lim_state l)"
  shows "used_prefix (minute_bucket (ce_now e)) q (lim_state l) < unat (rl_prefix_rpm (ce_policy e))"
  using assms check_state_decision
  by (auto simp: limiter_decides_state limiter_ok_def admits_request_def specified_decision_def
      trackable_def prefix_tracked_def split: if_splits)

interpretation prefix_meter: metered limiter_step "\<lambda>l. limiter_ok l \<and> prefix_tracked b q (lim_state l)"
    "in_minute b rl_prefix_rpm n" "\<lambda>l e. admits_request (limiter_decides l e) \<and> prefix_of (ce_client_ip e) = q"
    "\<lambda>l. used_prefix b q (lim_state l)" n for b n q
proof
  fix l e
  assume inv: "limiter_ok l \<and> prefix_tracked b q (lim_state l)" and within: "in_minute b rl_prefix_rpm n e"
  then have ok: "limiter_ok l" and tracked: "prefix_tracked b q (lim_state l)" by auto
  show "limiter_ok (limiter_step l e) \<and> prefix_tracked b q (lim_state (limiter_step l e))"
    using limiter_machine.invar_step [OF ok] prefix_tracked_step [OF ok [unfolded limiter_ok_def] tracked] within
    unfolding limiter_step_state in_minute_def by auto
  note used = limiter_used(4) [OF ok, of e b q] within
  show "used_prefix b q (lim_state l) \<le> used_prefix b q (lim_state (limiter_step l e))"
    using used by (simp add: in_minute_def)
  assume "admits_request (limiter_decides l e) \<and> prefix_of (ce_client_ip e) = q"
  then show "used_prefix b q (lim_state l) < n
      \<and> used_prefix b q (lim_state l) < used_prefix b q (lim_state (limiter_step l e))"
    using used admitted_below_prefix [OF ok, of e q] tracked
    by (auto simp: in_minute_def admits_request_def trackable_def prefix_tracked_def)
qed

text \<open>
  (C25) Aggregate budgets hold: within one minute, from any reachable limiter, the number of
  requests it lets through (fallback included) is at most the global budget, and for each route
  class at most the route budget, whatever the mix of clients.
\<close>

theorem aggregate_budgets_hold:
  assumes "limiter_ok l" and "list_all (in_minute b rl_global_rpm g) es" and "list_all (in_minute b rl_route_rpm n) es"
  shows "count_run limiter_step (\<lambda>l e. admits_request (limiter_decides l e)) l es \<le> g
         \<and> count_run limiter_step (\<lambda>l e. admits_request (limiter_decides l e) \<and> ce_route_class e = r) l es \<le> n"
  using global_meter.admissions_bounded [OF assms(1,2)] route_meter.admissions_bounded [OF assms(1,3), of r]
  by linarith

text \<open>
  (C26) Per-source budgets hold: within one minute a tracked client and route is allowed at most
  the client budget, and all requests from a tracked network prefix together at most the prefix
  budget.
\<close>

theorem source_budgets_hold:
  assumes "limiter_ok l" and "list_all (in_minute b rl_client_rpm c) es" and "list_all (in_minute b rl_prefix_rpm n) es"
  shows "count_run limiter_step (\<lambda>l e. limiter_decides l e = LimitAllow \<and> (ce_client_ip e, ce_route_class e) = k) l es \<le> c
         \<and> (prefix_tracked b q (lim_state l) \<longrightarrow>
              count_run limiter_step (\<lambda>l e. admits_request (limiter_decides l e) \<and> prefix_of (ce_client_ip e) = q) l es \<le> n)"
  using client_meter.admissions_bounded [OF assms(1,2), of k] prefix_meter.admissions_bounded [of l b q n es] assms(1,3)
  by (meson diff_le_self order_trans)

section \<open>Witnesses\<close>

definition sample_policy :: rate_limit_policy where
  "sample_policy = from_multipliers 1 2 3 4"

definition sample_request :: "nat \<Rightarrow> check_event" where
  "sample_request n = \<lparr> ce_client_ip = V4 (0xc0a80100 + of_nat n), ce_route_class = Strict,
                        ce_policy = sample_policy, ce_now = 60000000000 \<rparr>"

lemmas sample_simps = sample_request_def sample_policy_def from_multipliers_def minute_bucket_def saturating_mul_def

lemmas limiter_simps = limiter_step_def check_def check_state_def new_limiter_def cleanup_def consume_def fresh_window_def
  consume_entry_def check_prefix_def check_client_def saturating_add_def sample_simps Let_def

theorem limiter_refines_specification_witness:
  "limiter_ok (run limiter_step (new_limiter 8) [sample_request 1])
   \<and> limiter_decides (run limiter_step (new_limiter 8) [sample_request 1]) (sample_request 1)
     = LimitDeny ClientScope"
proof
  let ?l = "run limiter_step (new_limiter 8) [sample_request 1]"
  show ok: "limiter_ok ?l" by (rule limiter_machine.invar_run [OF new_limiter_ok])
  have "specified_decision (lim_max_entries ?l) (lim_max_prefixes ?l) (ce_client_ip (sample_request 1))
      (ce_route_class (sample_request 1)) (ce_policy (sample_request 1))
      (minute_bucket (ce_now (sample_request 1))) (lim_state ?l) = LimitDeny ClientScope"
    by (simp add: limiter_simps specified_decision_def trackable_def live_entries_def used_global_def used_route_def
        used_prefix_def used_client_def live_count_def)
  then show "limiter_decides ?l (sample_request 1) = LimitDeny ClientScope"
    using limiter_refines_specification [OF ok, of "sample_request 1"] by simp
qed

theorem aggregate_budgets_hold_witness:
  "let es = map sample_request [1, 2, 3, 4, 5] in
   list_all (in_minute 1 rl_global_rpm 4) es \<and> list_all (in_minute 1 rl_route_rpm 3) es
   \<and> count_run limiter_step (\<lambda>l e. admits_request (limiter_decides l e)) (new_limiter 8) es \<le> 4
   \<and> count_run limiter_step (\<lambda>l e. admits_request (limiter_decides l e) \<and> ce_route_class e = Strict) (new_limiter 8) es \<le> 3"
proof -
  have "list_all (in_minute 1 rl_global_rpm 4) (map sample_request [1, 2, 3, 4, 5])"
    and "list_all (in_minute 1 rl_route_rpm 3) (map sample_request [1, 2, 3, 4, 5])"
    by (simp_all add: in_minute_def sample_simps)
  with aggregate_budgets_hold [OF new_limiter_ok this, of 8 Strict] show ?thesis by simp
qed

theorem source_budgets_hold_witness:
  "let es = replicate 3 (sample_request 1); l = limiter_step (new_limiter 8) (sample_request 2);
       q = prefix_of (ce_client_ip (sample_request 1)) in
   limiter_ok l \<and> list_all (in_minute 1 rl_client_rpm 1) es \<and> list_all (in_minute 1 rl_prefix_rpm 2) es
   \<and> prefix_tracked 1 q (lim_state l)
   \<and> count_run limiter_step (\<lambda>l e. limiter_decides l e = LimitAllow
        \<and> (ce_client_ip e, ce_route_class e) = (ce_client_ip (sample_request 1), Strict)) l es \<le> 1
   \<and> count_run limiter_step (\<lambda>l e. admits_request (limiter_decides l e) \<and> prefix_of (ce_client_ip e) = q) l es \<le> 2"
proof -
  let ?es = "replicate 3 (sample_request 1)" and ?l = "limiter_step (new_limiter 8) (sample_request 2)"
  have ok: "limiter_ok ?l" by (rule limiter_machine.invar_step [OF new_limiter_ok])
  have within: "list_all (in_minute 1 rl_client_rpm 1) ?es" "list_all (in_minute 1 rl_prefix_rpm 2) ?es"
    by (simp_all add: in_minute_def sample_simps list_all_iff)
  have "prefix_tracked 1 (prefix_of (ce_client_ip (sample_request 1))) (lim_state ?l)"
    by (simp add: limiter_simps prefix_tracked_def live_entries_def)
  with source_budgets_hold [OF ok within, of "(ce_client_ip (sample_request 1), Strict)"
      "prefix_of (ce_client_ip (sample_request 1))"] ok within
  show ?thesis by (simp add: Let_def)
qed

end
