(* ===== verification/Edge_Policy.thy ===== *)
theory Edge_Policy
  imports Net_Addr
begin

text \<open>
  The pure request policy of \<open>guard-edge/src/policy.rs\<close>: host and path rules and the choice of
  the client address from the forwarded chain. Networks belong to the \<open>ipnet\<close> crate: their type
  and the \<open>contains\<close> test are parameters. The theorems characterise what a rule matches and show
  that a client cannot choose its own address.
\<close>

section \<open>Host rules\<close>

definition without_port :: "string \<Rightarrow> string" where
  "without_port s = (case split_once (CHR '':'') s of Some (host, _) \<Rightarrow> host | None \<Rightarrow> s)"

definition normalize_host :: "string \<Rightarrow> string" where
  "normalize_host raw =
     (let trimmed = to_ascii_lowercase (trim_end_matches (CHR ''.'') (trim raw))
      in case strip_prefix trimmed ''['' of
           None \<Rightarrow> without_port trimmed
         | Some without_bracket \<Rightarrow>
             (case split_once (CHR '']'') without_bracket of
                Some (host, _) \<Rightarrow> host
              | None \<Rightarrow> without_port trimmed))"

definition host_matches_rule :: "string \<Rightarrow> string \<Rightarrow> bool" where
  "host_matches_rule host rule =
     (let host = normalize_host host; rule = normalize_host rule
      in case strip_prefix rule ''*.'' of
           Some domain \<Rightarrow>
             (case strip_suffix host domain of
                None \<Rightarrow> False
              | Some front \<Rightarrow>
                  (case strip_suffix front ''.'' of
                     None \<Rightarrow> False
                   | Some label \<Rightarrow> label \<noteq> [] \<and> \<not> contains_char label (CHR ''.'')))
         | None \<Rightarrow> host = rule)"

definition host_allowed :: "string option \<Rightarrow> string list \<Rightarrow> bool" where
  "host_allowed host allowed_hosts =
     (case host of None \<Rightarrow> False | Some candidate \<Rightarrow> list_ex (host_matches_rule candidate) allowed_hosts)"

section \<open>Path rules\<close>

definition path_matches_rule :: "string \<Rightarrow> string \<Rightarrow> bool" where
  "path_matches_rule path rule \<longleftrightarrow>
     rule = ''/'' \<or> path = rule
     \<or> (case strip_prefix path rule of None \<Rightarrow> False | Some rest \<Rightarrow> starts_with rest ''/'')"

definition path_matches_any :: "string \<Rightarrow> string list \<Rightarrow> bool" where
  "path_matches_any path rules = list_ex (path_matches_rule path) rules"

section \<open>The client address\<close>

definition ip_is_trusted :: "('net \<Rightarrow> ip_addr \<Rightarrow> bool) \<Rightarrow> ip_addr \<Rightarrow> 'net list \<Rightarrow> bool" where
  "ip_is_trusted net_contains ip trusted_proxies = list_ex (\<lambda>network. net_contains network ip) trusted_proxies"

definition parse_chain :: "string \<Rightarrow> ip_addr list option" where
  "parse_chain raw_chain = those (map (\<lambda>hop. parse_ip (trim hop)) (split_on (CHR '','') raw_chain))"

definition effective_client_ip ::
    "('net \<Rightarrow> ip_addr \<Rightarrow> bool) \<Rightarrow> ip_addr \<Rightarrow> string option \<Rightarrow> 'net list \<Rightarrow> ip_addr" where
  "effective_client_ip net_contains direct_peer forwarded_for trusted_proxies =
     (if \<not> ip_is_trusted net_contains direct_peer trusted_proxies then direct_peer
      else case forwarded_for of
        None \<Rightarrow> direct_peer
      | Some raw_chain \<Rightarrow>
          (case parse_chain raw_chain of
             None \<Rightarrow> direct_peer
           | Some chain \<Rightarrow>
               if chain = [] then direct_peer
               else (case find (\<lambda>candidate. \<not> ip_is_trusted net_contains candidate trusted_proxies) (rev chain) of
                       Some candidate \<Rightarrow> candidate
                     | None \<Rightarrow> hd chain)))"

section \<open>What a host rule matches\<close>

text \<open>
  A rule is exact or covers one label: with a rule of the form \<open>*.domain\<close> a host matches
  exactly if its normal form is one non-empty label without dots in front of \<open>.domain\<close>; with any
  other rule exactly if the normal forms are equal. So a wildcard never matches its own apex, a
  deeper subdomain, or a name that merely ends in the domain.
\<close>

theorem host_matches_rule_iff:
  "host_matches_rule host rule \<longleftrightarrow>
     (if prefix ''*.'' (normalize_host rule)
      then \<exists>label. label \<noteq> [] \<and> CHR ''.'' \<notin> set label
             \<and> normalize_host host = label @ ''.'' @ drop 2 (normalize_host rule)
      else normalize_host host = normalize_host rule)"
proof (cases "strip_prefix (normalize_host rule) ''*.''")
  case None
  with strip_prefix_None_iff [of "normalize_host rule" "''*.''"] show ?thesis
    by (simp add: host_matches_rule_def Let_def)
next
  case (Some domain)
  then have rule: "normalize_host rule = ''*.'' @ domain" by (simp only: strip_prefix_Some_iff)
  have "host_matches_rule host rule \<longleftrightarrow>
      (\<exists>label. label \<noteq> [] \<and> CHR ''.'' \<notin> set label \<and> normalize_host host = label @ ''.'' @ domain)"
  proof -
    have "(case strip_suffix (normalize_host host) domain of None \<Rightarrow> False
          | Some front \<Rightarrow> (case strip_suffix front ''.'' of None \<Rightarrow> False
                 | Some label \<Rightarrow> label \<noteq> [] \<and> \<not> contains_char label (CHR ''.'')))
      \<longleftrightarrow> (\<exists>front label. strip_suffix (normalize_host host) domain = Some front
             \<and> strip_suffix front ''.'' = Some label \<and> label \<noteq> [] \<and> CHR ''.'' \<notin> set label)"
      by (simp add: contains_char_def split: option.splits)
    then show ?thesis
      unfolding host_matches_rule_def Let_def Some option.case
      by (auto simp: strip_suffix_Some_iff)
  qed
  with rule show ?thesis by simp
qed

section \<open>What a path rule matches\<close>

lemma path_matches_rule_cases:
  "path_matches_rule path rule \<longleftrightarrow> rule = ''/'' \<or> path = rule \<or> (\<exists>rest. path = rule @ CHR ''/'' # rest)"
proof -
  have "(case strip_prefix path rule of None \<Rightarrow> False | Some rest \<Rightarrow> starts_with rest ''/'')
      \<longleftrightarrow> (\<exists>rest. strip_prefix path rule = Some (CHR ''/'' # rest))"
    by (auto simp: starts_with_def prefix_def split: option.splits)
  then show ?thesis by (simp add: path_matches_rule_def strip_prefix_Some_iff)
qed

text \<open>
  (C36) Path rules respect segment boundaries: apart from the rule \<open>/\<close>, which matches everything,
  a rule matches exactly the paths whose list of segments starts with the segments of the rule.
  \<open>/admin\<close> covers \<open>/admin/users\<close> and never \<open>/administrator\<close>.
\<close>

theorem path_matches_rule_segments:
  "path_matches_rule path rule \<longleftrightarrow>
     rule = ''/'' \<or> prefix (split_on (CHR ''/'') rule) (split_on (CHR ''/'') path)"
proof -
  let ?split = "split_on (CHR ''/'')"
  have "prefix (?split rule) (?split path) \<longleftrightarrow> path = rule \<or> (\<exists>rest. path = rule @ CHR ''/'' # rest)"
  proof
    assume "prefix (?split rule) (?split path)"
    then obtain ys where ys: "?split path = ?split rule @ ys" by (auto simp: prefix_def)
    show "path = rule \<or> (\<exists>rest. path = rule @ CHR ''/'' # rest)"
    proof (cases "ys = []")
      case True
      with ys show ?thesis using join_split_on [of "CHR ''/''"] by (metis append_Nil2)
    next
      case False
      have "path = join_with ''/'' (?split rule @ ys)" using join_split_on ys by metis
      also have "\<dots> = join_with ''/'' (?split rule) @ ''/'' @ join_with ''/'' ys"
        using False by (simp add: join_with_append)
      finally show ?thesis using join_split_on [of "CHR ''/''" rule] by auto
    qed
  next
    assume "path = rule \<or> (\<exists>rest. path = rule @ CHR ''/'' # rest)"
    then show "prefix (?split rule) (?split path)" by (auto simp: split_by_append_sep)
  qed
  then show ?thesis by (simp add: path_matches_rule_cases)
qed

section \<open>The client cannot choose its address\<close>

lemma those_append:
  "those (xs @ ys) = (case those xs of None \<Rightarrow> None | Some a \<Rightarrow> map_option (\<lambda>b. a @ b) (those ys))"
  by (cases "those ys") (induction xs; auto split: option.splits)+

lemma those_length: "those xs = Some ys \<Longrightarrow> length ys = length xs"
  by (induction xs arbitrary: ys) (auto split: option.splits)

lemma parse_chain_not_Nil: "parse_chain raw \<noteq> Some []"
proof
  assume "parse_chain raw = Some []"
  from those_length [OF this [unfolded parse_chain_def]] show False by simp
qed

lemma parse_chain_append:
  "parse_chain (left @ CHR '','' # right)
   = (case parse_chain left of None \<Rightarrow> None | Some a \<Rightarrow> map_option (\<lambda>b. a @ b) (parse_chain right))"
  unfolding parse_chain_def by (simp add: split_by_append_sep those_append)

definition rightmost_untrusted :: "('net \<Rightarrow> ip_addr \<Rightarrow> bool) \<Rightarrow> 'net list \<Rightarrow> ip_addr list \<Rightarrow> ip_addr option" where
  "rightmost_untrusted net_contains nets chain = find (\<lambda>c. \<not> ip_is_trusted net_contains c nets) (rev chain)"

lemma find_append: "find P (xs @ ys) = (case find P xs of None \<Rightarrow> find P ys | Some x \<Rightarrow> Some x)"
  by (induction xs) auto

lemma rightmost_untrusted_append:
  "rightmost_untrusted nc nets right = Some a \<Longrightarrow> rightmost_untrusted nc nets (left @ right) = Some a"
  by (simp add: rightmost_untrusted_def find_append)

lemma effective_client_ip_chain:
  assumes "ip_is_trusted nc peer nets" and "parse_chain raw = Some chain"
  shows "effective_client_ip nc peer (Some raw) nets
         = (case rightmost_untrusted nc nets chain of Some a \<Rightarrow> a | None \<Rightarrow> hd chain)"
  using assms parse_chain_not_Nil [of raw]
  by (auto simp: effective_client_ip_def rightmost_untrusted_def)

text \<open>
  (C8) A client cannot spoof its address. A peer that is not a trusted proxy is always taken
  at its own address, whatever header it sends. Behind a trusted proxy, when the part of the
  chain that trusted proxies appended contains the address of the untrusted hop they saw, nothing
  that was put in front of that part changes the result, except that text which is not an address
  list makes the direct peer the client.
\<close>

theorem forwarded_chain_not_spoofable:
  assumes "parse_chain right = Some seen" and "rightmost_untrusted nc nets seen = Some a"
  shows "effective_client_ip nc peer (Some (left @ CHR '','' # right)) nets
           = (if \<not> ip_is_trusted nc peer nets \<or> parse_chain left = None then peer else a)"
proof (cases "ip_is_trusted nc peer nets")
  case False
  then show ?thesis by (simp add: effective_client_ip_def)
next
  case trusted: True
  show ?thesis
  proof (cases "parse_chain left")
    case None
    with trusted show ?thesis by (simp add: effective_client_ip_def parse_chain_append)
  next
    case (Some front)
    then have "parse_chain (left @ CHR '','' # right) = Some (front @ seen)"
      using assms(1) by (simp add: parse_chain_append)
    with trusted Some assms(2) show ?thesis
      by (simp add: effective_client_ip_chain rightmost_untrusted_append)
  qed
qed

text \<open>
  A concrete network test for the witness: an IPv4 network is a base address and a mask length.
\<close>

definition sample_contains :: "u32 \<times> nat \<Rightarrow> ip_addr \<Rightarrow> bool" where
  "sample_contains net ip =
     (case ip of V4 a \<Rightarrow> drop_bit (32 - snd net) a = drop_bit (32 - snd net) (fst net) | V6 _ \<Rightarrow> False)"

theorem forwarded_chain_not_spoofable_witness:
  "parse_chain '' 203.0.113.9, 10.0.0.7'' = Some [V4 0xcb007109, V4 0x0a000007]
   \<and> rightmost_untrusted sample_contains [(0x0a000000, 8)] [V4 0xcb007109, V4 0x0a000007] = Some (V4 0xcb007109)
   \<and> effective_client_ip sample_contains (V4 0x0a000001) (Some (''127.0.0.1,10.9.9.9'' @ CHR '','' # '' 203.0.113.9, 10.0.0.7''))
       [(0x0a000000, 8)] = V4 0xcb007109"
proof -
  have chain: "parse_chain '' 203.0.113.9, 10.0.0.7'' = Some [V4 0xcb007109, V4 0x0a000007]" by code_simp
  have seen: "rightmost_untrusted sample_contains [(0x0a000000, 8)] [V4 0xcb007109, V4 0x0a000007] = Some (V4 0xcb007109)"
    by (simp add: rightmost_untrusted_def sample_contains_def ip_is_trusted_def)
  have "ip_is_trusted sample_contains (V4 0x0a000001) [(0x0a000000, 8)]"
    by (simp add: sample_contains_def ip_is_trusted_def)
  moreover have "parse_chain ''127.0.0.1,10.9.9.9'' \<noteq> None" by code_simp
  ultimately show ?thesis using chain seen
    using forwarded_chain_not_spoofable [OF chain seen, of "V4 0x0a000001" "''127.0.0.1,10.9.9.9''"] by simp
qed

end
