(* ===== verification/Detection.thy ===== *)
theory Detection
  imports Guard_Prelude
begin

text \<open>
  The rule based detector of \<open>guard-core/src/detection.rs\<close>: host pressure, the detection
  input, the scores and the recommended decision with its reason codes. The theorems bound the
  scores, show that the decision is monotone in the evidence, and that it is always explained.
\<close>

section \<open>Data\<close>

record host_pressure =
  hp_score :: u8
  hp_signals_available :: bool

definition available :: "u8 \<Rightarrow> host_pressure" where
  "available score = \<lparr> hp_score = (if score > 100 then 100 else score), hp_signals_available = True \<rparr>"

definition unavailable :: host_pressure where
  "unavailable = \<lparr> hp_score = 0, hp_signals_available = False \<rparr>"

record detection_input =
  di_trust :: u8
  di_automation :: u8
  di_route_cost :: u8
  di_upstream_pressure :: u8
  di_host_pressure :: host_pressure
  di_session_continuity :: bool
  di_crawler_verified :: bool

datatype reason_code =
  AutomationPattern | ExpensiveRoute | UpstreamPressure | HostResourcePressure
  | NoSessionContinuity | VerifiedCrawlerReason | ResourceSignalsMissing | TrustedIdentity

datatype decision = Allow | Observe | Throttle | Challenge | Deny

fun is_protective :: "decision \<Rightarrow> bool" where
  "is_protective Throttle = True"
| "is_protective Challenge = True"
| "is_protective Deny = True"
| "is_protective _ = False"

record assessment =
  as_trust_score :: u8
  as_bot_likelihood :: u8
  as_resource_cost :: u8
  as_confidence :: u8
  as_decision :: decision
  as_reason_codes :: "reason_code list"

section \<open>The detector\<close>

definition assess_host_pressure :: "detection_input \<Rightarrow> u8" where
  "assess_host_pressure input =
     (if hp_signals_available (di_host_pressure input) then hp_score (di_host_pressure input) else 0)"

definition assess_cost :: "detection_input \<Rightarrow> u8" where
  "assess_cost input =
     (let effective_pressure = max (min (di_upstream_pressure input) 100) (assess_host_pressure input)
      in min (saturating_add (min (di_route_cost input) 100) (effective_pressure div 2)) 100)"

definition assess_bot :: "detection_input \<Rightarrow> u8" where
  "assess_bot input =
     (let bot_score = min (di_automation input) 100;
          bot_score = (if di_session_continuity input then saturating_sub bot_score 20 else bot_score)
      in if di_crawler_verified input then saturating_sub bot_score 35 else bot_score)"

definition assess_reasons :: "detection_input \<Rightarrow> reason_code list" where
  "assess_reasons input =
     (if di_automation input \<ge> 50 then [AutomationPattern] else [])
     @ (if di_route_cost input \<ge> 50 then [ExpensiveRoute] else [])
     @ (if di_upstream_pressure input \<ge> 50 then [UpstreamPressure] else [])
     @ (if assess_host_pressure input \<ge> 50 then [HostResourcePressure] else [])
     @ (if di_session_continuity input then [TrustedIdentity] else [NoSessionContinuity])
     @ (if di_crawler_verified input then [VerifiedCrawlerReason] else [])
     @ (if hp_signals_available (di_host_pressure input) then [] else [ResourceSignalsMissing])"

definition assess_decision :: "u8 \<Rightarrow> u8 \<Rightarrow> u8 \<Rightarrow> decision" where
  "assess_decision cost bot_score trust_score =
     (if cost \<ge> 80 \<and> bot_score \<ge> 80 \<and> trust_score < 40 then Deny
      else if cost \<ge> 65 \<and> bot_score \<ge> 60 \<and> trust_score < 60 then Challenge
      else if cost \<ge> 60 then Throttle
      else if bot_score \<ge> 60 \<and> trust_score < 50 then Observe
      else Allow)"

definition assess :: "detection_input \<Rightarrow> assessment" where
  "assess input =
     (let trust_score = min (di_trust input) 100;
          bot_score = assess_bot input;
          cost = assess_cost input
      in \<lparr> as_trust_score = trust_score,
           as_bot_likelihood = bot_score,
           as_resource_cost = cost,
           as_confidence = (if hp_signals_available (di_host_pressure input) then 100 else 60),
           as_decision = assess_decision cost bot_score trust_score,
           as_reason_codes = assess_reasons input \<rparr>)"

section \<open>Decisions ordered by severity\<close>

primrec decision_rank :: "decision \<Rightarrow> nat" where
  "decision_rank Allow = 0"
| "decision_rank Observe = 1"
| "decision_rank Throttle = 2"
| "decision_rank Challenge = 3"
| "decision_rank Deny = 4"

lemma decision_rank_inject: "decision_rank a = decision_rank b \<Longrightarrow> a = b"
  by (cases a; cases b) auto

instantiation decision :: linorder
begin

definition less_eq_decision :: "decision \<Rightarrow> decision \<Rightarrow> bool" where
  "less_eq_decision a b \<longleftrightarrow> decision_rank a \<le> decision_rank b"

definition less_decision :: "decision \<Rightarrow> decision \<Rightarrow> bool" where
  "less_decision a b \<longleftrightarrow> decision_rank a < decision_rank b"

instance
  by standard (auto simp: less_eq_decision_def less_decision_def intro: decision_rank_inject)

end

lemma is_protective_iff: "is_protective d \<longleftrightarrow> Throttle \<le> d"
  by (cases d) (auto simp: less_eq_decision_def)

section \<open>Scores are bounded\<close>

lemma assess_cost_le: "assess_cost input \<le> 100"
  by (simp add: assess_cost_def Let_def)

lemma saturating_sub_le: "saturating_sub a b \<le> (a :: 'a::len word)"
  by (simp add: word_le_nat_alt unat_saturating_sub)

lemma saturating_sub_le_trans: "a \<le> c \<Longrightarrow> saturating_sub a b \<le> (c :: 'a::len word)"
  using saturating_sub_le order_trans by blast

lemma assess_bot_le: "assess_bot input \<le> 100"
  unfolding assess_bot_def Let_def by (auto intro!: saturating_sub_le_trans)

text \<open>
  Every score of an assessment lies in 0..=100 for every input, also for inputs whose fields
  exceed 100, and the confidence is 100 with host signals and 60 without.
\<close>

theorem assess_scores_bounded:
  "as_trust_score (assess input) \<le> 100 \<and> as_bot_likelihood (assess input) \<le> 100
   \<and> as_resource_cost (assess input) \<le> 100
   \<and> as_confidence (assess input)
       = (if hp_signals_available (di_host_pressure input) then 100 else 60)"
  by (simp add: assess_def Let_def assess_cost_le assess_bot_le)

section \<open>The decision is monotone in the evidence\<close>

text \<open>
  One input is at least as suspicious as another: no more trusted, no less automated, no cheaper,
  under no less pressure, and without an exculpating signal the other lacks.
\<close>

definition at_least_as_suspicious :: "detection_input \<Rightarrow> detection_input \<Rightarrow> bool" where
  "at_least_as_suspicious worse better \<longleftrightarrow>
     di_trust worse \<le> di_trust better
     \<and> di_automation better \<le> di_automation worse
     \<and> di_route_cost better \<le> di_route_cost worse
     \<and> di_upstream_pressure better \<le> di_upstream_pressure worse
     \<and> assess_host_pressure better \<le> assess_host_pressure worse
     \<and> (di_session_continuity worse \<longrightarrow> di_session_continuity better)
     \<and> (di_crawler_verified worse \<longrightarrow> di_crawler_verified better)"

lemma assess_decision_mono:
  assumes "c \<le> c'" and "b \<le> b'" and "t' \<le> t"
  shows "assess_decision c b t \<le> assess_decision c' b' t'"
  using assms unfolding assess_decision_def less_eq_decision_def word_cmp_nat by auto

lemma saturating_add_mono:
  "a \<le> a' \<Longrightarrow> b \<le> b' \<Longrightarrow> saturating_add a b \<le> saturating_add a' (b' :: 'a::len word)"
  unfolding word_le_nat_alt unat_saturating_add by simp

lemma saturating_sub_mono: "a \<le> a' \<Longrightarrow> saturating_sub a b \<le> saturating_sub a' (b :: 'a::len word)"
  unfolding word_le_nat_alt unat_saturating_sub by simp

lemma word_div_mono: "a \<le> b \<Longrightarrow> a div c \<le> b div (c :: 'a::len word)"
  by (simp add: word_le_nat_alt unat_div div_le_mono)

lemma assess_cost_mono:
  assumes "at_least_as_suspicious w b"
  shows "assess_cost b \<le> assess_cost w"
proof -
  have "max (min (di_upstream_pressure b) 100) (assess_host_pressure b)
      \<le> max (min (di_upstream_pressure w) 100) (assess_host_pressure w)"
    using assms by (intro max.mono min.mono) (auto simp: at_least_as_suspicious_def)
  then show ?thesis
    using assms unfolding assess_cost_def Let_def
    by (intro min.mono saturating_add_mono word_div_mono) (auto simp: at_least_as_suspicious_def)
qed

lemma assess_bot_mono:
  assumes "at_least_as_suspicious w b"
  shows "assess_bot b \<le> assess_bot w"
proof -
  have a: "min (di_automation b) 100 \<le> min (di_automation w) 100"
    using assms by (intro min.mono) (auto simp: at_least_as_suspicious_def)
  have s: "di_session_continuity w \<longrightarrow> di_session_continuity b"
    and c: "di_crawler_verified w \<longrightarrow> di_crawler_verified b"
    using assms by (auto simp: at_least_as_suspicious_def)
  have "saturating_sub (min (di_automation b) 100) 20 \<le> min (di_automation w) 100"
    using a saturating_sub_le order_trans by blast
  with a s have "(if di_session_continuity b then saturating_sub (min (di_automation b) 100) 20 else min (di_automation b) 100)
     \<le> (if di_session_continuity w then saturating_sub (min (di_automation w) 100) 20 else min (di_automation w) 100)"
    by (auto intro: saturating_sub_mono)
  with c show ?thesis
    unfolding assess_bot_def Let_def by (auto intro: saturating_sub_mono saturating_sub_le_trans)
qed

text \<open>
  (C38) The recommended decision is monotone: an input that is at least as suspicious as another in
  every signal never receives a milder decision. In particular more trust, a verified crawler
  identity or session continuity never makes the decision more severe.
\<close>

theorem assess_monotone:
  assumes "at_least_as_suspicious worse better"
  shows "as_decision (assess better) \<le> as_decision (assess worse)"
proof -
  have "min (di_trust worse) 100 \<le> min (di_trust better) 100"
    using assms by (intro min.mono) (auto simp: at_least_as_suspicious_def)
  then show ?thesis
    using assess_cost_mono [OF assms] assess_bot_mono [OF assms]
    by (simp add: assess_def Let_def assess_decision_mono)
qed

theorem assess_monotone_witness:
  "let worse = \<lparr> di_trust = 10, di_automation = 95, di_route_cost = 70, di_upstream_pressure = 60,
                 di_host_pressure = available 80, di_session_continuity = False, di_crawler_verified = False \<rparr>;
       better = worse \<lparr> di_trust := 90, di_crawler_verified := True \<rparr>
   in at_least_as_suspicious worse better
      \<and> as_decision (assess better) \<le> as_decision (assess worse)
      \<and> as_decision (assess worse) = Deny \<and> as_decision (assess better) = Throttle"
proof -
  define worse where "worse = \<lparr> di_trust = 10, di_automation = 95, di_route_cost = 70, di_upstream_pressure = 60,
                 di_host_pressure = available 80, di_session_continuity = False, di_crawler_verified = False \<rparr>"
  define better where "better = worse \<lparr> di_trust := 90, di_crawler_verified := True \<rparr>"
  have sus: "at_least_as_suspicious worse better"
    by (simp add: worse_def better_def at_least_as_suspicious_def assess_host_pressure_def)
  moreover have "as_decision (assess worse) = Deny" and "as_decision (assess better) = Throttle"
    unfolding worse_def better_def by code_simp+
  ultimately show ?thesis
    using assess_monotone [OF sus] by (simp add: worse_def better_def)
qed

section \<open>Every decision is explained\<close>

lemmas assess_reasons_simps = assess_def Let_def assess_reasons_def assess_host_pressure_def

text \<open>
  Every assessment is explained: its reason codes are distinct, never empty and at most six; exactly
  one of the two session codes is present; a missing host collector is reported, and then host
  pressure is never blamed; and the decision is protective exactly when the resource cost reaches 60.
\<close>

theorem assess_explained:
  "let r = as_reason_codes (assess input) in
     distinct r \<and> 1 \<le> length r \<and> length r \<le> 6
     \<and> (TrustedIdentity \<in> set r) \<noteq> (NoSessionContinuity \<in> set r)
     \<and> (ResourceSignalsMissing \<in> set r) = (as_confidence (assess input) = 60)
     \<and> \<not> (ResourceSignalsMissing \<in> set r \<and> HostResourcePressure \<in> set r)
     \<and> (is_protective (as_decision (assess input)) = (60 \<le> as_resource_cost (assess input)))"
proof -
  have "is_protective (as_decision (assess input)) = (60 \<le> as_resource_cost (assess input))"
    unfolding assess_def Let_def assess_decision_def word_cmp_nat by simp
  then show ?thesis by (simp add: assess_reasons_simps)
qed

end
