(* ===== verification/Guard_State.thy ===== *)
theory Guard_State
  imports Detection
begin

text \<open>
  The protection state machine of \<open>guard-core/src/state.rs\<close>: the persisted control state, the
  hysteresis transition, the operator's hold and resume. The theorems show the stored-state
  invariant, when the machine may and must escalate to external protection, and that it never
  leaves external protection without the operator.
\<close>

section \<open>Data\<close>

datatype guard_mode =
  Normal | Watch | LocalGuard | EmergencyProxy | RecoveryReady | Recovering | ManualHold

record guard_state =
  gs_schema_version :: u32
  gs_current_mode :: guard_mode
  gs_manual_hold :: bool
  gs_policy_version :: u64
  gs_last_transition_at :: string
  gs_last_healthy_at :: string
  gs_active_incident_id :: "string option"
  gs_bypass_enabled :: bool
  gs_breach_windows :: u8
  gs_stable_windows :: u8

record transition_input =
  ti_assessment :: assessment
  ti_distributed_pressure :: bool
  ti_provider_verified :: bool
  ti_occurred_at :: string

datatype state_error = UnsupportedSchema u32 | ManualHoldMismatch

section \<open>Operations\<close>

definition normal :: "string \<Rightarrow> guard_state" where
  "normal now =
     \<lparr> gs_schema_version = 1, gs_current_mode = Normal, gs_manual_hold = False,
       gs_policy_version = 0, gs_last_transition_at = now, gs_last_healthy_at = now,
       gs_active_incident_id = None, gs_bypass_enabled = False,
       gs_breach_windows = 0, gs_stable_windows = 0 \<rparr>"

definition validate_state :: "guard_state \<Rightarrow> state_error + unit" where
  "validate_state s =
     (if gs_schema_version s \<noteq> 1 then Inl (UnsupportedSchema (gs_schema_version s))
      else if gs_manual_hold s \<noteq> (gs_current_mode s = ManualHold) then Inl ManualHoldMismatch
      else Inr ())"

definition risky :: "transition_input \<Rightarrow> bool" where
  "risky input = is_protective (as_decision (ti_assessment input))"

definition count_window :: "guard_state \<Rightarrow> transition_input \<Rightarrow> guard_state" where
  "count_window s input =
     (if risky input
      then s \<lparr> gs_breach_windows := saturating_add (gs_breach_windows s) 1, gs_stable_windows := 0 \<rparr>
      else s \<lparr> gs_stable_windows := saturating_add (gs_stable_windows s) 1, gs_breach_windows := 0,
               gs_last_healthy_at := ti_occurred_at input \<rparr>)"

text \<open>The match arms of \<open>transition\<close>, in the order of the source.\<close>

definition next_mode :: "guard_state \<Rightarrow> transition_input \<Rightarrow> guard_mode" where
  "next_mode s input =
     (let m = gs_current_mode s in
      if m = Normal \<and> risky input then Watch
      else if m = Watch \<and> gs_breach_windows s \<ge> 3 then LocalGuard
      else if m = LocalGuard \<and> gs_breach_windows s \<ge> 5 \<and> ti_distributed_pressure input then EmergencyProxy
      else if m = EmergencyProxy \<and> \<not> risky input \<and> gs_stable_windows s \<ge> 5 \<and> ti_provider_verified input
        then RecoveryReady
      else if m = RecoveryReady \<and> risky input then EmergencyProxy
      else if m = LocalGuard \<and> gs_stable_windows s \<ge> 3 then Recovering
      else if m = Watch \<and> gs_stable_windows s \<ge> 2 then Normal
      else if m = Recovering \<and> gs_stable_windows s \<ge> 5 then Normal
      else m)"

definition transition :: "guard_state \<Rightarrow> transition_input \<Rightarrow> guard_state" where
  "transition s input =
     (if gs_manual_hold s then s
      else let s' = count_window s input; next = next_mode s' input
           in if next \<noteq> gs_current_mode s'
              then s' \<lparr> gs_current_mode := next, gs_last_transition_at := ti_occurred_at input \<rparr>
              else s')"

definition hold :: "guard_state \<Rightarrow> string \<Rightarrow> guard_state" where
  "hold s now = s \<lparr> gs_current_mode := ManualHold, gs_manual_hold := True, gs_last_transition_at := now \<rparr>"

definition resume :: "guard_state \<Rightarrow> string \<Rightarrow> guard_state" where
  "resume s now = s \<lparr> gs_current_mode := Watch, gs_manual_hold := False, gs_breach_windows := 0,
                      gs_stable_windows := 0, gs_last_transition_at := now \<rparr>"

text \<open>A history of the control loop: assessed windows and operator commands.\<close>

datatype guard_event = Window transition_input | Hold string | Resume string

primrec guard_step :: "guard_state \<Rightarrow> guard_event \<Rightarrow> guard_state" where
  "guard_step s (Window input) = transition s input"
| "guard_step s (Hold now) = hold s now"
| "guard_step s (Resume now) = resume s now"

section \<open>Reading one transition\<close>

lemma unat_saturating_add_1_u8: "unat (saturating_add b 1 :: u8) = min 255 (unat b + 1)"
  by (simp add: unat_saturating_add)

lemmas window_arith = word_le_nat_alt unat_saturating_add_1_u8

lemmas transition_simps = transition_def count_window_def next_mode_def Let_def

lemma breach_transition:
  "\<not> gs_manual_hold s \<Longrightarrow> gs_breach_windows (transition s i)
     = (if risky i then saturating_add (gs_breach_windows s) 1 else 0)"
  by (simp add: transition_def count_window_def Let_def)

lemma stable_transition:
  "\<not> gs_manual_hold s \<Longrightarrow> gs_stable_windows (transition s i)
     = (if risky i then 0 else saturating_add (gs_stable_windows s) 1)"
  by (simp add: transition_def count_window_def Let_def)

lemma manual_hold_transition [simp]: "gs_manual_hold (transition s i) = gs_manual_hold s"
  by (simp add: transition_def count_window_def Let_def)

lemma schema_transition [simp]: "gs_schema_version (transition s i) = gs_schema_version s"
  by (simp add: transition_def count_window_def Let_def)

lemma mode_transition:
  "\<not> gs_manual_hold s \<Longrightarrow> gs_current_mode (transition s i) = next_mode (count_window s i) i"
  by (simp add: transition_def Let_def)

lemma mode_count_window [simp]: "gs_current_mode (count_window s i) = gs_current_mode s"
  by (simp add: count_window_def)

lemma breach_count_window:
  "unat (gs_breach_windows (count_window s i)) = (if risky i then min 255 (unat (gs_breach_windows s) + 1) else 0)"
  by (simp add: count_window_def unat_saturating_add_1_u8)

lemma stable_count_window:
  "unat (gs_stable_windows (count_window s i)) = (if risky i then 0 else min 255 (unat (gs_stable_windows s) + 1))"
  by (simp add: count_window_def unat_saturating_add_1_u8)

lemmas mode_transition_nat = mode_transition next_mode_def word_le_nat_alt
  breach_count_window stable_count_window

section \<open>The documented mode diagram\<close>

text \<open>
  The edges the product documentation draws between modes, labelled by whether the window is
  risky; a mode may always be kept.
\<close>

inductive mode_edge :: "guard_mode \<Rightarrow> bool \<Rightarrow> guard_mode \<Rightarrow> bool" where
  keep: "mode_edge m r m"
| suspect: "mode_edge Normal True Watch"
| protect: "mode_edge Watch True LocalGuard"
| escalate: "mode_edge LocalGuard True EmergencyProxy"
| settle: "mode_edge EmergencyProxy False RecoveryReady"
| relapse: "mode_edge RecoveryReady True EmergencyProxy"
| recover: "mode_edge LocalGuard False Recovering"
| clear: "mode_edge Watch False Normal"
| finish: "mode_edge Recovering False Normal"

code_pred mode_edge .

inductive_simps mode_edge_simps: "mode_edge m r m'"

lemma next_mode_edge: "mode_edge (gs_current_mode s) (risky i) (next_mode (count_window s i) i)"
  unfolding mode_edge_simps next_mode_def Let_def word_le_nat_alt breach_count_window stable_count_window
  by (cases "gs_current_mode s"; cases "risky i") auto


section \<open>The stored-state invariant\<close>

definition state_contract :: "guard_state \<Rightarrow> bool" where
  "state_contract s \<longleftrightarrow> gs_schema_version s = 1 \<and> gs_manual_hold s = (gs_current_mode s = ManualHold)"

interpretation state_check: validated validate_state state_contract
  by unfold_locales (simp add: validate_state_def state_contract_def)

lemma transition_not_held: "gs_current_mode s \<noteq> ManualHold \<Longrightarrow> next_mode (count_window s i) i \<noteq> ManualHold"
  by (simp add: next_mode_def Let_def)

lemma transition_contract:
  assumes "state_contract s"
  shows "state_contract (transition s i)"
proof (cases "gs_manual_hold s")
  case True
  with assms show ?thesis by (simp add: transition_def)
next
  case False
  with assms transition_not_held show ?thesis
    by (simp add: state_contract_def mode_transition)
qed

interpretation guard_machine: invariant_machine guard_step state_contract
proof
  fix s :: guard_state and e
  assume "state_contract s"
  then show "state_contract (guard_step s e)"
    by (cases e) (simp_all add: transition_contract hold_def resume_def, simp_all add: state_contract_def)
qed

text \<open>
  Whatever windows and operator commands follow the initial state, the state the daemon
  persists passes \<open>validate\<close> when it is loaded again.
\<close>

theorem reachable_state_validates: "validate_state (run guard_step (normal now) es) = Inr ()"
proof -
  have "state_contract (normal now)" by (simp add: state_contract_def normal_def)
  then show ?thesis using state_check.validate_iff guard_machine.invar_run by blast
qed

section \<open>When the machine may escalate\<close>

definition risky_window :: "guard_event \<Rightarrow> bool" where
  "risky_window e = (case e of Window i \<Rightarrow> risky i | _ \<Rightarrow> False)"

definition distributed_window :: "guard_event \<Rightarrow> bool" where
  "distributed_window e = (case e of Window i \<Rightarrow> ti_distributed_pressure i | _ \<Rightarrow> False)"

text \<open>Five risky windows in a row, the last of them under distributed pressure.\<close>

definition sustained_attack :: "guard_event list \<Rightarrow> bool" where
  "sustained_attack ws \<longleftrightarrow> length ws = 5 \<and> list_all risky_window ws \<and> distributed_window (last ws)"

definition escalation_history :: "guard_state \<Rightarrow> guard_event list \<Rightarrow> bool" where
  "escalation_history s es \<longleftrightarrow>
     (gs_manual_hold s = (gs_current_mode s = ManualHold))
     \<and> (\<not> gs_manual_hold s \<longrightarrow>
          (\<exists>ws. suffix ws es \<and> list_all risky_window ws \<and> unat (gs_breach_windows s) \<le> length ws))
     \<and> (gs_current_mode s \<in> {EmergencyProxy, RecoveryReady} \<longrightarrow> (\<exists>ws. sublist ws es \<and> sustained_attack ws))"

lemma sustained_attack_suffix:
  assumes "suffix ws es" and "list_all risky_window ws" and "5 \<le> length ws" and "distributed_window (last ws)"
  shows "\<exists>ws'. sublist ws' es \<and> sustained_attack ws'"
proof (intro exI conjI)
  let ?ws = "drop (length ws - 5) ws"
  have "suffix ?ws es" using assms(1) suffix_drop suffix_order.order_trans by blast
  then show "sublist ?ws es" by (rule suffix_imp_sublist)
  have "list_all risky_window ?ws" using assms(2) by (auto simp: list_all_iff dest: in_set_dropD)
  then show "sustained_attack ?ws" using assms by (simp add: sustained_attack_def)
qed

lemma escalation_history_window:
  assumes inv: "escalation_history s es" and free: "\<not> gs_manual_hold s"
  shows "escalation_history (transition s i) (es @ [Window i])"
proof -
  obtain ws where ws: "suffix ws es" "list_all risky_window ws" "unat (gs_breach_windows s) \<le> length ws"
    using inv free by (auto simp: escalation_history_def)
  have held: "gs_current_mode (transition s i) \<noteq> ManualHold"
    using inv free transition_not_held [of s i] by (simp add: escalation_history_def mode_transition)
  let ?ws = "if risky i then ws @ [Window i] else []"
  have ws': "suffix ?ws (es @ [Window i])" "list_all risky_window ?ws"
    "unat (gs_breach_windows (transition s i)) \<le> length ?ws"
    using ws free by (auto simp: breach_transition unat_saturating_add_1_u8 risky_window_def suffix_def)
  have "\<exists>ws. sublist ws (es @ [Window i]) \<and> sustained_attack ws"
    if "gs_current_mode (transition s i) \<in> {EmergencyProxy, RecoveryReady}"
  proof (cases "gs_current_mode s \<in> {EmergencyProxy, RecoveryReady}")
    case True
    then obtain w where "sublist w es" "sustained_attack w" using inv by (auto simp: escalation_history_def)
    then show ?thesis by (meson sublist_appendI sublist_def sublist_order.order_trans prefixI prefix_imp_sublist)
  next
    case False
    with that free have esc: "5 \<le> unat (gs_breach_windows (transition s i))" "ti_distributed_pressure i" "risky i"
      by (auto simp: mode_transition next_mode_def Let_def word_le_nat_alt breach_count_window
          stable_count_window breach_transition unat_saturating_add_1_u8 split: if_splits)
    then show ?thesis
      using sustained_attack_suffix [OF ws'(1,2)] ws'(3) by (simp add: distributed_window_def)
  qed
  with held ws' free show ?thesis unfolding escalation_history_def by auto
qed

lemma escalation_history_step:
  assumes "escalation_history s es"
  shows "escalation_history (guard_step s e) (es @ [e])"
proof (cases e)
  case (Window i)
  show ?thesis
  proof (cases "gs_manual_hold s")
    case True
    with assms Window show ?thesis by (auto simp: transition_def escalation_history_def)
  next
    case False
    with assms Window show ?thesis by (simp add: escalation_history_window)
  qed
next
  case (Hold now)
  then show ?thesis by (simp add: hold_def escalation_history_def)
next
  case (Resume now)
  have "suffix [] (es @ [e])" by simp
  with Resume show ?thesis by (auto simp: resume_def escalation_history_def intro!: exI [of _ "[]"])
qed

lemma escalation_history_run: "escalation_history (run guard_step (normal now) es) es"
proof (induction es rule: rev_induct)
  case Nil
  show ?case by (simp add: normal_def escalation_history_def)
next
  case (snoc e es)
  then show ?case by (simp add: run_snoc escalation_history_step)
qed


section \<open>When the machine must escalate\<close>

lemma all_risky_breach:
  assumes "\<not> gs_manual_hold s" and "list_all risky is"
  shows "\<not> gs_manual_hold (run transition s is)
         \<and> min 255 (length is) \<le> unat (gs_breach_windows (run transition s is))"
  using assms(2)
proof (induction "is" rule: rev_induct)
  case Nil
  with assms show ?case by simp
next
  case (snoc i xs)
  then show ?case by (auto simp: run_snoc breach_transition unat_saturating_add_1_u8)
qed

definition escalating :: "guard_mode \<Rightarrow> bool" where
  "escalating m \<longleftrightarrow> m \<in> {Normal, Watch, LocalGuard, EmergencyProxy}"

lemma risky_mode_progress:
  assumes "\<not> gs_manual_hold s" and "risky i"
    and "escalating (gs_current_mode s)"
  shows "escalating (gs_current_mode (transition s i))"
    and "gs_current_mode (transition s i) \<noteq> Normal"
    and "2 \<le> unat (gs_breach_windows s) \<Longrightarrow> gs_current_mode s \<noteq> Normal
         \<Longrightarrow> gs_current_mode (transition s i) \<in> {LocalGuard, EmergencyProxy}"
    and "4 \<le> unat (gs_breach_windows s) \<Longrightarrow> gs_current_mode s \<in> {LocalGuard, EmergencyProxy}
         \<Longrightarrow> ti_distributed_pressure i \<Longrightarrow> gs_current_mode (transition s i) = EmergencyProxy"
  using assms by (auto simp: escalating_def mode_transition next_mode_def Let_def word_le_nat_alt
      breach_count_window stable_count_window split: if_splits)

lemma sustained_modes:
  assumes "\<not> gs_manual_hold s" and "escalating (gs_current_mode s)"
    and "list_all risky is"
  shows "escalating (gs_current_mode (run transition s is))
    \<and> (1 \<le> length is \<longrightarrow> gs_current_mode (run transition s is) \<noteq> Normal)
    \<and> (3 \<le> length is \<longrightarrow> gs_current_mode (run transition s is) \<in> {LocalGuard, EmergencyProxy})"
  using assms(3)
proof (induction "is" rule: rev_induct)
  case Nil
  with assms show ?case by simp
next
  case (snoc i xs)
  have "\<not> gs_manual_hold (run transition s xs)" and "min 255 (length xs) \<le> unat (gs_breach_windows (run transition s xs))"
    using all_risky_breach [OF assms(1), of xs] snoc.prems by auto
  then show ?case
    using snoc risky_mode_progress [of "run transition s xs" i]
    by (auto simp: run_snoc)
qed


section \<open>External protection is only released by the operator\<close>

definition externally_protected :: "guard_state \<Rightarrow> bool" where
  "externally_protected s \<longleftrightarrow> \<not> gs_manual_hold s \<and> gs_current_mode s \<in> {EmergencyProxy, RecoveryReady}"

interpretation external_machine: invariant_machine transition externally_protected
proof
  fix s i
  assume "externally_protected s"
  then show "externally_protected (transition s i)"
    by (auto simp: externally_protected_def mode_transition next_mode_def Let_def)
qed

text \<open>
  External protection is never released automatically: from \<open>EmergencyProxy\<close> or
  \<open>RecoveryReady\<close>, every sequence of windows, however calm, stays in these two modes.
\<close>

theorem external_protection_kept:
  assumes "externally_protected s"
  shows "gs_current_mode (run transition s is) \<in> {EmergencyProxy, RecoveryReady}"
  using external_machine.invar_run [OF assms] by (simp add: externally_protected_def)

section \<open>Recovery\<close>

lemma recovering_risky:
  assumes "\<not> gs_manual_hold s" and "gs_current_mode s = Recovering" and "list_all risky is"
  shows "\<not> gs_manual_hold (run transition s is) \<and> gs_current_mode (run transition s is) = Recovering"
  using assms(3)
proof (induction "is" rule: rev_induct)
  case Nil
  with assms show ?case by simp
next
  case (snoc i xs)
  then show ?case
    by (auto simp: run_snoc mode_transition next_mode_def Let_def word_le_nat_alt stable_count_window)
qed

text \<open>
  A recurrence during recovery is not answered: in \<open>Recovering\<close> no number of risky windows,
  distributed or not, leaves the mode. The protection is not raised again until five calm
  windows have led back to \<open>Normal\<close>.
\<close>

theorem recovering_ignores_recurrence:
  assumes "\<not> gs_manual_hold s" and "gs_current_mode s = Recovering" and "list_all risky is"
  shows "gs_current_mode (run transition s is) = Recovering"
  using recovering_risky [OF assms] by simp

section \<open>Witnesses\<close>

definition calm_assessment :: assessment where
  "calm_assessment = assess \<lparr> di_trust = 80, di_automation = 10, di_route_cost = 5, di_upstream_pressure = 0,
     di_host_pressure = available 10, di_session_continuity = True, di_crawler_verified = False \<rparr>"

definition attack_assessment :: assessment where
  "attack_assessment = assess \<lparr> di_trust = 0, di_automation = 95, di_route_cost = 70, di_upstream_pressure = 90,
     di_host_pressure = available 90, di_session_continuity = False, di_crawler_verified = False \<rparr>"

definition attack_window :: transition_input where
  "attack_window = \<lparr> ti_assessment = attack_assessment, ti_distributed_pressure = True,
     ti_provider_verified = False, ti_occurred_at = ''t'' \<rparr>"

definition calm_window :: transition_input where
  "calm_window = \<lparr> ti_assessment = calm_assessment, ti_distributed_pressure = False,
     ti_provider_verified = True, ti_occurred_at = ''t'' \<rparr>"




theorem external_protection_kept_witness:
  "externally_protected ((normal ''t'') \<lparr> gs_current_mode := EmergencyProxy \<rparr>)
   \<and> gs_current_mode (run transition ((normal ''t'') \<lparr> gs_current_mode := EmergencyProxy \<rparr>) (replicate 7 calm_window))
       \<in> {EmergencyProxy, RecoveryReady}"
proof
  show p: "externally_protected ((normal ''t'') \<lparr> gs_current_mode := EmergencyProxy \<rparr>)" by code_simp
  show "gs_current_mode (run transition ((normal ''t'') \<lparr> gs_current_mode := EmergencyProxy \<rparr>) (replicate 7 calm_window))
       \<in> {EmergencyProxy, RecoveryReady}"
    using p by (rule external_protection_kept)
qed

theorem recovering_ignores_recurrence_witness:
  "gs_current_mode (run transition ((normal ''t'') \<lparr> gs_current_mode := Recovering \<rparr>) (replicate 20 attack_window))
   = Recovering"
proof (rule recovering_ignores_recurrence)
  show "list_all risky (replicate 20 attack_window)" by code_simp
  show "\<not> gs_manual_hold ((normal ''t'') \<lparr> gs_current_mode := Recovering \<rparr>)" by code_simp
qed simp

end
