(* ===== verification/Policy.thy ===== *)
theory Policy
  imports Guard_State Net_Addr
begin

text \<open>
  The versioned policy snapshot of \<open>guard-core/src/policy.rs\<close>: protection settings per mode, the
  snapshot with its digest and expiry. The JSON serialiser, SHA-256 and the RFC 3339 parser are
  library code and are parameters: \<open>to_json\<close>, \<open>sha256_hex\<close> and \<open>parse_rfc3339\<close>, whose result is
  a point of time in nanoseconds.
\<close>

section \<open>Data\<close>

definition MAX_PROTECTION_REQUESTS_PER_MINUTE :: u32 where
  "MAX_PROTECTION_REQUESTS_PER_MINUTE = 6000"

record route_rule =
  rr_route_class :: string
  rr_requests_per_minute :: u32

record client_rule =
  cr_client_ip :: ip_addr
  cr_action :: decision
  cr_expires_at :: string
  cr_reason_codes :: "reason_code list"

record static_limits =
  sl_max_body_bytes :: u64
  sl_max_tracked_clients :: nat

record protection_settings =
  ps_watch_strict :: u32
  ps_local_strict :: u32
  ps_local_upload :: u32
  ps_emergency_strict :: u32
  ps_emergency_upload :: u32

definition default_settings :: protection_settings where
  "default_settings = \<lparr> ps_watch_strict = 120, ps_local_strict = 30, ps_local_upload = 15,
     ps_emergency_strict = 10, ps_emergency_upload = 5 \<rparr>"

datatype settings_error = OutOfRange string | StageOrder string

record policy_snapshot =
  pol_schema_version :: u32
  pol_policy_version :: u64
  pol_generated_at :: string
  pol_expires_at :: string
  pol_mode :: guard_mode
  pol_route_rules :: "route_rule list"
  pol_client_rules :: "client_rule list"
  pol_static_limits :: static_limits
  pol_content_sha256 :: string

datatype policy_error =
  PolicyUnsupportedSchema u32 | PolicySerialize string | HashMismatch | InvalidTime string
  | Expired | ZeroLimit string | PolicySettings settings_error

section \<open>Protection settings\<close>

definition check_range :: "string \<times> u32 \<Rightarrow> settings_error + unit" where
  "check_range nv = (if 1 \<le> snd nv \<and> snd nv \<le> MAX_PROTECTION_REQUESTS_PER_MINUTE
                     then Inr () else Inl (OutOfRange (fst nv)))"

definition validate_settings :: "protection_settings \<Rightarrow> settings_error + unit" where
  "validate_settings s =
     and_then (all_ok check_range
       [(''watch_strict_requests_per_minute'', ps_watch_strict s),
        (''local_strict_requests_per_minute'', ps_local_strict s),
        (''local_upload_requests_per_minute'', ps_local_upload s),
        (''emergency_strict_requests_per_minute'', ps_emergency_strict s),
        (''emergency_upload_requests_per_minute'', ps_emergency_upload s)])
     (\<lambda>_. if ps_local_strict s > ps_watch_strict s
           then Inl (StageOrder ''local_strict_requests_per_minute'')
           else if ps_emergency_strict s > ps_local_strict s
           then Inl (StageOrder ''emergency_strict_requests_per_minute'')
           else if ps_local_upload s > ps_local_strict s
           then Inl (StageOrder ''local_upload_requests_per_minute'')
           else if ps_emergency_upload s > ps_local_upload s
           then Inl (StageOrder ''emergency_upload_requests_per_minute'')
           else if ps_emergency_upload s > ps_emergency_strict s
           then Inl (StageOrder ''emergency_upload_requests_per_minute'')
           else Inr ())"

definition route_rules :: "protection_settings \<Rightarrow> guard_mode \<Rightarrow> route_rule list" where
  "route_rules s mode =
     (case mode of
        Normal \<Rightarrow> [] | ManualHold \<Rightarrow> []
      | Watch \<Rightarrow> [\<lparr> rr_route_class = ''strict'', rr_requests_per_minute = ps_watch_strict s \<rparr>]
      | Recovering \<Rightarrow> [\<lparr> rr_route_class = ''strict'', rr_requests_per_minute = ps_watch_strict s \<rparr>]
      | LocalGuard \<Rightarrow> [\<lparr> rr_route_class = ''strict'', rr_requests_per_minute = ps_local_strict s \<rparr>,
                       \<lparr> rr_route_class = ''upload'', rr_requests_per_minute = ps_local_upload s \<rparr>]
      | EmergencyProxy \<Rightarrow> [\<lparr> rr_route_class = ''strict'', rr_requests_per_minute = ps_emergency_strict s \<rparr>,
                           \<lparr> rr_route_class = ''upload'', rr_requests_per_minute = ps_emergency_upload s \<rparr>]
      | RecoveryReady \<Rightarrow> [\<lparr> rr_route_class = ''strict'', rr_requests_per_minute = ps_emergency_strict s \<rparr>,
                          \<lparr> rr_route_class = ''upload'', rr_requests_per_minute = ps_emergency_upload s \<rparr>])"

section \<open>Sealed snapshots\<close>

definition calculate_hash ::
    "(policy_snapshot \<Rightarrow> string + string) \<Rightarrow> (string \<Rightarrow> string) \<Rightarrow> policy_snapshot \<Rightarrow> policy_error + string" where
  "calculate_hash to_json sha256_hex s =
     and_then (map_err PolicySerialize (to_json (s \<lparr> pol_content_sha256 := [] \<rparr>)))
       (\<lambda>bytes. Inr (sha256_hex bytes))"

definition seal ::
    "(policy_snapshot \<Rightarrow> string + string) \<Rightarrow> (string \<Rightarrow> string) \<Rightarrow> policy_snapshot \<Rightarrow> policy_error + policy_snapshot" where
  "seal to_json sha256_hex s =
     and_then (calculate_hash to_json sha256_hex s) (\<lambda>h. Inr (s \<lparr> pol_content_sha256 := h \<rparr>))"

definition validate_at ::
    "(policy_snapshot \<Rightarrow> string + string) \<Rightarrow> (string \<Rightarrow> string) \<Rightarrow> (string \<Rightarrow> int option)
     \<Rightarrow> int \<Rightarrow> policy_snapshot \<Rightarrow> policy_error + unit" where
  "validate_at to_json sha256_hex parse_rfc3339 now s =
     (if pol_schema_version s \<noteq> 1 then Inl (PolicyUnsupportedSchema (pol_schema_version s))
      else if sl_max_body_bytes (pol_static_limits s) = 0 then Inl (ZeroLimit ''max_body_bytes'')
      else if sl_max_tracked_clients (pol_static_limits s) = 0 then Inl (ZeroLimit ''max_tracked_clients'')
      else and_then (calculate_hash to_json sha256_hex s) (\<lambda>h.
        if h \<noteq> pol_content_sha256 s then Inl HashMismatch
        else and_then (ok_or (InvalidTime (pol_expires_at s)) (parse_rfc3339 (pol_expires_at s))) (\<lambda>expires.
          and_then (ok_or (InvalidTime (pol_generated_at s)) (parse_rfc3339 (pol_generated_at s))) (\<lambda>_.
            if expires \<le> now then Inl Expired else Inr ()))))"

section \<open>Settings: the contract and what it gives\<close>

definition settings_contract :: "protection_settings \<Rightarrow> bool" where
  "settings_contract s \<longleftrightarrow>
     1 \<le> ps_emergency_upload s \<and> ps_emergency_upload s \<le> ps_emergency_strict s
     \<and> ps_emergency_upload s \<le> ps_local_upload s \<and> ps_emergency_strict s \<le> ps_local_strict s
     \<and> ps_local_upload s \<le> ps_local_strict s \<and> ps_local_strict s \<le> ps_watch_strict s
     \<and> ps_watch_strict s \<le> MAX_PROTECTION_REQUESTS_PER_MINUTE"

lemma check_range_iff: "check_range nv = Inr u \<longleftrightarrow> 1 \<le> snd nv \<and> snd nv \<le> MAX_PROTECTION_REQUESTS_PER_MINUTE"
  by (simp add: check_range_def)

interpretation settings_check: validated validate_settings settings_contract
proof
  fix s :: protection_settings
  let ?v = "[ps_watch_strict s, ps_local_strict s, ps_local_upload s, ps_emergency_strict s, ps_emergency_upload s]"
  have range: "all_ok check_range
       [(''watch_strict_requests_per_minute'', ps_watch_strict s),
        (''local_strict_requests_per_minute'', ps_local_strict s),
        (''local_upload_requests_per_minute'', ps_local_upload s),
        (''emergency_strict_requests_per_minute'', ps_emergency_strict s),
        (''emergency_upload_requests_per_minute'', ps_emergency_upload s)] = Inr ()
     \<longleftrightarrow> (\<forall>v \<in> set ?v. 1 \<le> v \<and> v \<le> MAX_PROTECTION_REQUESTS_PER_MINUTE)"
    unfolding all_ok_Inr_iff check_range_iff by simp
  show "validate_settings s = Inr () \<longleftrightarrow> settings_contract s"
    unfolding validate_settings_def and_then_Inr_iff settings_contract_def
    using range by (simp add: not_less) (simp add: word_cmp_nat, linarith)
qed

primrec mode_strength :: "guard_mode \<Rightarrow> nat" where
  "mode_strength Normal = 0"
| "mode_strength ManualHold = 0"
| "mode_strength Watch = 1"
| "mode_strength Recovering = 1"
| "mode_strength LocalGuard = 2"
| "mode_strength EmergencyProxy = 3"
| "mode_strength RecoveryReady = 3"

definition mode_limit :: "protection_settings \<Rightarrow> guard_mode \<Rightarrow> string \<Rightarrow> u32 option" where
  "mode_limit s mode c = map_option rr_requests_per_minute (find (\<lambda>r. rr_route_class r = c) (route_rules s mode))"

text \<open>A limit is at least as strict as another; no limit is the least strict.\<close>

definition at_least_as_strict :: "u32 option \<Rightarrow> u32 option \<Rightarrow> bool" where
  "at_least_as_strict a b = (case b of None \<Rightarrow> True | Some y \<Rightarrow> (case a of None \<Rightarrow> False | Some x \<Rightarrow> x \<le> y))"

definition strength_limit :: "protection_settings \<Rightarrow> nat \<Rightarrow> string \<Rightarrow> u32 option" where
  "strength_limit s k c =
     (if k = 0 \<or> c \<noteq> ''strict'' \<and> (c \<noteq> ''upload'' \<or> k = 1) then None
      else Some (if k = 1 then ps_watch_strict s
                 else if k = 2 then (if c = ''strict'' then ps_local_strict s else ps_local_upload s)
                 else if c = ''strict'' then ps_emergency_strict s else ps_emergency_upload s))"

lemma mode_limit_strength: "mode_limit s m c = strength_limit s (mode_strength m) c"
  by (cases m) (auto simp: mode_limit_def route_rules_def strength_limit_def)

lemma strength_limit_mono:
  assumes "settings_contract s" and "k \<le> k'"
  shows "at_least_as_strict (strength_limit s k' c) (strength_limit s k c)"
  using assms by (auto simp: at_least_as_strict_def strength_limit_def settings_contract_def)

text \<open>
  Escalation never loosens a limit: with settings that pass \<open>validate\<close>, going to a stronger
  mode keeps or tightens the limit of every route class, and every limit that is enforced lies in
  1..=6000.
\<close>

theorem route_rules_monotone:
  assumes "validate_settings s = Inr ()" and "mode_strength m \<le> mode_strength m'"
  shows "at_least_as_strict (mode_limit s m' c) (mode_limit s m c)
         \<and> list_all (\<lambda>r. 1 \<le> rr_requests_per_minute r \<and> rr_requests_per_minute r \<le> 6000) (route_rules s m')"
proof -
  have c: "settings_contract s" using assms(1) by (simp add: settings_check.validate_iff)
  have "at_least_as_strict (mode_limit s m' c) (mode_limit s m c)"
    using strength_limit_mono [OF c assms(2)] by (simp add: mode_limit_strength)
  moreover have "list_all (\<lambda>r. 1 \<le> rr_requests_per_minute r \<and> rr_requests_per_minute r \<le> 6000) (route_rules s m')"
    using c by (cases m') (auto simp: route_rules_def settings_contract_def MAX_PROTECTION_REQUESTS_PER_MINUTE_def)
  ultimately show ?thesis by simp
qed

theorem route_rules_monotone_witness:
  "validate_settings default_settings = Inr () \<and> mode_strength Watch \<le> mode_strength LocalGuard
   \<and> at_least_as_strict (mode_limit default_settings LocalGuard ''strict'') (mode_limit default_settings Watch ''strict'')"
proof -
  have "validate_settings default_settings = Inr ()"
    by (simp add: settings_check.validate_iff settings_contract_def default_settings_def MAX_PROTECTION_REQUESTS_PER_MINUTE_def)
  moreover have "mode_strength Watch \<le> mode_strength LocalGuard" by simp
  ultimately show ?thesis using route_rules_monotone by blast
qed

section \<open>Snapshots: sealing and validation\<close>

interpretation policy_seal: sealed_record "calculate_hash to_json sha256_hex" pol_content_sha256
    "\<lambda>s h. s \<lparr> pol_content_sha256 := h \<rparr>" for to_json sha256_hex
  by unfold_locales (simp_all add: calculate_hash_def)

definition policy_contract ::
    "(policy_snapshot \<Rightarrow> string + string) \<Rightarrow> (string \<Rightarrow> string) \<Rightarrow> (string \<Rightarrow> int option)
     \<Rightarrow> int \<Rightarrow> policy_snapshot \<Rightarrow> bool" where
  "policy_contract to_json sha256_hex parse_rfc3339 now s \<longleftrightarrow>
     pol_schema_version s = 1 \<and> sl_max_body_bytes (pol_static_limits s) \<noteq> 0
     \<and> sl_max_tracked_clients (pol_static_limits s) \<noteq> 0
     \<and> calculate_hash to_json sha256_hex s = Inr (pol_content_sha256 s)
     \<and> parse_rfc3339 (pol_generated_at s) \<noteq> None
     \<and> (case parse_rfc3339 (pol_expires_at s) of None \<Rightarrow> False | Some expires \<Rightarrow> now < expires)"

interpretation policy_check: validated "validate_at to_json sha256_hex parse_rfc3339 now"
    "policy_contract to_json sha256_hex parse_rfc3339 now" for to_json sha256_hex parse_rfc3339 now
proof
  fix s :: policy_snapshot
  show "validate_at to_json sha256_hex parse_rfc3339 now s = Inr ()
      \<longleftrightarrow> policy_contract to_json sha256_hex parse_rfc3339 now s"
    by (cases "parse_rfc3339 (pol_expires_at s)"; cases "parse_rfc3339 (pol_generated_at s)";
        cases "calculate_hash to_json sha256_hex s")
      (auto simp: validate_at_def policy_contract_def)
qed

text \<open>
  Sealing gives an acceptable snapshot: sealing a snapshot of the current schema with non-zero
  limits, readable times and an expiry in the future succeeds whenever it can be serialised, and
  the result passes \<open>validate_at\<close>.
\<close>

theorem seal_then_validate:
  assumes "pol_schema_version s = 1" and "sl_max_body_bytes (pol_static_limits s) \<noteq> 0"
    and "sl_max_tracked_clients (pol_static_limits s) \<noteq> 0" and "parse_rfc3339 (pol_generated_at s) \<noteq> None"
    and "parse_rfc3339 (pol_expires_at s) = Some expires" and "now < expires"
    and "to_json (s \<lparr> pol_content_sha256 := [] \<rparr>) = Inr bytes"
  shows "\<exists>s'. seal to_json sha256_hex s = Inr s' \<and> validate_at to_json sha256_hex parse_rfc3339 now s' = Inr ()
              \<and> s' = s \<lparr> pol_content_sha256 := sha256_hex bytes \<rparr>"
proof -
  have sealed: "seal to_json sha256_hex s = Inr (s \<lparr> pol_content_sha256 := sha256_hex bytes \<rparr>)"
    using assms(7) by (simp add: seal_def calculate_hash_def)
  have "calculate_hash to_json sha256_hex (s \<lparr> pol_content_sha256 := sha256_hex bytes \<rparr>) = Inr (sha256_hex bytes)"
    using policy_seal.seal_verifies [OF sealed [unfolded seal_def]] by simp
  with assms have "policy_contract to_json sha256_hex parse_rfc3339 now (s \<lparr> pol_content_sha256 := sha256_hex bytes \<rparr>)"
    by (simp add: policy_contract_def)
  with sealed show ?thesis by (simp add: policy_check.validate_iff)
qed

text \<open>
  Tampering needs a hash collision: if two snapshots with the same stored digest both pass
  validation, at whatever times, and serialisation is injective, then they are the same
  snapshot, or two different texts with the same SHA-256 exist.
\<close>

theorem tampering_needs_collision:
  assumes "validate_at to_json sha256_hex parse_rfc3339 now s = Inr ()"
    and "validate_at to_json sha256_hex parse_rfc3339 now' t = Inr ()"
    and "pol_content_sha256 s = pol_content_sha256 t"
    and injective: "\<And>x y bytes. to_json x = Inr bytes \<Longrightarrow> to_json y = Inr bytes \<Longrightarrow> x = y"
  shows "s = t \<or> (\<exists>x y. x \<noteq> y \<and> sha256_hex x = sha256_hex y)"
proof -
  have "calculate_hash to_json sha256_hex s = Inr (pol_content_sha256 s)"
    and "calculate_hash to_json sha256_hex t = Inr (pol_content_sha256 t)"
    using assms(1,2) by (auto simp: policy_check.validate_iff policy_contract_def)
  then obtain x y where xy: "to_json (s \<lparr> pol_content_sha256 := [] \<rparr>) = Inr x" "sha256_hex x = pol_content_sha256 s"
    "to_json (t \<lparr> pol_content_sha256 := [] \<rparr>) = Inr y" "sha256_hex y = pol_content_sha256 t"
    by (auto simp: calculate_hash_def outcome_simps)
  show ?thesis
  proof (cases "x = y")
    case True
    with xy injective have "s \<lparr> pol_content_sha256 := [] \<rparr> = t \<lparr> pol_content_sha256 := [] \<rparr>" by blast
    with assms(3) have "s = t" by (cases s, cases t) simp
    then show ?thesis ..
  next
    case False
    with xy assms(3) show ?thesis by metis
  qed
qed

section \<open>Witnesses\<close>

definition sample_snapshot :: "u64 \<Rightarrow> policy_snapshot" where
  "sample_snapshot v =
     \<lparr> pol_schema_version = 1, pol_policy_version = v, pol_generated_at = ''1'', pol_expires_at = ''500'',
       pol_mode = Watch, pol_route_rules = route_rules default_settings Watch,
       pol_client_rules = [\<lparr> cr_client_ip = V4 7, cr_action = Deny, cr_expires_at = ''300'', cr_reason_codes = [] \<rparr>],
       pol_static_limits = \<lparr> sl_max_body_bytes = 1, sl_max_tracked_clients = 1 \<rparr>, pol_content_sha256 = [] \<rparr>"

text \<open>A serialiser that knows the sample snapshots of versions 1 and 2, and a clock text format.\<close>

definition sample_json :: "policy_snapshot \<Rightarrow> string + string" where
  "sample_json s = (if s = sample_snapshot 1 then Inr ''one'' else if s = sample_snapshot 2 then Inr ''two''
                    else Inl ''unsupported'')"

definition sample_time :: "string \<Rightarrow> int option" where
  "sample_time s = map_option int (parse_unsigned 32 s)"

lemma sample_times: "sample_time ''1'' = Some 1" "sample_time ''500'' = Some 500" "sample_time ''300'' = Some 300"
  by code_simp+

theorem seal_then_validate_witness:
  "\<exists>s'. seal sample_json id (sample_snapshot 1) = Inr s' \<and> validate_at sample_json id sample_time 100 s' = Inr ()
        \<and> s' = (sample_snapshot 1) \<lparr> pol_content_sha256 := id ''one'' \<rparr>"
proof (rule seal_then_validate)
  show "sample_time (pol_expires_at (sample_snapshot 1)) = Some 500"
    by (simp add: sample_snapshot_def sample_times)
  show "sample_time (pol_generated_at (sample_snapshot 1)) \<noteq> None"
    by (simp add: sample_snapshot_def sample_times)
  show "sample_json ((sample_snapshot 1) \<lparr> pol_content_sha256 := [] \<rparr>) = Inr ''one''"
    by (simp add: sample_json_def sample_snapshot_def)
qed (simp_all add: sample_snapshot_def)

theorem tampering_needs_collision_witness:
  "sample_snapshot 1 \<noteq> sample_snapshot 2
   \<and> (\<exists>x y. x \<noteq> y \<and> (\<lambda>_ :: string. ''h'') x = (\<lambda>_ :: string. ''h'') y)"
proof -
  let ?s = "(sample_snapshot 1) \<lparr> pol_content_sha256 := ''h'' \<rparr>" and ?t = "(sample_snapshot 2) \<lparr> pol_content_sha256 := ''h'' \<rparr>"
  have different: "sample_snapshot 1 \<noteq> sample_snapshot 2" by (simp add: sample_snapshot_def)
  have "validate_at sample_json (\<lambda>_. ''h'') sample_time 100 ?s = Inr ()"
    and "validate_at sample_json (\<lambda>_. ''h'') sample_time 100 ?t = Inr ()"
    by (simp_all add: validate_at_def calculate_hash_def sample_json_def sample_snapshot_def sample_times)
  moreover have "x = y" if "sample_json x = Inr bytes" "sample_json y = Inr bytes" for x y bytes
    using that by (auto simp: sample_json_def split: if_splits)
  ultimately have "?s = ?t \<or> (\<exists>x y. x \<noteq> y \<and> (\<lambda>_ :: string. ''h'') x = (\<lambda>_ :: string. ''h'') y)"
    by (intro tampering_needs_collision) simp_all
  moreover have "?s \<noteq> ?t" by (simp add: sample_snapshot_def)
  ultimately show ?thesis using different by blast
qed

end
