(* ===== verification/Policy_Runtime.thy ===== *)
theory Policy_Runtime
  imports Policy
begin

text \<open>
  The edge's policy runtime of \<open>guard-edge/src/policy_runtime.rs\<close>: reloading the policy file and
  deciding on a request. What the file system returns for the policy path is an argument of a
  reload, and so are the JSON parser and the parameters of \<^theory_text>\<open>Policy\<close>. The theorems show
  that the last good policy survives every failed reload, versions never go back, and no rule
  outlives its expiry.
\<close>

section \<open>Data\<close>

datatype file_read = FileContents string | FileNotFound | FileFailure string

datatype reload_error = ReloadRead string | ReloadJson string | ReloadPolicy policy_error

record runtime_decision =
  rd_action :: "decision option"
  rd_requests_per_minute :: "u32 option"
  rd_policy_version :: u64

record policy_runtime =
  prt_path :: string
  prt_current :: "policy_snapshot option"
  prt_version :: u64

text \<open>The library functions the runtime calls.\<close>

record policy_library =
  lib_from_json :: "string \<Rightarrow> string + policy_snapshot"
  lib_to_json :: "policy_snapshot \<Rightarrow> string + string"
  lib_sha256_hex :: "string \<Rightarrow> string"
  lib_parse_rfc3339 :: "string \<Rightarrow> int option"

section \<open>Operations\<close>

definition new_runtime :: "string \<Rightarrow> policy_runtime" where
  "new_runtime path = \<lparr> prt_path = path, prt_current = None, prt_version = 0 \<rparr>"

abbreviation lib_validate_at :: "policy_library \<Rightarrow> int \<Rightarrow> policy_snapshot \<Rightarrow> policy_error + unit" where
  "lib_validate_at lib now p \<equiv>
     validate_at (lib_to_json lib) (lib_sha256_hex lib) (lib_parse_rfc3339 lib) now p"

definition reload_at ::
    "policy_library \<Rightarrow> policy_runtime \<Rightarrow> file_read \<Rightarrow> int \<Rightarrow> policy_runtime \<times> (reload_error + bool)" where
  "reload_at lib rt file now =
     (case file of
        FileNotFound \<Rightarrow> (rt, Inr False)
      | FileFailure e \<Rightarrow> (rt, Inl (ReloadRead e))
      | FileContents source \<Rightarrow>
          (case lib_from_json lib source of
             Inl e \<Rightarrow> (rt, Inl (ReloadJson e))
           | Inr policy \<Rightarrow>
               (case lib_validate_at lib now policy of
                  Inl e \<Rightarrow> (rt, Inl (ReloadPolicy e))
                | Inr _ \<Rightarrow>
                    if pol_policy_version policy \<le> prt_version rt then (rt, Inr False)
                    else (rt \<lparr> prt_current := Some policy, prt_version := pol_policy_version policy \<rparr>, Inr True))))"

definition inactive_decision :: "u64 \<Rightarrow> runtime_decision" where
  "inactive_decision v = \<lparr> rd_action = None, rd_requests_per_minute = None, rd_policy_version = v \<rparr>"

definition rule_action :: "policy_library \<Rightarrow> ip_addr \<Rightarrow> int \<Rightarrow> client_rule \<Rightarrow> decision option" where
  "rule_action lib ip now rule =
     (if cr_client_ip rule \<noteq> ip then None
      else case lib_parse_rfc3339 lib (cr_expires_at rule) of
             None \<Rightarrow> None
           | Some expires \<Rightarrow> if expires > now then Some (cr_action rule) else None)"

fun find_map :: "('a \<Rightarrow> 'b option) \<Rightarrow> 'a list \<Rightarrow> 'b option" where
  "find_map f [] = None"
| "find_map f (x # xs) = (case f x of Some y \<Rightarrow> Some y | None \<Rightarrow> find_map f xs)"

definition route_limit :: "string \<Rightarrow> route_rule list \<Rightarrow> u32 option" where
  "route_limit route_class rules =
     (case find (\<lambda>rule. rr_route_class rule = route_class) rules of
        None \<Rightarrow> None
      | Some rule \<Rightarrow> if rr_requests_per_minute rule > 0 then Some (rr_requests_per_minute rule) else None)"

definition decision_at ::
    "policy_library \<Rightarrow> policy_runtime \<Rightarrow> ip_addr option \<Rightarrow> string \<Rightarrow> int \<Rightarrow> runtime_decision" where
  "decision_at lib rt client_ip route_class now =
     (case prt_current rt of
        None \<Rightarrow> inactive_decision 0
      | Some policy \<Rightarrow>
          (case lib_parse_rfc3339 lib (pol_expires_at policy) of
             None \<Rightarrow> inactive_decision (pol_policy_version policy)
           | Some expires \<Rightarrow>
               if expires \<le> now then inactive_decision (pol_policy_version policy)
               else \<lparr> rd_action = (case client_ip of
                                     None \<Rightarrow> None
                                   | Some ip \<Rightarrow> find_map (rule_action lib ip now) (pol_client_rules policy)),
                      rd_requests_per_minute = route_limit route_class (pol_route_rules policy),
                      rd_policy_version = pol_policy_version policy \<rparr>))"

text \<open>The reload thread: one attempt per event, with what the file system answered and when.\<close>

definition reload_step :: "policy_library \<Rightarrow> policy_runtime \<Rightarrow> file_read \<times> int \<Rightarrow> policy_runtime" where
  "reload_step lib rt e = fst (reload_at lib rt (fst e) (snd e))"

section \<open>The last good policy\<close>

lemma reload_at_cases:
  "fst (reload_at lib rt file now) = rt \<and> snd (reload_at lib rt file now) \<noteq> Inr True
   \<or> (\<exists>source policy. file = FileContents source \<and> lib_from_json lib source = Inr policy
        \<and> lib_validate_at lib now policy = Inr () \<and> prt_version rt < pol_policy_version policy
        \<and> fst (reload_at lib rt file now)
            = rt \<lparr> prt_current := Some policy, prt_version := pol_policy_version policy \<rparr>
        \<and> snd (reload_at lib rt file now) = Inr True)"
  unfolding reload_at_def by (auto split: file_read.splits sum.splits simp: not_le)

text \<open>
  The runtime's version is that of the snapshot it holds, and that snapshot passed validation
  when it was loaded.
\<close>

definition runtime_ok :: "policy_library \<Rightarrow> policy_runtime \<Rightarrow> bool" where
  "runtime_ok lib rt \<longleftrightarrow>
     (case prt_current rt of
        None \<Rightarrow> prt_version rt = 0
      | Some p \<Rightarrow> prt_version rt = pol_policy_version p
                  \<and> calculate_hash (lib_to_json lib) (lib_sha256_hex lib) p = Inr (pol_content_sha256 p))"

interpretation runtime_machine: invariant_machine "reload_step lib" "runtime_ok lib" for lib
proof
  fix rt e
  assume "runtime_ok lib rt"
  then show "runtime_ok lib (reload_step lib rt e)"
    using reload_at_cases [of lib rt "fst e" "snd e"]
    by (auto simp: reload_step_def runtime_ok_def policy_check.validate_iff policy_contract_def split: option.splits)
qed

interpretation version_machine: monotone_machine "reload_step lib" prt_version for lib
proof
  fix rt e
  show "prt_version rt \<le> prt_version (reload_step lib rt e)"
    using reload_at_cases [of lib rt "fst e" "snd e"] by (auto simp: reload_step_def)
qed

text \<open>
  The last known good policy is kept: a reload that fails, or does not report a new policy,
  leaves the runtime as it was; one that reports a new policy installed exactly the snapshot in the
  file, which passed validation at that moment and has a strictly greater version.
\<close>

theorem reload_keeps_last_good:
  "let (rt', result) = reload_at lib rt file now in
     if result = Inr True
     then \<exists>source policy. file = FileContents source \<and> lib_from_json lib source = Inr policy
            \<and> lib_validate_at lib now policy = Inr () \<and> prt_version rt < prt_version rt'
            \<and> prt_current rt' = Some policy \<and> prt_version rt' = pol_policy_version policy
     else rt' = rt"
  using reload_at_cases [of lib rt "file" "now"]
  by (cases "reload_at lib rt file now") auto

text \<open>
  (C7) Policy versions never go back: along any sequence of reload attempts from start-up, with any
  file contents and clock values, the version after more attempts is at least the version after
  fewer, and it is the version of the sealed snapshot in force.
\<close>

theorem policy_version_monotone:
  "prt_version (run (reload_step lib) (new_runtime path) xs) \<le> prt_version (run (reload_step lib) (new_runtime path) (xs @ ys))
   \<and> runtime_ok lib (run (reload_step lib) (new_runtime path) xs)"
proof
  show "prt_version (run (reload_step lib) (new_runtime path) xs) \<le> prt_version (run (reload_step lib) (new_runtime path) (xs @ ys))"
    by (rule version_machine.level_prefix)
  have "runtime_ok lib (new_runtime path)" by (simp add: runtime_ok_def new_runtime_def)
  then show "runtime_ok lib (run (reload_step lib) (new_runtime path) xs)" by (rule runtime_machine.invar_run)
qed

section \<open>No rule outlives its expiry\<close>

lemma find_map_Some: "find_map f xs = Some y \<Longrightarrow> \<exists>x \<in> set xs. f x = Some y"
  by (induction xs) (auto split: option.splits)

text \<open>
  (C30) No rule outlives its expiry: whenever a decision carries an action, the policy in force has
  not expired and contains a rule for exactly this client with that action whose own expiry lies
  in the future; whenever it carries a limit, the limit is positive and is that of a rule of the
  policy for this route class. Without an unexpired policy the decision is inactive.
\<close>

theorem decision_within_expiry:
  "let d = decision_at lib rt client_ip route_class now;
       live = (\<lambda>t. \<exists>expires. lib_parse_rfc3339 lib t = Some expires \<and> now < expires) in
     (\<forall>a. rd_action d = Some a \<longrightarrow>
        (\<exists>p rule. prt_current rt = Some p \<and> live (pol_expires_at p) \<and> rule \<in> set (pol_client_rules p)
           \<and> Some (cr_client_ip rule) = client_ip \<and> cr_action rule = a \<and> live (cr_expires_at rule)))
     \<and> (\<forall>n. rd_requests_per_minute d = Some n \<longrightarrow>
        (\<exists>p rule. prt_current rt = Some p \<and> live (pol_expires_at p) \<and> rule \<in> set (pol_route_rules p)
           \<and> rr_route_class rule = route_class \<and> rr_requests_per_minute rule = n \<and> 0 < n))
     \<and> rd_policy_version d = (case prt_current rt of None \<Rightarrow> 0 | Some p \<Rightarrow> pol_policy_version p)"
proof -
  have action: "\<exists>rule \<in> set rules. cr_client_ip rule = ip \<and> cr_action rule = a
      \<and> (\<exists>expires. lib_parse_rfc3339 lib (cr_expires_at rule) = Some expires \<and> now < expires)"
    if "find_map (rule_action lib ip now) rules = Some a" for rules ip a
  proof -
    from find_map_Some [OF that] obtain rule where "rule \<in> set rules" "rule_action lib ip now rule = Some a"
      by blast
    then show ?thesis by (auto simp: rule_action_def split: if_splits option.splits)
  qed
  have limit: "\<exists>rule \<in> set rules. rr_route_class rule = route_class \<and> rr_requests_per_minute rule = n \<and> 0 < n"
    if "route_limit route_class rules = Some n" for rules n
    using that by (auto simp: route_limit_def find_Some_iff word_neq_0_conv split: option.splits if_splits)
  show ?thesis
    using action limit
    by (auto simp: Let_def decision_at_def inactive_decision_def split: option.splits if_splits) (fastforce | force)+
qed

text \<open>A runtime that holds the sample snapshot, whose only client rule denies one address until 300.\<close>

definition sample_library :: policy_library where
  "sample_library = \<lparr> lib_from_json = (\<lambda>_. Inl ''unsupported''), lib_to_json = sample_json, lib_sha256_hex = id,
     lib_parse_rfc3339 = sample_time \<rparr>"

definition sample_runtime :: policy_runtime where
  "sample_runtime = \<lparr> prt_path = [], prt_current = Some (sample_snapshot 1), prt_version = 1 \<rparr>"

theorem decision_within_expiry_witness:
  "rd_action (decision_at sample_library sample_runtime (Some (V4 7)) ''read'' 100) = Some Deny
   \<and> (\<exists>expires. sample_time (pol_expires_at (sample_snapshot 1)) = Some expires \<and> 100 < expires)"
proof
  show deny: "rd_action (decision_at sample_library sample_runtime (Some (V4 7)) ''read'' 100) = Some Deny"
    by (simp add: decision_at_def sample_library_def sample_runtime_def sample_snapshot_def sample_times rule_action_def)
  with decision_within_expiry [of sample_library sample_runtime "Some (V4 7)" "''read''" 100]
  show "\<exists>expires. sample_time (pol_expires_at (sample_snapshot 1)) = Some expires \<and> 100 < expires"
    by (auto simp: Let_def sample_library_def sample_runtime_def)
qed

end
