(* ===== verification/Profiles.thy ===== *)
theory Profiles
  imports Rust_Text
begin

text \<open>
  The application profiles of \<open>guard-profiles/src/lib.rs\<close>: route classification, base costs and
  the normalisation of a request target to a bounded route key. The theorems bound the key, show
  that it does not leak the query or unbounded segments, and that normalising twice changes
  nothing.
\<close>

section \<open>Data\<close>

datatype application_profile = Php | Gnuboard5 | Gnuboard7 | Wordpress

datatype route_kind =
  StaticRoute | PublicRoute | BoardRoute | SearchRoute | AuthenticationRoute | WriteRoute | MediaRoute
  | UploadRoute | DynamicRoute | AdminRoute | ApiRoute | RemoteProcedureRoute

record route_profile =
  rp_normalized_route :: string
  rp_kind :: route_kind
  rp_base_cost :: u8

record application_security_profile =
  asp_csp_policy :: string

definition LEGACY_CSP :: string where
  "LEGACY_CSP = ''default-src 'self' https: data: blob:; base-uri 'self'; object-src 'none'; frame-ancestors 'self'; form-action 'self'; script-src 'self' 'unsafe-inline' https:; style-src 'self' 'unsafe-inline' https:; connect-src 'self' https: ws: wss:''"

definition GNUBOARD7_CSP :: string where
  "GNUBOARD7_CSP = ''default-src 'self'; base-uri 'self'; object-src 'none'; frame-ancestors 'self'; form-action 'self'; script-src 'self'; style-src 'self' 'unsafe-inline'; img-src 'self' data: blob:; font-src 'self' data:; connect-src 'self' ws: wss:; media-src 'self' blob:''"

definition security_profile :: "application_profile \<Rightarrow> application_security_profile" where
  "security_profile profile = \<lparr> asp_csp_policy = (if profile = Gnuboard7 then GNUBOARD7_CSP else LEGACY_CSP) \<rparr>"

section \<open>Classification\<close>

definition contains_any :: "string \<Rightarrow> string list \<Rightarrow> bool" where
  "contains_any path needles = list_ex (str_contains path) needles"

definition is_static :: "string \<Rightarrow> bool" where
  "is_static path =
     (case rsplit_once (CHR ''.'') path of
        None \<Rightarrow> False
      | Some (_, extension) \<Rightarrow>
          to_ascii_lowercase extension \<in>
            {''css'', ''js'', ''jpg'', ''jpeg'', ''png'', ''gif'', ''webp'', ''svg'', ''ico'', ''woff'', ''woff2''})"

definition classify_php :: "string \<Rightarrow> route_kind" where
  "classify_php path =
     (if is_static path then StaticRoute
      else if contains_any path [''/admin'', ''admin.php''] then AdminRoute
      else if contains_any path [''login'', ''register'', ''password'', ''auth''] then AuthenticationRoute
      else if str_contains path ''search'' then SearchRoute
      else if contains_any path [''write'', ''comment'', ''create'', ''update''] then WriteRoute
      else if contains_any path [''upload'', ''attachment'', ''avatar''] then UploadRoute
      else if contains_any path [''download'', ''/file'', ''/media''] then MediaRoute
      else if ends_with path ''/xmlrpc.php'' \<or> path = ''/xmlrpc.php'' then RemoteProcedureRoute
      else if starts_with path ''/api/'' then ApiRoute
      else if ends_with (to_ascii_lowercase path) ''.php'' then DynamicRoute
      else PublicRoute)"

definition classify_gnuboard5 :: "string \<Rightarrow> route_kind" where
  "classify_gnuboard5 path =
     (if is_static path then StaticRoute
      else if path = ''/adm'' \<or> starts_with path ''/adm/'' then AdminRoute
      else if starts_with path ''/api/'' then ApiRoute
      else if str_contains path ''search.php'' then SearchRoute
      else if contains_any path [''login.php'', ''register'', ''password'', ''member_confirm''] then AuthenticationRoute
      else if contains_any path [''write'', ''comment'', ''delete'', ''move_update''] then WriteRoute
      else if contains_any path [''upload'', ''ajax.file'', ''file_form''] then UploadRoute
      else if contains_any path [''download.php'', ''/data/file/''] then MediaRoute
      else if starts_with path ''/bbs/'' then BoardRoute
      else if ends_with (to_ascii_lowercase path) ''.php'' then DynamicRoute
      else PublicRoute)"

definition classify_gnuboard7 :: "string \<Rightarrow> route_kind" where
  "classify_gnuboard7 path =
     (if is_static path then StaticRoute
      else if path = ''/admin'' \<or> starts_with path ''/admin/'' \<or> path = ''/api/admin''
              \<or> starts_with path ''/api/admin/'' \<or> path = ''/api/auth/admin''
              \<or> starts_with path ''/api/auth/admin/'' then AdminRoute
      else if path = ''/login'' \<or> path = ''/register'' \<or> starts_with path ''/forgot-password''
              \<or> starts_with path ''/reset-password'' \<or> starts_with path ''/api/auth/''
              \<or> starts_with path ''/api/user/auth/'' \<or> starts_with path ''/api/me/verify-password''
              \<or> starts_with path ''/api/me/password'' \<or> starts_with path ''/api/identity/''
              \<or> path = ''/api/broadcasting/auth'' then AuthenticationRoute
      else if path = ''/search'' \<or> starts_with path ''/api/search'' then SearchRoute
      else if contains_any path [''/avatar'', ''/upload'', ''/attachments''] then UploadRoute
      else if contains_any path [''/posts'', ''/comments'', ''/write''] then WriteRoute
      else if starts_with path ''/api/attachment/'' then MediaRoute
      else if starts_with path ''/api/'' then ApiRoute
      else if ends_with (to_ascii_lowercase path) ''.php'' then DynamicRoute
      else PublicRoute)"

definition classify_wordpress :: "string \<Rightarrow> route_kind" where
  "classify_wordpress path =
     (if is_static path \<or> starts_with path ''/wp-content/'' \<or> starts_with path ''/wp-includes/'' then StaticRoute
      else if path = ''/wp-admin'' \<or> starts_with path ''/wp-admin/'' then AdminRoute
      else if path = ''/wp-login.php'' \<or> str_contains path ''lostpassword'' then AuthenticationRoute
      else if path = ''/xmlrpc.php'' then RemoteProcedureRoute
      else if starts_with path ''/wp-json/'' \<or> ends_with path ''/feed/'' then ApiRoute
      else if str_contains path ''/search/'' then SearchRoute
      else if str_contains path ''upload'' then UploadRoute
      else PublicRoute)"

fun base_cost :: "route_kind \<Rightarrow> u8" where
  "base_cost StaticRoute = 1"
| "base_cost PublicRoute = 2"
| "base_cost BoardRoute = 4"
| "base_cost SearchRoute = 10"
| "base_cost AuthenticationRoute = 12"
| "base_cost WriteRoute = 12"
| "base_cost MediaRoute = 15"
| "base_cost UploadRoute = 15"
| "base_cost DynamicRoute = 6"
| "base_cost AdminRoute = 12"
| "base_cost ApiRoute = 8"
| "base_cost RemoteProcedureRoute = 15"

section \<open>Normalisation\<close>

definition is_uuid :: "string \<Rightarrow> bool" where
  "is_uuid segment \<longleftrightarrow>
     length segment = 36
     \<and> list_all (\<lambda>(i, c). if i \<in> {8, 13, 18, 23} then c = CHR ''-'' else is_ascii_hexdigit c)
         (enumerate 0 segment)"

definition opaque_token :: "string \<Rightarrow> bool" where
  "opaque_token segment \<longleftrightarrow>
     length segment > 64
     \<or> (length segment \<ge> 16 \<and> list_all is_ascii_hexdigit segment)
     \<or> (length segment \<ge> 32
         \<and> list_all (\<lambda>c. is_ascii_alphanumeric c \<or> c \<in> {CHR ''-'', CHR ''_'', CHR ''='', CHR ''%''}) segment)"

definition normalize_segment :: "string \<Rightarrow> string" where
  "normalize_segment segment =
     (if list_all is_ascii_digit segment \<or> is_uuid segment then '':id''
      else if contains_char segment (CHR ''@'') \<or> opaque_token segment then '':opaque''
      else segment)"

definition MAX_SEGMENTS :: nat where
  "MAX_SEGMENTS = 16"

definition MAX_ROUTE_BYTES :: nat where
  "MAX_ROUTE_BYTES = 256"

text \<open>The loop over the segments: the text built so far, and whether it was cut.\<close>

fun normalize_segments :: "nat \<Rightarrow> string \<Rightarrow> string list \<Rightarrow> string \<times> bool" where
  "normalize_segments index normalized [] = (normalized, False)"
| "normalize_segments index normalized (segment # rest) =
     (if index = MAX_SEGMENTS then (normalized, True)
      else let bounded = normalize_segment segment
           in if length normalized + 1 + length bounded > MAX_ROUTE_BYTES - length ''/:other''
              then (normalized, True)
              else normalize_segments (Suc index) (normalized @ ''/'' @ bounded) rest)"

definition path_of :: "string \<Rightarrow> string" where
  "path_of raw_target = before_first (CHR ''?'') raw_target"

definition nonempty_segments :: "string \<Rightarrow> string list" where
  "nonempty_segments path = filter (\<lambda>s. s \<noteq> []) (split_on (CHR ''/'') path)"

definition normalize_route :: "string \<Rightarrow> string" where
  "normalize_route raw_target =
     (let (normalized, truncated) = normalize_segments 0 [] (nonempty_segments (path_of raw_target));
          normalized = (if truncated then normalized @ ''/:other'' else normalized)
      in if normalized = [] then ''/'' else normalized)"

definition classify :: "application_profile \<Rightarrow> string \<Rightarrow> route_profile" where
  "classify profile raw_target =
     (let path = path_of raw_target;
          kind = (case profile of
                    Php \<Rightarrow> classify_php path
                  | Gnuboard5 \<Rightarrow> classify_gnuboard5 path
                  | Gnuboard7 \<Rightarrow> classify_gnuboard7 path
                  | Wordpress \<Rightarrow> classify_wordpress path)
      in \<lparr> rp_normalized_route = normalize_route path, rp_kind = kind, rp_base_cost = base_cost kind \<rparr>)"

section \<open>Segments\<close>

text \<open>What a segment of a route key may look like: short, no identifier, no address, no token.\<close>

definition bounded_segment :: "string \<Rightarrow> bool" where
  "bounded_segment s \<longleftrightarrow> s \<noteq> [] \<and> length s \<le> 64 \<and> CHR ''/'' \<notin> set s \<and> CHR ''?'' \<notin> set s
     \<and> \<not> list_all is_ascii_digit s \<and> \<not> is_uuid s \<and> CHR ''@'' \<notin> set s \<and> \<not> opaque_token s"

lemma marker_segments [simp]:
  "bounded_segment '':id''" "bounded_segment '':opaque''" "bounded_segment '':other''"
  by code_simp+

lemma normalize_bounded_segment: "bounded_segment s \<Longrightarrow> normalize_segment s = s"
  by (simp add: bounded_segment_def normalize_segment_def contains_char_def)

lemma bounded_normalize_segment:
  assumes "s \<noteq> []" and "CHR ''/'' \<notin> set s" and "CHR ''?'' \<notin> set s"
  shows "bounded_segment (normalize_segment s)"
proof (cases "list_all is_ascii_digit s \<or> is_uuid s \<or> CHR ''@'' \<in> set s \<or> opaque_token s")
  case True
  then show ?thesis by (auto simp: normalize_segment_def contains_char_def)
next
  case False
  then have "length s \<le> 64" by (auto simp: opaque_token_def)
  with False assms show ?thesis
    by (simp add: normalize_segment_def contains_char_def bounded_segment_def)
qed

lemma path_of_no_query: "CHR ''?'' \<notin> set (path_of t)"
  by (auto simp: path_of_def before_first_eq dest: set_takeWhileD)

lemma path_of_id: "CHR ''?'' \<notin> set t \<Longrightarrow> path_of t = t"
  unfolding path_of_def before_first_eq by (induction t) auto

lemma nonempty_segments_chars:
  assumes "s \<in> set (nonempty_segments p)"
  shows "s \<noteq> [] \<and> CHR ''/'' \<notin> set s \<and> (\<forall>c \<in> set s. c \<in> set p)"
  using assms split_by_pieces [of s "\<lambda>c. c = CHR ''/''" p] by (auto simp: nonempty_segments_def)

section \<open>The loop as a choice of segments\<close>

text \<open>The segments the loop keeps, given how many and how many bytes it has, and whether it stops early.\<close>

fun kept :: "nat \<Rightarrow> nat \<Rightarrow> string list \<Rightarrow> string list \<times> bool" where
  "kept i b [] = ([], False)"
| "kept i b (s # ss) =
     (if i = 16 \<or> b + 1 + length s > 249 then ([], True)
      else let (ts, t) = kept (Suc i) (b + 1 + length s) ss in (s # ts, t))"

definition flat :: "string list \<Rightarrow> string" where
  "flat ss = concat (map (\<lambda>s. CHR ''/'' # s) ss)"

lemma flat_simps [simp]: "flat [] = []" "flat (s # ss) = CHR ''/'' # s @ flat ss" "flat (xs @ ys) = flat xs @ flat ys"
  by (simp_all add: flat_def)

lemma normalize_segments_kept:
  "normalize_segments i n ss
   = (n @ flat (fst (kept i (length n) (map normalize_segment ss))), snd (kept i (length n) (map normalize_segment ss)))"
  by (induction i n ss rule: normalize_segments.induct)
    (auto simp: MAX_SEGMENTS_def MAX_ROUTE_BYTES_def Let_def split_beta add.commute)

lemma kept_prefix: "prefix (fst (kept i b ss)) ss"
  by (induction i b ss rule: kept.induct) (auto simp: Let_def split_beta)

lemma kept_bounds:
  "i \<le> 16 \<Longrightarrow> b \<le> 249 \<Longrightarrow> i + length (fst (kept i b ss)) \<le> 16 \<and> b + length (flat (fst (kept i b ss))) \<le> 249"
proof (induction i b ss rule: kept.induct)
  case (2 i b s ss)
  then show ?case by (cases "i = 16 \<or> b + 1 + length s > 249") (auto simp: Let_def split_beta)
qed simp

lemma kept_again:
  "kept i b (fst (kept i b ss) @ rest)
   = (fst (kept i b ss) @ fst (kept (i + length (fst (kept i b ss))) (b + length (flat (fst (kept i b ss)))) rest),
      snd (kept (i + length (fst (kept i b ss))) (b + length (flat (fst (kept i b ss)))) rest))"
proof (induction i b ss rule: kept.induct)
  case (2 i b s ss)
  then show ?case
    by (cases "i = 16 \<or> b + 1 + length s > 249") (auto simp: Let_def split_beta add.assoc add.commute add.left_commute)
qed simp

definition route_text :: "string list \<times> bool \<Rightarrow> string" where
  "route_text k = (let t = flat (fst k) @ (if snd k then ''/:other'' else []) in if t = [] then ''/'' else t)"

lemma normalize_route_kept:
  "normalize_route t = route_text (kept 0 0 (map normalize_segment (nonempty_segments (path_of t))))"
  by (simp add: normalize_route_def normalize_segments_kept route_text_def Let_def split_beta)

lemma kept_bounded_segments:
  assumes "s \<in> set (fst (kept 0 0 (map normalize_segment (nonempty_segments (path_of t)))))"
  shows "bounded_segment s"
proof -
  have "s \<in> set (map normalize_segment (nonempty_segments (path_of t)))"
    using assms kept_prefix set_mono_prefix by blast
  then obtain x where "s = normalize_segment x" "x \<in> set (nonempty_segments (path_of t))" by auto
  with nonempty_segments_chars [of x "path_of t"] path_of_no_query [of t] show ?thesis
    using bounded_normalize_segment [of x] by auto
qed

section \<open>Reading a key back\<close>

definition bounded_segments :: "string list \<Rightarrow> bool" where
  "bounded_segments ss \<longleftrightarrow> list_all bounded_segment ss"

lemma split_flat:
  assumes "bounded_segments ss"
  shows "split_on (CHR ''/'') (flat ss) = [] # ss"
  using assms
proof (induction ss rule: rev_induct)
  case (snoc s ss)
  then have "split_on (CHR ''/'') s = [s]"
    by (intro split_by_no_sep) (auto simp: bounded_segments_def bounded_segment_def)
  with snoc have "split_on (CHR ''/'') (flat ss @ CHR ''/'' # s) = ([] # ss) @ [s]"
    by (simp add: split_by_append_sep bounded_segments_def)
  then show ?case by simp
qed simp

lemma flat_no_query: "bounded_segments ss \<Longrightarrow> CHR ''?'' \<notin> set (flat ss)"
  by (induction ss) (auto simp: bounded_segments_def bounded_segment_def)

lemma segments_flat:
  assumes "bounded_segments ss"
  shows "nonempty_segments (path_of (flat ss)) = ss"
proof -
  have "filter (\<lambda>s. s \<noteq> []) ss = ss"
    using assms by (auto simp: bounded_segments_def bounded_segment_def list_all_iff intro: filter_True)
  then show ?thesis
    using assms by (simp add: path_of_id flat_no_query nonempty_segments_def split_flat)
qed

lemma segments_root: "nonempty_segments (path_of ''/'') = []"
  by code_simp

lemma map_normalize_bounded: "bounded_segments ss \<Longrightarrow> map normalize_segment ss = ss"
  by (induction ss) (auto simp: bounded_segments_def normalize_bounded_segment)

text \<open>The segments of a key: those the loop kept, and the marker if it stopped early.\<close>

definition key_segments :: "string list \<times> bool \<Rightarrow> string list" where
  "key_segments k = fst k @ (if snd k then ['':other''] else [])"

lemma route_text_segments:
  assumes "bounded_segments (fst k)"
  shows "bounded_segments (key_segments k)" and "nonempty_segments (path_of (route_text k)) = key_segments k"
proof -
  show bounded: "bounded_segments (key_segments k)"
    using assms by (auto simp: key_segments_def bounded_segments_def)
  have rt: "route_text k = (if key_segments k = [] then ''/'' else flat (key_segments k))"
    by (auto simp: route_text_def key_segments_def Let_def flat_def)
  show "nonempty_segments (path_of (route_text k)) = key_segments k"
    using segments_flat [OF bounded] by (cases "key_segments k = []") (simp_all add: rt segments_root)
qed

section \<open>Properties of route keys\<close>

text \<open>
  Route keys are bounded: for every request target the key is at most 256 bytes, starts with a
  slash, has at most 17 segments, and each segment is at most 64 bytes and is not a number, a
  UUID, an e-mail like text or an opaque token. The query never reaches the key.
\<close>

theorem normalize_route_bounded:
  "length (normalize_route t) \<le> 256 \<and> starts_with (normalize_route t) ''/''
   \<and> CHR ''?'' \<notin> set (normalize_route t)
   \<and> length (nonempty_segments (normalize_route t)) \<le> 17
   \<and> list_all bounded_segment (nonempty_segments (normalize_route t))"
proof -
  let ?k = "kept 0 0 (map normalize_segment (nonempty_segments (path_of t)))"
  have b: "bounded_segments (fst ?k)" by (auto simp: bounded_segments_def list_all_iff kept_bounded_segments)
  note lens = kept_bounds [of 0 0 "map normalize_segment (nonempty_segments (path_of t))"]
  have "CHR ''?'' \<notin> set (route_text ?k)"
    using flat_no_query [OF b] by (auto simp: route_text_def Let_def)
  moreover have "length (route_text ?k) \<le> 256" using lens by (auto simp: route_text_def Let_def)
  moreover have "starts_with (route_text ?k) ''/''"
    by (cases "fst ?k") (auto simp: route_text_def Let_def starts_with_def)
  moreover have "nonempty_segments (route_text ?k) = key_segments ?k"
    using route_text_segments(2) [OF b] \<open>CHR ''?'' \<notin> set (route_text ?k)\<close> by (simp add: path_of_id)
  ultimately show ?thesis
    using lens route_text_segments(1) [OF b]
    by (auto simp: normalize_route_kept key_segments_def bounded_segments_def)
qed

text \<open>
  Normalising is idempotent: a route key is its own route key, also when it was cut. So keys
  can be compared and stored without knowing how often they were normalised.
\<close>

theorem normalize_route_idempotent: "normalize_route (normalize_route t) = normalize_route t"
proof -
  let ?ss = "map normalize_segment (nonempty_segments (path_of t))"
  let ?k = "kept 0 0 ?ss"
  have b: "bounded_segments (fst ?k)" by (auto simp: bounded_segments_def list_all_iff kept_bounded_segments)
  have "normalize_route (route_text ?k) = route_text (kept 0 0 (key_segments ?k))"
    using route_text_segments [OF b] by (simp add: normalize_route_kept map_normalize_bounded)
  also have "\<dots> = route_text ?k"
    using kept_again [of 0 0 ?ss "if snd ?k then ['':other''] else []"]
    by (auto simp: key_segments_def route_text_def Let_def)
  finally show ?thesis by (simp add: normalize_route_kept)
qed

text \<open>
  Classification depends on the path only and its cost is in range: with any profile, appending
  a query changes nothing, and the base cost lies in 1..=15.
\<close>

theorem classify_ignores_query:
  "classify profile (target @ CHR ''?'' # query) = classify profile target
   \<and> 1 \<le> rp_base_cost (classify profile target) \<and> rp_base_cost (classify profile target) \<le> 15"
proof
  have "path_of (target @ CHR ''?'' # query) = path_of target"
    unfolding path_of_def before_first_eq by (induction target) auto
  then show "classify profile (target @ CHR ''?'' # query) = classify profile target"
    by (simp add: classify_def)
  have "1 \<le> base_cost k \<and> base_cost k \<le> 15" for k by (cases k) simp_all
  then show "1 \<le> rp_base_cost (classify profile target) \<and> rp_base_cost (classify profile target) \<le> 15"
    by (simp add: classify_def Let_def)
qed

end
