(* ===== verification/Correlation.thy ===== *)
theory Correlation
  imports Rust_Text
begin

text \<open>
  Request identifiers of \<open>guard-core/src/correlation.rs\<close>. The random process nonce comes from the
  \<open>uuid\<close> crate and is an argument of the constructor. The theorem shows that generated
  identifiers are always accepted by the validator and do not repeat.
\<close>

definition REQUEST_ID_PREFIX :: string where
  "REQUEST_ID_PREFIX = ''guard-''"

definition PROCESS_NONCE_HEX_LEN :: nat where
  "PROCESS_NONCE_HEX_LEN = 32"

definition SEQUENCE_HEX_LEN :: nat where
  "SEQUENCE_HEX_LEN = 16"

definition REQUEST_ID_LEN :: nat where
  "REQUEST_ID_LEN = length REQUEST_ID_PREFIX + PROCESS_NONCE_HEX_LEN + 1 + SEQUENCE_HEX_LEN"

record request_id_generator =
  gen_process_nonce_hex :: string
  gen_sequence :: u64

definition with_process_nonce :: "u8 list \<Rightarrow> request_id_generator" where
  "with_process_nonce process_nonce =
     \<lparr> gen_process_nonce_hex = concat (map (\<lambda>b. show_hex 2 (unat b)) process_nonce), gen_sequence = 1 \<rparr>"

definition next_id :: "request_id_generator \<Rightarrow> request_id_generator \<times> string" where
  "next_id g =
     (g \<lparr> gen_sequence := gen_sequence g + 1 \<rparr>,
      REQUEST_ID_PREFIX @ gen_process_nonce_hex g @ ''-'' @ show_hex SEQUENCE_HEX_LEN (unat (gen_sequence g)))"

definition is_valid_request_id :: "string \<Rightarrow> bool" where
  "is_valid_request_id value =
     (if length value \<noteq> REQUEST_ID_LEN \<or> \<not> starts_with value REQUEST_ID_PREFIX then False
      else let nonce_start = length REQUEST_ID_PREFIX;
               nonce_end = nonce_start + PROCESS_NONCE_HEX_LEN;
               sequence_start = nonce_end + 1
           in value ! nonce_end = CHR ''-''
              \<and> list_all is_lower_hexadecimal (take (nonce_end - nonce_start) (drop nonce_start value))
              \<and> list_all is_lower_hexadecimal (drop sequence_start value))"

text \<open>The identifiers of the first calls.\<close>

fun generate :: "nat \<Rightarrow> request_id_generator \<Rightarrow> string list" where
  "generate 0 g = []"
| "generate (Suc n) g = (let (g', i) = next_id g in i # generate n g')"

section \<open>Generated identifiers are valid and unique\<close>

lemma length_concat_const: "\<forall>x \<in> set xs. length (f x) = k \<Longrightarrow> length (concat (map f xs)) = k * length xs"
  by (induction xs) auto

lemma nonce_hex:
  assumes "length nonce = 16"
  shows "length (gen_process_nonce_hex (with_process_nonce nonce)) = 32"
    and "list_all is_lower_hexadecimal (gen_process_nonce_hex (with_process_nonce nonce))"
proof -
  have "length (concat (map (\<lambda>b. show_hex 2 (unat b)) nonce)) = 2 * length nonce"
    by (rule length_concat_const) simp
  with assms show "length (gen_process_nonce_hex (with_process_nonce nonce)) = 32"
    by (simp add: with_process_nonce_def)
  show "list_all is_lower_hexadecimal (gen_process_nonce_hex (with_process_nonce nonce))"
    using show_hex_lower_hex by (simp add: with_process_nonce_def list_all_iff)
qed

lemma next_id_valid:
  assumes "length (gen_process_nonce_hex g) = 32" and "list_all is_lower_hexadecimal (gen_process_nonce_hex g)"
  shows "is_valid_request_id (snd (next_id g))"
  using assms show_hex_lower_hex [of 16]
  by (simp add: is_valid_request_id_def next_id_def REQUEST_ID_LEN_def REQUEST_ID_PREFIX_def Let_def
      PROCESS_NONCE_HEX_LEN_def SEQUENCE_HEX_LEN_def starts_with_def nth_append)

lemma generate_upt:
  "generate n g = map (\<lambda>i. snd (next_id (g \<lparr> gen_sequence := gen_sequence g + of_nat i \<rparr>))) [0 ..< n]"
proof (induction n arbitrary: g)
  case (Suc n)
  have "[0 ..< Suc n] = 0 # map Suc [0 ..< n]" by (simp add: map_Suc_upt upt_conv_Cons)
  then show ?case using Suc.IH by (simp add: next_id_def Let_def algebra_simps del: upt_Suc)
qed simp

lemma next_id_sequence:
  "snd (next_id (g \<lparr> gen_sequence := a \<rparr>)) = snd (next_id (g \<lparr> gen_sequence := b \<rparr>)) \<longleftrightarrow> a = b"
proof -
  have "unat a < 16 ^ 16" and "unat b < 16 ^ 16" using unat_less_pow [of a] unat_less_pow [of b] by simp_all
  then show ?thesis by (simp add: next_id_def SEQUENCE_HEX_LEN_def show_hex_inject word_unat_eq_iff)
qed

text \<open>
  (C37) Every identifier a process hands out is a canonical request identifier, and no two of its
  first 2^64 identifiers are equal.
\<close>

theorem request_ids_valid_and_unique:
  assumes "length nonce = 16" and "n \<le> 2 ^ 64"
  shows "list_all is_valid_request_id (generate n (with_process_nonce nonce))
         \<and> distinct (generate n (with_process_nonce nonce))"
proof
  let ?g = "with_process_nonce nonce"
  show "list_all is_valid_request_id (generate n ?g)"
    using nonce_hex [OF assms(1)] next_id_valid by (simp add: generate_upt list_all_iff)
  have "inj_on (\<lambda>i. snd (next_id (?g \<lparr> gen_sequence := gen_sequence ?g + of_nat i \<rparr>))) {0 ..< n}"
  proof (rule inj_onI)
    fix i j
    assume ij: "i \<in> {0 ..< n}" "j \<in> {0 ..< n}"
    assume "snd (next_id (?g \<lparr> gen_sequence := gen_sequence ?g + of_nat i \<rparr>))
          = snd (next_id (?g \<lparr> gen_sequence := gen_sequence ?g + of_nat j \<rparr>))"
    then have "(of_nat i :: u64) = of_nat j" by (simp add: next_id_sequence)
    then have "unat (of_nat i :: u64) = unat (of_nat j :: u64)" by simp
    then have "i mod 2 ^ 64 = j mod 2 ^ 64" by (simp add: unat_of_nat)
    with ij assms(2) show "i = j" by simp
  qed
  then show "distinct (generate n ?g)" by (simp add: generate_upt distinct_map del: upt_Suc)
qed

theorem request_ids_valid_and_unique_witness:
  "list_all is_valid_request_id (generate 3 (with_process_nonce (replicate 16 0xab)))
   \<and> distinct (generate 3 (with_process_nonce (replicate 16 0xab)))"
  by (rule request_ids_valid_and_unique) simp_all

end
