(* ===== verification/Crawler.thy ===== *)
theory Crawler
  imports Net_Addr
begin

text \<open>
  Crawler identity and declared bots of \<open>guard-core/src/crawler.rs\<close>. Networks of the \<open>ipnet\<close> crate
  are a type parameter with their \<open>contains\<close> test as an argument. The theorems say exactly when a
  request counts as a verified crawler.
\<close>

section \<open>Data\<close>

datatype crawler_provider = Google | Bing | Naver

fun provider_as_str :: "crawler_provider \<Rightarrow> string" where
  "provider_as_str Google = ''google''"
| "provider_as_str Bing = ''bing''"
| "provider_as_str Naver = ''naver''"

record 'net crawler_network =
  cn_provider :: crawler_provider
  cn_cidrs :: "'net list"

record 'net pinned_crawler_networks =
  pin_schema_version :: u32
  pin_generated_at :: string
  pin_sources :: "(string \<times> string) list"
  pin_networks :: "'net crawler_network list"

datatype declared_bot_disposition =
  Undeclared | VerifiedCrawler crawler_provider | SpoofedCrawler crawler_provider | UnapprovedDeclaredBot

datatype bot_class = ClassUndeclared | ClassVerifiedCrawler | ClassSpoofedCrawler | ClassUnapprovedDeclaredBot

fun bot_class_as_str :: "bot_class \<Rightarrow> string" where
  "bot_class_as_str ClassUndeclared = ''undeclared''"
| "bot_class_as_str ClassVerifiedCrawler = ''verified_crawler''"
| "bot_class_as_str ClassSpoofedCrawler = ''spoofed_crawler''"
| "bot_class_as_str ClassUnapprovedDeclaredBot = ''unapproved_declared_bot''"

datatype bot_reason = NotDeclared | OfficialNetworkMatch | OfficialNetworkMismatch | UnapprovedUserAgent

fun bot_reason_as_str :: "bot_reason \<Rightarrow> string" where
  "bot_reason_as_str NotDeclared = ''not_declared''"
| "bot_reason_as_str OfficialNetworkMatch = ''official_network_match''"
| "bot_reason_as_str OfficialNetworkMismatch = ''official_network_mismatch''"
| "bot_reason_as_str UnapprovedUserAgent = ''unapproved_user_agent''"

datatype user_agent_family =
  UaMissing | UaGooglebot | UaBingbot | UaNaver | UaDeclaredAutomation | UaChrome | UaEdge | UaFirefox
  | UaSafari | UaCurl | UaWget | UaOther

fun ua_family_as_str :: "user_agent_family \<Rightarrow> string" where
  "ua_family_as_str UaMissing = ''missing''"
| "ua_family_as_str UaGooglebot = ''googlebot''"
| "ua_family_as_str UaBingbot = ''bingbot''"
| "ua_family_as_str UaNaver = ''naver''"
| "ua_family_as_str UaDeclaredAutomation = ''declared_automation''"
| "ua_family_as_str UaChrome = ''chrome''"
| "ua_family_as_str UaEdge = ''edge''"
| "ua_family_as_str UaFirefox = ''firefox''"
| "ua_family_as_str UaSafari = ''safari''"
| "ua_family_as_str UaCurl = ''curl''"
| "ua_family_as_str UaWget = ''wget''"
| "ua_family_as_str UaOther = ''other''"

section \<open>Dispositions\<close>

fun blocked :: "declared_bot_disposition \<Rightarrow> bool" where
  "blocked (SpoofedCrawler _) = True"
| "blocked UnapprovedDeclaredBot = True"
| "blocked _ = False"

fun disposition_class :: "declared_bot_disposition \<Rightarrow> bot_class" where
  "disposition_class Undeclared = ClassUndeclared"
| "disposition_class (VerifiedCrawler _) = ClassVerifiedCrawler"
| "disposition_class (SpoofedCrawler _) = ClassSpoofedCrawler"
| "disposition_class UnapprovedDeclaredBot = ClassUnapprovedDeclaredBot"

fun disposition_provider :: "declared_bot_disposition \<Rightarrow> crawler_provider option" where
  "disposition_provider (VerifiedCrawler p) = Some p"
| "disposition_provider (SpoofedCrawler p) = Some p"
| "disposition_provider Undeclared = None"
| "disposition_provider UnapprovedDeclaredBot = None"

fun disposition_verified :: "declared_bot_disposition \<Rightarrow> bool" where
  "disposition_verified (VerifiedCrawler _) = True"
| "disposition_verified _ = False"

fun disposition_reason :: "declared_bot_disposition \<Rightarrow> bot_reason" where
  "disposition_reason Undeclared = NotDeclared"
| "disposition_reason (VerifiedCrawler _) = OfficialNetworkMatch"
| "disposition_reason (SpoofedCrawler _) = OfficialNetworkMismatch"
| "disposition_reason UnapprovedDeclaredBot = UnapprovedUserAgent"

definition browser_family :: "string option \<Rightarrow> user_agent_family" where
  "browser_family user_agent =
     (case user_agent of
        None \<Rightarrow> UaMissing
      | Some ua \<Rightarrow>
          let normalized = to_ascii_lowercase ua in
          if str_contains normalized ''edg/'' \<or> str_contains normalized ''edge/'' then UaEdge
          else if str_contains normalized ''chrome/'' \<or> str_contains normalized ''chromium/'' then UaChrome
          else if str_contains normalized ''firefox/'' then UaFirefox
          else if str_contains normalized ''safari/'' \<and> str_contains normalized ''version/'' then UaSafari
          else if str_contains normalized ''curl/'' then UaCurl
          else if str_contains normalized ''wget/'' then UaWget
          else UaOther)"

fun user_agent_family_of :: "string option \<Rightarrow> declared_bot_disposition \<Rightarrow> user_agent_family" where
  "user_agent_family_of ua (VerifiedCrawler Google) = UaGooglebot"
| "user_agent_family_of ua (SpoofedCrawler Google) = UaGooglebot"
| "user_agent_family_of ua (VerifiedCrawler Bing) = UaBingbot"
| "user_agent_family_of ua (SpoofedCrawler Bing) = UaBingbot"
| "user_agent_family_of ua (VerifiedCrawler Naver) = UaNaver"
| "user_agent_family_of ua (SpoofedCrawler Naver) = UaNaver"
| "user_agent_family_of ua UnapprovedDeclaredBot = UaDeclaredAutomation"
| "user_agent_family_of ua Undeclared = browser_family ua"

definition declared_provider :: "string \<Rightarrow> crawler_provider option" where
  "declared_provider normalized =
     (if str_contains normalized ''googlebot'' \<or> str_contains normalized ''google-inspectiontool'' then Some Google
      else if str_contains normalized ''bingbot'' then Some Bing
      else if str_contains normalized ''yeti/'' \<or> str_contains normalized ''ads-naver''
              \<or> str_contains normalized ''blueno'' then Some Naver
      else None)"

definition UNAPPROVED_TOKENS :: "string list" where
  "UNAPPROVED_TOKENS =
     [''gptbot'', ''chatgpt-user'', ''claudebot'', ''claude-web'', ''anthropic-ai'', ''meta-externalagent'',
      ''facebookexternalhit'', ''bytespider'', ''ccbot'', ''perplexitybot'', ''amazonbot'',
      ''applebot-extended'', ''cohere-ai'', ''diffbot'', ''scrapy'', ''crawler'', ''spider'', ''headless'']"

definition in_provider_networks ::
    "('net \<Rightarrow> ip_addr \<Rightarrow> bool) \<Rightarrow> crawler_provider \<Rightarrow> ip_addr \<Rightarrow> 'net crawler_network list \<Rightarrow> bool" where
  "in_provider_networks net_contains provider address networks =
     list_ex (\<lambda>entry. cn_provider entry = provider
                      \<and> list_ex (\<lambda>network. net_contains network address) (cn_cidrs entry)) networks"

definition declared_bot_disposition_of ::
    "('net \<Rightarrow> ip_addr \<Rightarrow> bool) \<Rightarrow> string option \<Rightarrow> ip_addr option \<Rightarrow> crawler_provider list
     \<Rightarrow> 'net crawler_network list \<Rightarrow> declared_bot_disposition" where
  "declared_bot_disposition_of net_contains user_agent client_ip allowed_crawlers networks =
     (case user_agent of
        None \<Rightarrow> Undeclared
      | Some user_agent \<Rightarrow>
          let normalized = to_ascii_lowercase user_agent in
          (case declared_provider normalized of
             Some provider \<Rightarrow>
               if provider \<in> set allowed_crawlers
                  \<and> (case client_ip of None \<Rightarrow> False
                      | Some address \<Rightarrow> in_provider_networks net_contains provider address networks)
               then VerifiedCrawler provider else SpoofedCrawler provider
           | None \<Rightarrow>
               if list_ex (str_contains normalized) UNAPPROVED_TOKENS
                  \<or> list_ex (\<lambda>token. ends_with token ''bot'' \<and> length token > 3)
                       (split_by (\<lambda>c. \<not> is_ascii_alphanumeric c) normalized)
               then UnapprovedDeclaredBot else Undeclared))"

section \<open>Verification from DNS evidence\<close>

datatype verification_method = OfficialCidr | ForwardConfirmedReverseDns

datatype verification_reason =
  VrOfficialNetworkMatch | VrForwardConfirmedName | VrReverseNameMismatch | VrForwardAddressMismatch
  | VrEvidenceUnavailable

record 'net crawler_verification_input =
  cv_provider :: crawler_provider
  cv_client_ip :: ip_addr
  cv_official_networks :: "'net list"
  cv_reverse_names :: "string list"
  cv_forward_addresses :: "ip_addr list"
  cv_expires_at_unix :: u64

record crawler_verification =
  ver_provider :: crawler_provider
  ver_verified :: bool
  ver_method :: "verification_method option"
  ver_reason :: verification_reason
  ver_expires_at_unix :: u64

definition verification ::
    "'net crawler_verification_input \<Rightarrow> bool \<Rightarrow> verification_method option \<Rightarrow> verification_reason \<Rightarrow> crawler_verification" where
  "verification input v method reason =
     \<lparr> ver_provider = cv_provider input, ver_verified = v, ver_method = method, ver_reason = reason,
       ver_expires_at_unix = cv_expires_at_unix input \<rparr>"

fun provider_suffixes :: "crawler_provider \<Rightarrow> string list" where
  "provider_suffixes Google = [''googlebot.com'', ''google.com'', ''googleusercontent.com'']"
| "provider_suffixes Bing = [''search.msn.com'']"
| "provider_suffixes Naver = [''naver.com'']"

definition provider_hostname :: "crawler_provider \<Rightarrow> string \<Rightarrow> bool" where
  "provider_hostname provider hostname =
     (let hostname = to_ascii_lowercase (trim_end_matches (CHR ''.'') hostname)
      in list_ex (\<lambda>suf. hostname = suf
                        \<or> (case strip_suffix hostname suf of None \<Rightarrow> False | Some front \<Rightarrow> ends_with front ''.''))
           (provider_suffixes provider))"

definition verify_crawler :: "('net \<Rightarrow> ip_addr \<Rightarrow> bool) \<Rightarrow> 'net crawler_verification_input \<Rightarrow> crawler_verification" where
  "verify_crawler net_contains input =
     (if list_ex (\<lambda>network. net_contains network (cv_client_ip input)) (cv_official_networks input)
      then verification input True (Some OfficialCidr) VrOfficialNetworkMatch
      else if cv_reverse_names input = [] then verification input False None VrEvidenceUnavailable
      else if \<not> list_ex (provider_hostname (cv_provider input)) (cv_reverse_names input)
      then verification input False None VrReverseNameMismatch
      else if cv_client_ip input \<notin> set (cv_forward_addresses input)
      then verification input False None VrForwardAddressMismatch
      else verification input True (Some ForwardConfirmedReverseDns) VrForwardConfirmedName)"

section \<open>When a request is a verified crawler\<close>

text \<open>
  The user agent alone never verifies a crawler: a request is a verified crawler of a provider
  exactly if its user agent, in any letter case, declares that provider, the operator allowed
  the provider, and the client address is in one of the provider's networks. A declared crawler
  for which this fails is a spoofed one, and a verified crawler is never blocked.
\<close>

theorem verified_crawler_iff:
  "let d = declared_bot_disposition_of net_contains ua ip allowed networks;
       declares = (\<lambda>p. \<exists>t. ua = Some t \<and> declared_provider (to_ascii_lowercase t) = Some p) in
     (d = VerifiedCrawler p \<longleftrightarrow>
        declares p \<and> p \<in> set allowed
        \<and> (\<exists>a entry network. ip = Some a \<and> entry \<in> set networks \<and> cn_provider entry = p
             \<and> network \<in> set (cn_cidrs entry) \<and> net_contains network a))
     \<and> (d = SpoofedCrawler p \<longleftrightarrow> declares p \<and> d \<noteq> VerifiedCrawler p)
     \<and> \<not> (disposition_verified d \<and> blocked d)"
proof -
  have networks: "in_provider_networks net_contains p a networks \<longleftrightarrow>
      (\<exists>entry network. entry \<in> set networks \<and> cn_provider entry = p \<and> network \<in> set (cn_cidrs entry)
         \<and> net_contains network a)" for p a
    by (auto simp: in_provider_networks_def list_ex_iff)
  show ?thesis
  proof (cases ua)
    case None
    then show ?thesis by (simp add: declared_bot_disposition_of_def)
  next
    case (Some t)
    then show ?thesis
      by (cases "declared_provider (to_ascii_lowercase t)"; cases ip)
        (auto simp: declared_bot_disposition_of_def Let_def networks)
  qed
qed

text \<open>The labels of a host name, without trailing dots and in lower case.\<close>

definition host_labels :: "string \<Rightarrow> string list" where
  "host_labels h = split_on (CHR ''.'') (to_ascii_lowercase (trim_end_matches (CHR ''.'') h))"

lemma label_suffix_iff:
  "s = d \<or> (case strip_suffix s d of None \<Rightarrow> False | Some front \<Rightarrow> ends_with front ''.'')
   \<longleftrightarrow> suffix (split_on (CHR ''.'') d) (split_on (CHR ''.'') s)"
proof -
  let ?split = "split_on (CHR ''.'')"
  have "(case strip_suffix s d of None \<Rightarrow> False | Some front \<Rightarrow> ends_with front ''.'')
      \<longleftrightarrow> (\<exists>front. strip_suffix s d = Some (front @ ''.''))"
    by (auto simp: ends_with_def suffix_def split: option.splits)
  then have cases: "s = d \<or> (case strip_suffix s d of None \<Rightarrow> False | Some front \<Rightarrow> ends_with front ''.'')
      \<longleftrightarrow> s = d \<or> (\<exists>front. s = front @ CHR ''.'' # d)"
    by (simp add: strip_suffix_Some_iff)
  show ?thesis
  proof
    assume "s = d \<or> (case strip_suffix s d of None \<Rightarrow> False | Some front \<Rightarrow> ends_with front ''.'')"
    with cases show "suffix (?split d) (?split s)" by (auto simp: split_by_append_sep suffix_def)
  next
    assume "suffix (?split d) (?split s)"
    then obtain xs where xs: "?split s = xs @ ?split d" by (auto simp: suffix_def)
    have "s = d \<or> (\<exists>front. s = front @ CHR ''.'' # d)"
    proof (cases "xs = []")
      case True
      with xs show ?thesis using join_split_on [of "CHR ''.''"] by (metis append_Nil)
    next
      case False
      have "s = join_with ''.'' (xs @ ?split d)" using join_split_on xs by metis
      also have "\<dots> = join_with ''.'' xs @ ''.'' @ join_with ''.'' (?split d)"
        using False by (simp add: join_with_append)
      finally show ?thesis using join_split_on [of "CHR ''.''" d] by auto
    qed
    with cases show "s = d \<or> (case strip_suffix s d of None \<Rightarrow> False | Some front \<Rightarrow> ends_with front ''.'')" by simp
  qed
qed

lemma provider_hostname_labels:
  "provider_hostname p h \<longleftrightarrow> (\<exists>d \<in> set (provider_suffixes p). suffix (split_on (CHR ''.'') d) (host_labels h))"
  by (simp add: provider_hostname_def host_labels_def list_ex_iff Let_def label_suffix_iff)

text \<open>
  Crawler evidence is judged on whole labels: the verifier accepts exactly if the address is in
  an official network, or some reverse name ends, label by label, in a domain of the provider and
  the address is among the forward addresses. A name such as \<open>googlebot.com.attacker.example\<close> or
  \<open>evilgooglebot.com\<close> is no evidence. The result carries the provider and the expiry of the input.
\<close>

theorem verify_crawler_iff:
  "let r = verify_crawler net_contains input in
     (ver_verified r \<longleftrightarrow>
        (\<exists>n \<in> set (cv_official_networks input). net_contains n (cv_client_ip input))
        \<or> (\<exists>h \<in> set (cv_reverse_names input). \<exists>d \<in> set (provider_suffixes (cv_provider input)).
              suffix (split_on (CHR ''.'') d) (host_labels h))
          \<and> cv_client_ip input \<in> set (cv_forward_addresses input))
     \<and> (ver_verified r \<longleftrightarrow> ver_method r \<noteq> None)
     \<and> ver_provider r = cv_provider input \<and> ver_expires_at_unix r = cv_expires_at_unix input"
  by (auto simp: verify_crawler_def verification_def list_ex_iff provider_hostname_labels)

text \<open>The names of attack pages are rejected and a genuine crawler name is accepted.\<close>

lemma provider_hostname_examples:
  "provider_hostname Google ''crawl-66-249-66-1.GoogleBot.com.''"
  "\<not> provider_hostname Google ''googlebot.com.attacker.example''"
  "\<not> provider_hostname Google ''evilgooglebot.com''"
  by code_simp+

end
