(* ===== verification/Rust_Path.thy ===== *)
theory Rust_Path
  imports Rust_Text
begin

text \<open>
  Unix paths of Rust's \<open>std::path\<close>: the component iterator, on which path equality and file names
  are defined. A path is its text.
\<close>

datatype path_component = RootDir | CurDir | ParentDir | NormalComp string

definition segment_component :: "string \<Rightarrow> path_component option" where
  "segment_component s =
     (if s = [] \<or> s = ''.'' then None else if s = ''..'' then Some ParentDir else Some (NormalComp s))"

text \<open>
  Repeated separators and inner \<open>.\<close> segments are skipped; a leading \<open>.\<close> of a relative path is
  kept.
\<close>

definition path_components :: "string \<Rightarrow> path_component list" where
  "path_components p =
     (if starts_with p ''/'' then [RootDir] else if hd (split_on (CHR ''/'') p) = ''.'' then [CurDir] else [])
     @ List.map_filter segment_component (split_on (CHR ''/'') p)"

definition path_is_absolute :: "string \<Rightarrow> bool" where
  "path_is_absolute p = starts_with p ''/''"

definition path_eq :: "string \<Rightarrow> string \<Rightarrow> bool" where
  "path_eq a b \<longleftrightarrow> path_components a = path_components b"

definition path_file_name :: "string \<Rightarrow> string option" where
  "path_file_name p =
     (case rev (path_components p) of NormalComp n # _ \<Rightarrow> Some n | _ \<Rightarrow> None)"

text \<open>\<open>Path::starts_with\<close> compares whole components.\<close>

definition path_starts_with :: "string \<Rightarrow> string \<Rightarrow> bool" where
  "path_starts_with p base \<longleftrightarrow> prefix (path_components base) (path_components p)"

text \<open>The extension is what follows the last dot of the file name, unless that dot begins the name.\<close>

definition path_extension :: "string \<Rightarrow> string option" where
  "path_extension p = (case path_file_name p of
     None \<Rightarrow> None
   | Some n \<Rightarrow> (case rsplit_once (CHR ''.'') n of
       None \<Rightarrow> None
     | Some (stem, ext) \<Rightarrow> if stem = [] then None else Some ext))"

text \<open>\<open>Path::join\<close>.\<close>

definition path_join :: "string \<Rightarrow> string \<Rightarrow> string" where
  "path_join directory name =
     (if path_is_absolute name then name
      else if directory = [] \<or> last directory = CHR ''/'' then directory @ name
      else directory @ ''/'' @ name)"

lemma normal_components:
  "NormalComp n \<in> set (path_components p) \<Longrightarrow> n \<noteq> [] \<and> n \<noteq> ''.'' \<and> n \<noteq> ''..'' \<and> CHR ''/'' \<notin> set n"
  using split_by_pieces [of n "\<lambda>c. c = CHR ''/''" p "CHR ''/''"]
  by (auto simp: path_components_def List.map_filter_def segment_component_def split: if_splits)

lemma absolute_components: "path_is_absolute p \<longleftrightarrow> RootDir \<in> set (path_components p)"
  by (auto simp: path_components_def path_is_absolute_def List.map_filter_def segment_component_def split: if_splits)

lemma path_join_components:
  assumes dir: "path_is_absolute directory" and name: "path_components name = [NormalComp n]"
  shows "path_components (path_join directory name) = path_components directory @ [NormalComp n]"
proof -
  let ?parts = "\<lambda>p. List.map_filter segment_component (split_on (CHR ''/'') p)"
  have relative: "\<not> path_is_absolute name" using name by (auto simp: path_components_def path_is_absolute_def)
  have parts: "?parts name = [NormalComp n]" using name by (auto simp: path_components_def split: if_splits)
  have "?parts (path_join directory name) = ?parts directory @ ?parts name"
  proof (cases "last directory = CHR ''/''")
    case True
    then obtain d where d: "directory = d @ [CHR ''/'']"
      using dir by (cases directory rule: rev_cases) (auto simp: path_is_absolute_def starts_with_def)
    have "split_on (CHR ''/'') (d @ CHR ''/'' # name) = split_on (CHR ''/'') d @ split_on (CHR ''/'') name"
      and "split_on (CHR ''/'') (d @ CHR ''/'' # []) = split_on (CHR ''/'') d @ split_on (CHR ''/'') []"
      by (rule split_by_append_sep, simp)+
    then show ?thesis using relative by (simp add: path_join_def d map_filter_def segment_component_def)
  next
    case False
    have "split_on (CHR ''/'') (directory @ CHR ''/'' # name) = split_on (CHR ''/'') directory @ split_on (CHR ''/'') name"
      by (rule split_by_append_sep) simp
    moreover have "directory \<noteq> []" using dir by (auto simp: path_is_absolute_def starts_with_def)
    ultimately show ?thesis using relative False by (simp add: path_join_def map_filter_def)
  qed
  moreover have "starts_with (path_join directory name) ''/''"
    using dir relative by (auto simp: path_join_def path_is_absolute_def starts_with_def prefix_def)
  ultimately show ?thesis using dir parts by (simp add: path_components_def path_is_absolute_def)
qed

end
