(* ===== verification/Config.thy ===== *)
theory Config
  imports Crawler Rust_Path
begin

text \<open>
  The configuration of \<open>guard-core/src/config.rs\<close>: its sections, defaults and semantic validation.
  Parsing TOML, the \<open>url\<close> crate and \<open>ipnet\<close> networks are library code; a parsed configuration is
  the input and \<open>config_library\<close> holds the functions the validation calls. An error carries the
  field it is about; the human readable reason is not modelled.
\<close>

section \<open>Addresses and URLs\<close>

record socket_addr =
  sa_ip :: ip_addr
  sa_port :: u16
  sa_flowinfo :: u32
  sa_scope_id :: u32

fun ip_is_loopback :: "ip_addr \<Rightarrow> bool" where
  "ip_is_loopback (V4 a) = (drop_bit 24 a = 127)"
| "ip_is_loopback (V6 a) = (a = 1)"

datatype url_host = UrlDomain string | UrlIpv4 u32 | UrlIpv6 u128

record url_parts =
  url_scheme :: string
  url_host_of :: "url_host option"
  url_username :: string
  url_password :: "string option"
  url_query :: "string option"
  url_fragment :: "string option"

record 'net config_library =
  cl_net_addr :: "'net \<Rightarrow> ip_addr"
  cl_url_parse :: "string \<Rightarrow> url_parts option"

section \<open>Sections of the configuration\<close>

definition CONFIG_SCHEMA_VERSION :: u32 where
  "CONFIG_SCHEMA_VERSION = 1"

definition MAX_EDGE_WORKER_THREADS :: nat where
  "MAX_EDGE_WORKER_THREADS = 8"

record 'net edge_config =
  ec_http_bind :: socket_addr
  ec_https_bind :: "socket_addr option"
  ec_worker_threads :: "nat option"
  ec_allowed_hosts :: "string list"
  ec_canonical_host :: "string option"
  ec_trusted_proxy_cidrs :: "'net list"
  ec_max_body_bytes :: u64
  ec_upload_max_body_bytes :: u64
  ec_upload_path_prefixes :: "string list"
  ec_strict_path_prefixes :: "string list"
  ec_upstream_connect_timeout_ms :: u64
  ec_upstream_read_timeout_ms :: u64
  ec_upload_upstream_read_timeout_ms :: u64
  ec_max_tracked_clients :: nat
  ec_max_in_flight_requests :: u64
  ec_downstream_io_timeout_ms :: u64
  ec_downstream_min_send_rate_bps :: nat
  ec_keepalive_request_limit :: u32
  ec_prefix_rate_limit_multiplier :: u32
  ec_route_rate_limit_multiplier :: u32
  ec_global_rate_limit_multiplier :: u32
  ec_rate_limit_rpm :: "u32 option"
  ec_strict_rate_limit_rpm :: "u32 option"
  ec_upload_rate_limit_rpm :: "u32 option"
  ec_telemetry_socket :: string
  ec_policy_path :: string
  ec_policy_reload_interval_ms :: u64
  ec_challenge_secret_file :: "string option"
  ec_clearance_ttl_seconds :: u64

datatype origin_protocol = OriginHttp | OriginHttps

record origin_config =
  oc_address :: socket_addr
  oc_protocol :: origin_protocol
  oc_sni :: "string option"

datatype tls_management_mode = TlsAuto | TlsExternalManaged | TlsVpsguardAssisted | TlsManual

record certificate_config =
  cc_domains :: "string list"
  cc_cert_file :: string
  cc_key_file :: string
  cc_certbot_lineage :: "string option"

record tls_config =
  tc_management :: tls_management_mode
  tc_certificates :: "certificate_config list"

datatype ui_tls_termination = EdgeTermination | TrustedExternal

datatype admin_auth_provider = LocalAuth | PamAuth

datatype admin_role = Viewer | Analyst | Operator | Administrator

fun can_view_raw_ip :: "admin_role \<Rightarrow> bool" where
  "can_view_raw_ip Viewer = False"
| "can_view_raw_ip _ = True"

definition can_export_sensitive :: "admin_role \<Rightarrow> bool" where
  "can_export_sensitive r \<longleftrightarrow> r = Analyst \<or> r = Administrator"

definition can_operate :: "admin_role \<Rightarrow> bool" where
  "can_operate r \<longleftrightarrow> r = Operator \<or> r = Administrator"

definition can_administer :: "admin_role \<Rightarrow> bool" where
  "can_administer r \<longleftrightarrow> r = Administrator"

record admin_role_binding =
  arb_actor :: string
  arb_role :: admin_role

record ui_config =
  uc_bind :: socket_addr
  uc_public_host :: "string option"
  uc_public_port :: u16
  uc_tls_termination :: ui_tls_termination
  uc_auth_provider :: admin_auth_provider
  uc_pam_service :: string
  uc_pam_allowed_group :: string
  uc_role_bindings :: "admin_role_binding list"
  uc_admin_socket :: string
  uc_privileged_socket :: string
  uc_login_rate_limit_rpm :: u32
  uc_language :: string

datatype firewall_mode = StandaloneUfw | JwAgentDelegated | FirewallDisabled

record firewall_config =
  fc_mode :: firewall_mode
  fc_ssh_port :: u16

definition default_firewall_config :: firewall_config where
  "default_firewall_config = \<lparr> fc_mode = FirewallDisabled, fc_ssh_port = 22 \<rparr>"

datatype waf_mode = WafOff | WafDetection | TunedEnforce

datatype waf_adapter = ModSecurityOwaspCrs

record waf_config =
  wc_mode :: waf_mode
  wc_adapter :: waf_adapter
  wc_exclusions_file :: "string option"

definition default_waf_config :: waf_config where
  "default_waf_config = \<lparr> wc_mode = WafOff, wc_adapter = ModSecurityOwaspCrs, wc_exclusions_file = None \<rparr>"

datatype inspection_mode = Profiled | ProtocolOnly

fun inspection_as_str :: "inspection_mode \<Rightarrow> string" where
  "inspection_as_str Profiled = ''profiled''"
| "inspection_as_str ProtocolOnly = ''protocol_only''"

datatype detection_profile = ProfilePhp | ProfileGnuboard5 | ProfileGnuboard7 | ProfileWordpress

datatype detection_mode = ObserveMode | EnforceMode

record detection_config =
  dc_profile :: detection_profile
  dc_inspection :: inspection_mode
  dc_mode :: detection_mode

datatype csp_mode = CspOff | CspReportOnly | CspEnforce

fun csp_as_str :: "csp_mode \<Rightarrow> string" where
  "csp_as_str CspOff = ''off''"
| "csp_as_str CspReportOnly = ''report_only''"
| "csp_as_str CspEnforce = ''enforce''"

record security_config =
  sc_baseline_response_headers :: bool
  sc_strip_origin_headers :: bool
  sc_csp_mode :: csp_mode
  sc_csp_policy :: "string option"
  sc_hsts_max_age_seconds :: u64
  sc_auth_rate_limit_rpm :: u32

definition default_security_config :: security_config where
  "default_security_config =
     \<lparr> sc_baseline_response_headers = True, sc_strip_origin_headers = True, sc_csp_mode = CspReportOnly,
       sc_csp_policy = None, sc_hsts_max_age_seconds = 0, sc_auth_rate_limit_rpm = 10 \<rparr>"

record 'net bot_policy_config =
  bp_block_unapproved_declared_bots :: bool
  bp_allowed_crawlers :: "crawler_provider list"
  bp_crawler_networks :: "'net crawler_network list"
  bp_crawler_networks_file :: "string option"

datatype dns_record_type = RecordA | RecordAAAA | RecordCNAME

record cloudflare_record_config =
  cfr_id :: string
  cfr_name :: string
  cfr_record_type :: dns_record_type

record 'net cloudflare_config =
  cf_enabled :: bool
  cf_zone_id :: string
  cf_records :: "cloudflare_record_config list"
  cf_token_file :: string
  cf_ip_networks :: "'net list"
  cf_max_dns_ttl_seconds :: u32

definition default_cloudflare_config :: "'net cloudflare_config" where
  "default_cloudflare_config =
     \<lparr> cf_enabled = False, cf_zone_id = [], cf_records = [], cf_token_file = [], cf_ip_networks = [],
       cf_max_dns_ttl_seconds = 300 \<rparr>"

record notification_config =
  nc_enabled :: bool
  nc_webhook_url :: "string option"
  nc_token_file :: "string option"
  nc_queue_capacity :: nat
  nc_max_attempts :: u8
  nc_initial_backoff_ms :: u64
  nc_request_timeout_ms :: u64

definition default_notification_config :: notification_config where
  "default_notification_config =
     \<lparr> nc_enabled = False, nc_webhook_url = None, nc_token_file = None, nc_queue_capacity = 256,
       nc_max_attempts = 3, nc_initial_backoff_ms = 500, nc_request_timeout_ms = 5000 \<rparr>"

record retention_config =
  rc_live_seconds :: u64
  rc_detail_hours :: u64
  rc_aggregate_days :: u64
  rc_incident_days :: u64
  rc_audit_days :: u64
  rc_raw_ip_days :: u64

record storage_config =
  stc_database_path :: string
  stc_events_directory :: string
  stc_max_database_bytes :: u64
  stc_min_disk_free_bytes :: u64

definition default_storage_config :: storage_config where
  "default_storage_config =
     \<lparr> stc_database_path = ''/var/lib/vps-guard/control.sqlite3'',
       stc_events_directory = ''/var/lib/vps-guard/events'',
       stc_max_database_bytes = 512 * 1024 * 1024, stc_min_disk_free_bytes = 256 * 1024 * 1024 \<rparr>"

datatype service_collector_kind = KindNginx | KindApache | KindPhpFpm | KindMysql | KindRedis

record service_collector_config =
  svc_name :: string
  svc_unit :: string
  svc_kind :: service_collector_kind
  svc_cgroup_path :: "string option"
  svc_status_url :: "string option"
  svc_address :: "socket_addr option"
  svc_credential_file :: "string option"

record collectors_config =
  clc_nginx_status_url :: "string option"
  clc_php_fpm_status_url :: "string option"
  clc_mysql_address :: "socket_addr option"
  clc_redis_address :: "socket_addr option"
  clc_cgroup_root :: string
  clc_services :: "service_collector_config list"
  clc_timeout_ms :: u64

definition default_collectors_config :: collectors_config where
  "default_collectors_config =
     \<lparr> clc_nginx_status_url = None, clc_php_fpm_status_url = None, clc_mysql_address = None,
       clc_redis_address = None, clc_cgroup_root = ''/sys/fs/cgroup'', clc_services = [], clc_timeout_ms = 500 \<rparr>"

record 'net guard_config =
  gc_schema_version :: u32
  gc_edge :: "'net edge_config"
  gc_origin :: origin_config
  gc_tls :: tls_config
  gc_ui :: ui_config
  gc_firewall :: firewall_config
  gc_detection :: detection_config
  gc_bot_policy :: "'net bot_policy_config"
  gc_security :: security_config
  gc_waf :: waf_config
  gc_cloudflare :: "'net cloudflare_config"
  gc_notifications :: notification_config
  gc_retention :: retention_config
  gc_storage :: storage_config
  gc_collectors :: collectors_config

end
