(* ===== verification/Config_Validation.thy ===== *)
theory Config_Validation
  imports Config
begin

text \<open>
  The semantic validation of \<open>guard-core/src/config.rs\<close>, section by section in the order of the
  source. Each check names the field it rejects.
\<close>

datatype config_error = UnsupportedConfigSchema u32 u32 | InvalidField string

type_synonym config_check = "config_error + unit"

definition invalid_if :: "bool \<Rightarrow> string \<Rightarrow> config_check" where
  "invalid_if bad field = reject_if bad (InvalidField field)"

section \<open>Names, hosts and URLs\<close>

definition is_name_byte :: "char \<Rightarrow> bool" where
  "is_name_byte c \<longleftrightarrow> is_ascii_alphanumeric c \<or> c \<in> {CHR ''.'', CHR ''_'', CHR ''-''}"

definition is_cloudflare_identifier :: "string \<Rightarrow> bool" where
  "is_cloudflare_identifier value \<longleftrightarrow> length value = 32 \<and> list_all is_lower_hexadecimal value"

definition is_systemd_credential_name :: "string \<Rightarrow> bool" where
  "is_systemd_credential_name path =
     (case path_components path of
        [NormalComp name] \<Rightarrow> name \<noteq> [] \<and> length name \<le> 64 \<and> list_all is_name_byte name
      | _ \<Rightarrow> False)"

definition is_safe_relative_path :: "string \<Rightarrow> nat \<Rightarrow> bool" where
  "is_safe_relative_path path max_components \<longleftrightarrow>
     path \<noteq> [] \<and> \<not> path_is_absolute path \<and> length (path_components path) \<le> max_components
     \<and> list_all (\<lambda>c. case c of NormalComp _ \<Rightarrow> True | _ \<Rightarrow> False) (path_components path)"

definition is_safe_identity_name :: "string \<Rightarrow> bool" where
  "is_safe_identity_name value \<longleftrightarrow>
     value \<noteq> [] \<and> length value \<le> 64 \<and> value \<noteq> ''.'' \<and> value \<noteq> ''..'' \<and> list_all is_name_byte value"

definition validate_host_rule :: "string \<Rightarrow> string \<Rightarrow> config_check" where
  "validate_host_rule field raw =
     (let host = trim raw in
      if host = [] \<or> host \<noteq> raw \<or> contains_char host (CHR ''/'') \<or> contains_char host (CHR '':'')
      then Inl (InvalidField field)
      else case strip_prefix host ''*.'' of
             Some domain \<Rightarrow> if domain = [] \<or> \<not> contains_char domain (CHR ''.'')
                            then Inl (InvalidField field) else Inr ()
           | None \<Rightarrow> Inr ())"

definition host_rule_matches :: "string \<Rightarrow> string \<Rightarrow> bool" where
  "host_rule_matches rule host =
     (case strip_prefix rule ''*.'' of
        Some domain \<Rightarrow>
          (case strip_suffix (to_ascii_lowercase host) (to_ascii_lowercase domain) of
             None \<Rightarrow> False
           | Some front \<Rightarrow>
               (case strip_suffix front ''.'' of
                  None \<Rightarrow> False
                | Some label \<Rightarrow> label \<noteq> [] \<and> \<not> contains_char label (CHR ''.'')))
      | None \<Rightarrow> eq_ignore_ascii_case rule host)"

definition loopback_url_host :: "url_parts \<Rightarrow> bool" where
  "loopback_url_host u =
     (case url_host_of u of
        Some (UrlDomain host) \<Rightarrow> eq_ignore_ascii_case host ''localhost''
      | Some (UrlIpv4 a) \<Rightarrow> ip_is_loopback (V4 a)
      | Some (UrlIpv6 a) \<Rightarrow> ip_is_loopback (V6 a)
      | None \<Rightarrow> False)"

definition validate_loopback_http_url :: "(string \<Rightarrow> url_parts option) \<Rightarrow> string \<Rightarrow> string \<Rightarrow> config_check" where
  "validate_loopback_http_url url_parse field value =
     invalid_if (case url_parse value of
                   None \<Rightarrow> True
                 | Some u \<Rightarrow> \<not> (url_scheme u = ''http'' \<and> url_username u = [] \<and> url_password u = None
                               \<and> url_fragment u = None \<and> loopback_url_host u)) field"

section \<open>The edge section\<close>

definition validate_edge_hosts :: "'net edge_config \<Rightarrow> config_check" where
  "validate_edge_hosts e =
     checks
       [invalid_if (ec_allowed_hosts e = []) ''edge.allowed_hosts'',
        all_ok (validate_host_rule ''edge.allowed_hosts'') (ec_allowed_hosts e),
        (case ec_canonical_host e of None \<Rightarrow> Inr () | Some host \<Rightarrow> validate_host_rule ''edge.canonical_host'' host),
        all_ok (\<lambda>path. invalid_if (\<not> starts_with path ''/'' \<or> trim path \<noteq> path) ''edge.path_prefixes'')
          (ec_upload_path_prefixes e @ ec_strict_path_prefixes e)]"

definition validate_edge_limits :: "'net edge_config \<Rightarrow> config_check" where
  "validate_edge_limits e =
     checks
       [invalid_if (ec_max_body_bytes e = 0) ''edge.max_body_bytes'',
        invalid_if (ec_upload_max_body_bytes e < ec_max_body_bytes e) ''edge.upload_max_body_bytes'',
        invalid_if (ec_upstream_connect_timeout_ms e = 0 \<or> ec_upstream_read_timeout_ms e = 0
                    \<or> ec_upload_upstream_read_timeout_ms e = 0) ''edge.upstream_timeout'',
        invalid_if (ec_max_tracked_clients e = 0) ''edge.max_tracked_clients'',
        invalid_if (case ec_worker_threads e of None \<Rightarrow> False
                    | Some workers \<Rightarrow> \<not> (1 \<le> workers \<and> workers \<le> MAX_EDGE_WORKER_THREADS)) ''edge.worker_threads'',
        invalid_if (\<not> (1 \<le> ec_max_in_flight_requests e \<and> ec_max_in_flight_requests e \<le> 65535))
          ''edge.max_in_flight_requests'',
        invalid_if (\<not> (100 \<le> ec_downstream_io_timeout_ms e \<and> ec_downstream_io_timeout_ms e \<le> 300000))
          ''edge.downstream_io_timeout_ms'',
        invalid_if (\<not> (1 \<le> ec_downstream_min_send_rate_bps e \<and> ec_downstream_min_send_rate_bps e \<le> 10 * 1024 * 1024))
          ''edge.downstream_min_send_rate_bps'',
        invalid_if (\<not> (1 \<le> ec_keepalive_request_limit e \<and> ec_keepalive_request_limit e \<le> 10000))
          ''edge.keepalive_request_limit'',
        invalid_if (ec_prefix_rate_limit_multiplier e = 0
                    \<or> ec_route_rate_limit_multiplier e < ec_prefix_rate_limit_multiplier e
                    \<or> ec_global_rate_limit_multiplier e < ec_route_rate_limit_multiplier e)
          ''edge.rate_limit_multiplier'',
        invalid_if (ec_policy_reload_interval_ms e < 100 \<or> ec_clearance_ttl_seconds e = 0) ''edge.policy_runtime'',
        invalid_if (Some 0 \<in> {ec_rate_limit_rpm e, ec_strict_rate_limit_rpm e, ec_upload_rate_limit_rpm e})
          ''edge.rate_limit_rpm'']"

section \<open>Bots, security headers and the WAF adapter\<close>

fun validate_allowed_crawlers :: "crawler_provider list \<Rightarrow> crawler_provider list \<Rightarrow> config_check" where
  "validate_allowed_crawlers seen [] = Inr ()"
| "validate_allowed_crawlers seen (p # ps) =
     (if p \<in> set seen then Inl (InvalidField ''bot_policy.allowed_crawlers'')
      else validate_allowed_crawlers (p # seen) ps)"

fun validate_crawler_networks :: "crawler_provider list \<Rightarrow> 'net crawler_network list \<Rightarrow> config_check" where
  "validate_crawler_networks seen [] = Inr ()"
| "validate_crawler_networks seen (e # es) =
     (if cn_cidrs e = [] \<or> cn_provider e \<in> set seen then Inl (InvalidField ''bot_policy.crawler_networks'')
      else validate_crawler_networks (cn_provider e # seen) es)"

definition validate_bot_policy :: "'net bot_policy_config \<Rightarrow> config_check" where
  "validate_bot_policy b =
     checks
       [validate_allowed_crawlers [] (bp_allowed_crawlers b),
        validate_crawler_networks [] (bp_crawler_networks b),
        invalid_if (bp_block_unapproved_declared_bots b
                    \<and> list_ex (\<lambda>p. p \<notin> set (map cn_provider (bp_crawler_networks b))) (bp_allowed_crawlers b)
                    \<and> bp_crawler_networks_file b = None) ''bot_policy.crawler_networks'',
        invalid_if (case bp_crawler_networks_file b of None \<Rightarrow> False | Some path \<Rightarrow> \<not> path_is_absolute path)
          ''bot_policy.crawler_networks_file'']"

definition validate_security :: "security_config \<Rightarrow> waf_config \<Rightarrow> config_check" where
  "validate_security s w =
     checks
       [invalid_if (sc_auth_rate_limit_rpm s > 600) ''security.auth_rate_limit_rpm'',
        invalid_if (case wc_exclusions_file w of None \<Rightarrow> False
                    | Some path \<Rightarrow> \<not> path_is_absolute path \<or> path = []) ''waf.exclusions_file'',
        invalid_if (wc_mode w = TunedEnforce \<and> wc_exclusions_file w = None) ''waf.exclusions_file'',
        invalid_if (sc_csp_mode s = CspOff \<and> sc_csp_policy s \<noteq> None) ''security.csp_policy'',
        invalid_if (case sc_csp_policy s of None \<Rightarrow> False
                    | Some policy \<Rightarrow> policy = [] \<or> length policy > 4096 \<or> trim policy \<noteq> policy
                        \<or> \<not> list_all (\<lambda>c. byte c < 128) policy \<or> list_ex is_ascii_control policy)
          ''security.csp_policy'']"

section \<open>Listeners and certificates\<close>

definition validate_listeners :: "'net guard_config \<Rightarrow> config_check" where
  "validate_listeners c =
     (let e = gc_edge c; ui = gc_ui c; origin = oc_address (gc_origin c) in
      checks
       [invalid_if (origin = ec_http_bind e \<or> ec_https_bind e = Some origin) ''origin.address'',
        invalid_if (\<not> ip_is_loopback (sa_ip (uc_bind ui))) ''ui.bind'',
        invalid_if (uc_bind ui = ec_http_bind e \<or> ec_https_bind e = Some (uc_bind ui)) ''ui.bind'',
        invalid_if (\<not> path_is_absolute (uc_admin_socket ui)) ''ui.admin_socket'',
        invalid_if (\<not> path_is_absolute (uc_privileged_socket ui)) ''ui.privileged_socket'',
        invalid_if (uc_login_rate_limit_rpm ui = 0 \<or> uc_login_rate_limit_rpm ui > 60) ''ui.login_rate_limit_rpm'',
        invalid_if (ec_https_bind e \<noteq> None \<and> tc_certificates (gc_tls c) = []) ''tls.certificates''])"

definition validate_certificate :: "certificate_config \<Rightarrow> config_check" where
  "validate_certificate cert =
     checks
       [invalid_if (cc_domains cert = [] \<or> cc_cert_file cert = [] \<or> cc_key_file cert = []) ''tls.certificates'',
        invalid_if (\<not> path_is_absolute (cc_cert_file cert) \<and> \<not> is_systemd_credential_name (cc_cert_file cert))
          ''tls.certificates.cert_file'',
        invalid_if (\<not> path_is_absolute (cc_key_file cert) \<and> \<not> is_systemd_credential_name (cc_key_file cert))
          ''tls.certificates.key_file'',
        invalid_if (path_eq (cc_cert_file cert) (cc_key_file cert)) ''tls.certificates'',
        invalid_if (case cc_certbot_lineage cert of None \<Rightarrow> False
                    | Some lineage \<Rightarrow> lineage = [] \<or> length lineage > 128 \<or> \<not> list_all is_name_byte lineage
                        \<or> lineage = ''.'' \<or> lineage = ''..'') ''tls.certificates.certbot_lineage'',
        all_ok (validate_host_rule ''tls.certificates.domains'') (cc_domains cert)]"

section \<open>The management interface\<close>

definition validate_public_host :: "('net \<Rightarrow> ip_addr) \<Rightarrow> 'net guard_config \<Rightarrow> string \<Rightarrow> config_check" where
  "validate_public_host net_addr c public_host =
     checks
       [validate_host_rule ''ui.public_host'' public_host,
        invalid_if (starts_with public_host ''*.'') ''ui.public_host'',
        invalid_if (case ec_canonical_host (gc_edge c) of None \<Rightarrow> False
                    | Some host \<Rightarrow> eq_ignore_ascii_case host public_host) ''ui.public_host'',
        (case uc_tls_termination (gc_ui c) of
           EdgeTermination \<Rightarrow>
             checks
               [invalid_if (ec_https_bind (gc_edge c) = None) ''ui.public_host'',
                invalid_if (\<not> list_ex (\<lambda>cert. list_ex (\<lambda>rule. host_rule_matches rule public_host) (cc_domains cert))
                                (tc_certificates (gc_tls c))) ''ui.public_host'']
         | TrustedExternal \<Rightarrow>
             invalid_if (\<not> list_ex (\<lambda>network. ip_is_loopback (net_addr network)) (ec_trusted_proxy_cidrs (gc_edge c)))
               ''ui.tls_termination'')]"

fun validate_role_bindings :: "string list \<Rightarrow> admin_role_binding list \<Rightarrow> config_check" where
  "validate_role_bindings seen [] = Inr ()"
| "validate_role_bindings seen (b # bs) =
     (if \<not> is_safe_identity_name (arb_actor b) \<or> eq_ignore_ascii_case (arb_actor b) ''root''
         \<or> eq_ignore_ascii_case (arb_actor b) ''break-glass'' \<or> to_ascii_lowercase (arb_actor b) \<in> set seen
      then Inl (InvalidField ''ui.role_bindings'')
      else validate_role_bindings (to_ascii_lowercase (arb_actor b) # seen) bs)"

definition validate_ui :: "('net \<Rightarrow> ip_addr) \<Rightarrow> 'net guard_config \<Rightarrow> config_check" where
  "validate_ui net_addr c =
     (let ui = gc_ui c in
      checks
       [invalid_if (uc_tls_termination ui = TrustedExternal \<and> uc_public_host ui = None) ''ui.tls_termination'',
        (case uc_public_host ui of None \<Rightarrow> Inr () | Some host \<Rightarrow> validate_public_host net_addr c host),
        invalid_if (uc_public_host ui \<noteq> None \<and> uc_public_port ui = 0) ''ui.public_port'',
        (if uc_auth_provider ui = PamAuth
         then checks
                [invalid_if (\<not> is_safe_identity_name (uc_pam_service ui)) ''ui.pam_service'',
                 invalid_if (\<not> is_safe_identity_name (uc_pam_allowed_group ui)
                             \<or> eq_ignore_ascii_case (uc_pam_allowed_group ui) ''root'') ''ui.pam_allowed_group'']
         else Inr ()),
        validate_role_bindings [] (uc_role_bindings ui),
        invalid_if (fc_ssh_port (gc_firewall c) = 0) ''firewall.ssh_port''])"

section \<open>The Cloudflare provider\<close>

fun validate_records :: "string \<Rightarrow> string list \<Rightarrow> cloudflare_record_config list \<Rightarrow> config_check" where
  "validate_records record_name seen [] = Inr ()"
| "validate_records record_name seen (r # rs) =
     (if \<not> is_cloudflare_identifier (cfr_id r) \<or> cfr_id r \<in> set seen then Inl (InvalidField ''cloudflare.records'')
      else if \<not> eq_ignore_ascii_case (cfr_name r) record_name then Inl (InvalidField ''cloudflare.records'')
      else and_then (validate_host_rule ''cloudflare.records'' (cfr_name r))
             (\<lambda>_. validate_records record_name (cfr_id r # seen) rs))"

definition net_is_v4 :: "('net \<Rightarrow> ip_addr) \<Rightarrow> 'net \<Rightarrow> bool" where
  "net_is_v4 net_addr n = (case net_addr n of V4 _ \<Rightarrow> True | V6 _ \<Rightarrow> False)"

definition single_served_host :: "'net edge_config \<Rightarrow> string \<Rightarrow> bool" where
  "single_served_host e record_name =
     (case ec_allowed_hosts e of
        [host] \<Rightarrow> eq_ignore_ascii_case host record_name
                  \<and> (case ec_canonical_host e of None \<Rightarrow> True | Some canonical \<Rightarrow> eq_ignore_ascii_case canonical record_name)
      | _ \<Rightarrow> False)"

definition validate_cloudflare :: "('net \<Rightarrow> ip_addr) \<Rightarrow> 'net guard_config \<Rightarrow> config_check" where
  "validate_cloudflare net_addr c =
     (let cf = gc_cloudflare c in
      if \<not> cf_enabled cf then Inr ()
      else case cf_records cf of
        [] \<Rightarrow> Inl (InvalidField ''cloudflare'')
      | first # _ \<Rightarrow>
          let record_name = cfr_name first in
          checks
           [invalid_if (trim (cf_zone_id cf) = [] \<or> cf_token_file cf = [] \<or> cf_ip_networks cf = []) ''cloudflare'',
            invalid_if (\<not> (60 \<le> cf_max_dns_ttl_seconds cf \<and> cf_max_dns_ttl_seconds cf \<le> 3600))
              ''cloudflare.max_dns_ttl_seconds'',
            invalid_if (\<not> is_cloudflare_identifier (cf_zone_id cf)) ''cloudflare.zone_id'',
            invalid_if (\<not> path_is_absolute (cf_token_file cf) \<and> \<not> is_systemd_credential_name (cf_token_file cf))
              ''cloudflare.token_file'',
            invalid_if (length (cf_records cf) > 16) ''cloudflare.records'',
            invalid_if (\<not> list_ex (net_is_v4 net_addr) (cf_ip_networks cf)
                        \<or> \<not> list_ex (\<lambda>n. \<not> net_is_v4 net_addr n) (cf_ip_networks cf)) ''cloudflare.ip_networks'',
            invalid_if (starts_with record_name ''*.'') ''cloudflare.records'',
            validate_host_rule ''cloudflare.records'' record_name,
            validate_records record_name [] (cf_records cf),
            invalid_if (list_ex (\<lambda>r. cfr_record_type r = RecordCNAME) (cf_records cf) \<and> length (cf_records cf) \<noteq> 1)
              ''cloudflare.records'',
            invalid_if (\<not> single_served_host (gc_edge c) record_name) ''cloudflare.records''])"

section \<open>Notifications, retention and storage\<close>

definition validate_notifications :: "(string \<Rightarrow> url_parts option) \<Rightarrow> notification_config \<Rightarrow> config_check" where
  "validate_notifications url_parse n =
     checks
       [invalid_if (nc_enabled n \<and> nc_webhook_url n = None) ''notifications.webhook_url'',
        invalid_if (case nc_webhook_url n of None \<Rightarrow> False
                    | Some raw_url \<Rightarrow>
                        (case url_parse raw_url of None \<Rightarrow> True
                         | Some u \<Rightarrow> \<not> (url_scheme u = ''https'' \<and> url_host_of u \<noteq> None \<and> url_username u = []
                                       \<and> url_password u = None \<and> url_query u = None \<and> url_fragment u = None)))
          ''notifications.webhook_url'',
        invalid_if (case nc_token_file n of None \<Rightarrow> False
                    | Some path \<Rightarrow> \<not> path_is_absolute path \<and> \<not> is_systemd_credential_name path)
          ''notifications.token_file'',
        invalid_if (\<not> (16 \<le> nc_queue_capacity n \<and> nc_queue_capacity n \<le> 4096)) ''notifications.queue_capacity'',
        invalid_if (\<not> (1 \<le> nc_max_attempts n \<and> nc_max_attempts n \<le> 5)) ''notifications.max_attempts'',
        invalid_if (\<not> (100 \<le> nc_initial_backoff_ms n \<and> nc_initial_backoff_ms n \<le> 60000))
          ''notifications.initial_backoff_ms'',
        invalid_if (\<not> (500 \<le> nc_request_timeout_ms n \<and> nc_request_timeout_ms n \<le> 30000))
          ''notifications.request_timeout_ms'']"

definition validate_retention :: "retention_config \<Rightarrow> config_check" where
  "validate_retention r =
     checks
       [invalid_if (rc_live_seconds r = 0 \<or> rc_detail_hours r = 0 \<or> rc_aggregate_days r = 0
                    \<or> rc_incident_days r = 0 \<or> rc_audit_days r = 0) ''retention'',
        invalid_if (rc_live_seconds r > 86400) ''retention.live_seconds'',
        invalid_if (rc_raw_ip_days r > rc_incident_days r) ''retention.raw_ip_days'']"

definition validate_storage :: "storage_config \<Rightarrow> config_check" where
  "validate_storage s =
     checks
       [invalid_if (stc_database_path s = [] \<or> stc_events_directory s = []) ''storage'',
        invalid_if (\<not> path_is_absolute (stc_database_path s) \<or> \<not> path_is_absolute (stc_events_directory s)) ''storage'',
        invalid_if (\<not> (16 * 1024 * 1024 \<le> stc_max_database_bytes s
                       \<and> stc_max_database_bytes s \<le> 16 * 1024 * 1024 * 1024)) ''storage.max_database_bytes'',
        invalid_if (\<not> (64 * 1024 * 1024 \<le> stc_min_disk_free_bytes s
                       \<and> stc_min_disk_free_bytes s \<le> 64 * 1024 * 1024 * 1024)) ''storage.min_disk_free_bytes'']"

section \<open>Collectors\<close>

definition validate_service_endpoint :: "(string \<Rightarrow> url_parts option) \<Rightarrow> service_collector_config \<Rightarrow> config_check" where
  "validate_service_endpoint url_parse s =
     (case svc_kind s of
        KindMysql \<Rightarrow> invalid_if (svc_status_url s \<noteq> None \<or> svc_address s \<noteq> None \<or> svc_credential_file s = None)
                       ''collectors.services''
      | KindRedis \<Rightarrow>
          checks
            [invalid_if (svc_status_url s \<noteq> None \<or> (svc_address s \<noteq> None) = (svc_credential_file s \<noteq> None))
               ''collectors.services'',
             invalid_if (case svc_address s of None \<Rightarrow> False | Some a \<Rightarrow> \<not> ip_is_loopback (sa_ip a))
               ''collectors.services.address'']
      | _ \<Rightarrow>
          (case svc_status_url s of
             None \<Rightarrow> Inl (InvalidField ''collectors.services.status_url'')
           | Some url \<Rightarrow>
               checks
                 [validate_loopback_http_url url_parse ''collectors.services.status_url'' url,
                  invalid_if (svc_address s \<noteq> None \<or> svc_credential_file s \<noteq> None) ''collectors.services'']))"

definition is_unit_byte :: "char \<Rightarrow> bool" where
  "is_unit_byte c \<longleftrightarrow> is_name_byte c \<or> c \<in> {CHR ''@'', CHR '':'', CHR 0x5C}"

fun validate_services ::
    "(string \<Rightarrow> url_parts option) \<Rightarrow> string list \<Rightarrow> string list \<Rightarrow> service_collector_config list \<Rightarrow> config_check" where
  "validate_services url_parse names units [] = Inr ()"
| "validate_services url_parse names units (s # ss) =
     checks
       [invalid_if (svc_name s = [] \<or> length (svc_name s) > 64 \<or> \<not> list_all is_name_byte (svc_name s)
                    \<or> svc_name s \<in> set names) ''collectors.services.name'',
        invalid_if (length (svc_unit s) > 128 \<or> \<not> ends_with (svc_unit s) ''.service''
                    \<or> contains_char (svc_unit s) (CHR ''/'') \<or> \<not> list_all is_unit_byte (svc_unit s)
                    \<or> svc_unit s \<in> set units) ''collectors.services.unit'',
        invalid_if (case svc_cgroup_path s of None \<Rightarrow> False
                    | Some path \<Rightarrow> \<not> is_safe_relative_path path 8 \<or> path_file_name path \<noteq> Some (svc_unit s))
          ''collectors.services.cgroup_path'',
        validate_service_endpoint url_parse s,
        invalid_if (case svc_credential_file s of None \<Rightarrow> False
                    | Some path \<Rightarrow> \<not> path_is_absolute path \<and> \<not> is_systemd_credential_name path)
          ''collectors.services.credential_file'',
        validate_services url_parse (svc_name s # names) (svc_unit s # units) ss]"

definition validate_service_collectors ::
    "(string \<Rightarrow> url_parts option) \<Rightarrow> service_collector_config list \<Rightarrow> config_check" where
  "validate_service_collectors url_parse services =
     (if length services > 16 then Inl (InvalidField ''collectors.services'')
      else validate_services url_parse [] [] services)"

definition validate_collectors :: "(string \<Rightarrow> url_parts option) \<Rightarrow> collectors_config \<Rightarrow> config_check" where
  "validate_collectors url_parse k =
     checks
       [invalid_if (clc_timeout_ms k = 0) ''collectors.timeout_ms'',
        invalid_if (clc_timeout_ms k > 10000) ''collectors.timeout_ms'',
        invalid_if (\<not> path_eq (clc_cgroup_root k) ''/sys/fs/cgroup'') ''collectors.cgroup_root'',
        (case clc_nginx_status_url k of None \<Rightarrow> Inr ()
         | Some url \<Rightarrow> validate_loopback_http_url url_parse ''collectors.nginx_status_url'' url),
        (case clc_php_fpm_status_url k of None \<Rightarrow> Inr ()
         | Some url \<Rightarrow> validate_loopback_http_url url_parse ''collectors.php_fpm_status_url'' url),
        invalid_if (case clc_mysql_address k of None \<Rightarrow> False | Some a \<Rightarrow> \<not> ip_is_loopback (sa_ip a))
          ''collectors.mysql_address'',
        invalid_if (case clc_redis_address k of None \<Rightarrow> False | Some a \<Rightarrow> \<not> ip_is_loopback (sa_ip a))
          ''collectors.redis_address'',
        invalid_if ((clc_nginx_status_url k \<noteq> None \<or> clc_php_fpm_status_url k \<noteq> None
                     \<or> clc_mysql_address k \<noteq> None \<or> clc_redis_address k \<noteq> None)
                    \<and> clc_services k \<noteq> []) ''collectors'',
        validate_service_collectors url_parse (clc_services k)]"

section \<open>The whole configuration\<close>

definition validate_config :: "'net config_library \<Rightarrow> 'net guard_config \<Rightarrow> config_check" where
  "validate_config lib c =
     checks
       [reject_if (gc_schema_version c \<noteq> CONFIG_SCHEMA_VERSION)
          (UnsupportedConfigSchema CONFIG_SCHEMA_VERSION (gc_schema_version c)),
        validate_edge_hosts (gc_edge c),
        validate_edge_limits (gc_edge c),
        invalid_if (sc_hsts_max_age_seconds (gc_security c) > 63072000) ''security.hsts_max_age_seconds'',
        validate_bot_policy (gc_bot_policy c),
        validate_security (gc_security c) (gc_waf c),
        validate_listeners c,
        all_ok validate_certificate (tc_certificates (gc_tls c)),
        validate_ui (cl_net_addr lib) c,
        validate_cloudflare (cl_net_addr lib) c,
        validate_notifications (cl_url_parse lib) (gc_notifications c),
        validate_retention (gc_retention c),
        validate_storage (gc_storage c),
        validate_collectors (cl_url_parse lib) (gc_collectors c)]"

definition trusts_forwarded_peer :: "('net \<Rightarrow> ip_addr \<Rightarrow> bool) \<Rightarrow> 'net guard_config \<Rightarrow> ip_addr \<Rightarrow> bool" where
  "trusts_forwarded_peer net_contains c peer =
     list_ex (\<lambda>network. net_contains network peer) (ec_trusted_proxy_cidrs (gc_edge c))"

end
