(* ===== verification/Edge_Config.thy ===== *)
theory Edge_Config
  imports Config_Validation Edge_Policy Rate_Limit
begin

text \<open>
  What a validated configuration guarantees to the edge: the rule matcher used when the
  configuration is checked agrees with the one used on requests, the management host is really
  covered by a certificate, and the rate limit budgets of the scopes are nested.
\<close>

section \<open>Two matchers for host rules\<close>

text \<open>A host or rule in the form operators write: it passes validation, has no trailing dot and no bracket.\<close>

definition plain_host :: "string \<Rightarrow> bool" where
  "plain_host h \<longleftrightarrow> validate_host_rule [] h = Inr () \<and> last h \<noteq> CHR ''.'' \<and> hd h \<noteq> CHR ''[''"

lemma not_letter [simp]:
  "\<not> is_ascii_upper (CHR '':'')" "\<not> is_ascii_lower (CHR '':'')"
  "\<not> is_ascii_upper (CHR ''['')" "\<not> is_ascii_lower (CHR ''['')"
  "\<not> is_ascii_upper (CHR ''*'')" "\<not> is_ascii_lower (CHR ''*'')"
  "\<not> is_ascii_upper (CHR ''.'')" "\<not> is_ascii_lower (CHR ''.'')"
  by (simp_all add: is_ascii_upper_def is_ascii_lower_def byte_def)

lemma validate_host_rule_shape:
  assumes "validate_host_rule f h = Inr u"
  shows "trim h = h" and "h \<noteq> []" and "CHR '':'' \<notin> set h"
  using assms by (auto simp: validate_host_rule_def Let_def contains_char_def split: if_splits)

lemma normalize_plain_host:
  assumes "plain_host h"
  shows "normalize_host h = to_ascii_lowercase h"
proof -
  have h: "trim h = h" "h \<noteq> []" "CHR '':'' \<notin> set h"
    using assms validate_host_rule_shape by (auto simp: plain_host_def)
  have "trim_end_matches (CHR ''.'') h = h"
    using assms by (intro trim_end_matches_id) (simp add: plain_host_def)
  moreover have "strip_prefix (to_ascii_lowercase h) ''['' = None"
    using h(2) assms by (cases h) (simp_all add: to_ascii_lowercase_def plain_host_def ascii_lower_eq_iff)
  moreover have "split_once (CHR '':'') (to_ascii_lowercase h) = None"
    using h(3) by (auto simp: split_once_None_iff to_ascii_lowercase_def ascii_lower_eq_iff dest: sym)
  ultimately show ?thesis by (simp add: normalize_host_def h(1) without_port_def)
qed

lemma strip_wildcard_lower:
  "strip_prefix (to_ascii_lowercase r) ''*.'' = map_option to_ascii_lowercase (strip_prefix r ''*.'')"
proof (cases r)
  case (Cons a r')
  then show ?thesis by (cases r') (auto simp: to_ascii_lowercase_def ascii_lower_eq_iff)
qed simp

text \<open>
  The two host matchers agree: on rules and hosts that pass the validation of the configuration,
  without trailing dots and brackets, the matcher that checks certificate coverage when the
  configuration is loaded and the matcher the edge applies to requests give the same answer.
\<close>

theorem host_matchers_agree:
  assumes "plain_host rule" and "plain_host host"
  shows "host_rule_matches rule host = host_matches_rule host rule"
proof (cases "strip_prefix rule ''*.''")
  case None
  then show ?thesis
    using assms strip_wildcard_lower [of rule]
    by (auto simp: host_rule_matches_def host_matches_rule_def normalize_plain_host eq_ignore_ascii_case_def)
next
  case (Some domain)
  then show ?thesis
    using assms strip_wildcard_lower [of rule]
    by (simp add: host_rule_matches_def host_matches_rule_def normalize_plain_host)
qed

theorem host_matchers_agree_witness:
  "plain_host ''*.Example.com'' \<and> plain_host ''guard.example.COM''
   \<and> host_rule_matches ''*.Example.com'' ''guard.example.COM''
   \<and> host_matches_rule ''guard.example.COM'' ''*.Example.com''"
proof -
  have plain: "plain_host ''*.Example.com''" "plain_host ''guard.example.COM''" by code_simp+
  moreover have "host_rule_matches ''*.Example.com'' ''guard.example.COM''" by code_simp
  ultimately show ?thesis using host_matchers_agree [OF plain] by simp
qed

section \<open>Sections of a validated configuration\<close>

lemmas config_sections = validate_config_def outcome_simps invalid_if_def

lemma validated_sections:
  assumes "validate_config lib c = Inr ()"
  shows "validate_edge_hosts (gc_edge c) = Inr ()" and "validate_edge_limits (gc_edge c) = Inr ()"
    and "validate_listeners c = Inr ()" and "validate_ui (cl_net_addr lib) c = Inr ()"
    and "list_all (\<lambda>cert. validate_certificate cert = Inr ()) (tc_certificates (gc_tls c))"
    and "validate_cloudflare (cl_net_addr lib) c = Inr ()"
  using assms unfolding validate_config_def checks_Inr_iff by (auto simp: all_ok_Inr_iff list_all_iff)

lemma validated_public_host:
  assumes "validate_config lib c = Inr ()" and "uc_public_host (gc_ui c) = Some h"
  shows "validate_public_host (cl_net_addr lib) c h = Inr ()"
  using validated_sections(4) [OF assms(1)] assms(2) by (simp add: validate_ui_def Let_def outcome_simps)


section \<open>Nested budgets\<close>

text \<open>The limiter policy the edge derives from a client budget and the configured multipliers.\<close>

abbreviation configured_policy :: "'net edge_config \<Rightarrow> u32 \<Rightarrow> rate_limit_policy" where
  "configured_policy e rpm \<equiv> from_multipliers rpm (ec_prefix_rate_limit_multiplier e)
     (ec_route_rate_limit_multiplier e) (ec_global_rate_limit_multiplier e)"

lemma saturating_mul_mono:
  "b \<le> c \<Longrightarrow> saturating_mul a b \<le> saturating_mul a (c :: 'a::len word)"
  unfolding word_le_nat_alt unat_saturating_mul by (intro min.mono) simp_all

lemma saturating_mul_ge: "b \<noteq> 0 \<Longrightarrow> a \<le> saturating_mul a (b :: 'a::len word)"
proof -
  assume "b \<noteq> 0"
  then have "1 \<le> unat b" by (simp add: Suc_leI unat_gt_0)
  then have "unat a \<le> unat a * unat b" by simp
  moreover have "unat a \<le> 2 ^ LENGTH('a) - 1" using unat_less_pow [of a] by linarith
  ultimately show ?thesis unfolding word_le_nat_alt unat_saturating_mul by simp
qed

text \<open>
  Budgets are nested: with the multipliers of a validated configuration, the budget of a client is
  at most that of its network prefix, that of a prefix at most that of the route class, and that
  of a route class at most that of the whole listener, also where the products saturate.
\<close>

theorem configured_budgets_nested:
  assumes "validate_config lib c = Inr ()"
  shows "let p = configured_policy (gc_edge c) rpm in
           rl_client_rpm p = rpm \<and> rl_client_rpm p \<le> rl_prefix_rpm p
           \<and> rl_prefix_rpm p \<le> rl_route_rpm p \<and> rl_route_rpm p \<le> rl_global_rpm p"
proof -
  have "ec_prefix_rate_limit_multiplier (gc_edge c) \<noteq> 0"
    "ec_prefix_rate_limit_multiplier (gc_edge c) \<le> ec_route_rate_limit_multiplier (gc_edge c)"
    "ec_route_rate_limit_multiplier (gc_edge c) \<le> ec_global_rate_limit_multiplier (gc_edge c)"
    using validated_sections(2) [OF assms]
    by (auto simp: validate_edge_limits_def outcome_simps invalid_if_def not_less)
  then show ?thesis by (simp add: from_multipliers_def Let_def saturating_mul_ge saturating_mul_mono)
qed

section \<open>A configuration\<close>

definition sample_addr :: "u32 \<Rightarrow> u16 \<Rightarrow> socket_addr" where
  "sample_addr a p = \<lparr> sa_ip = V4 a, sa_port = p, sa_flowinfo = 0, sa_scope_id = 0 \<rparr>"

definition sample_edge_config :: "(u32 \<times> nat) edge_config" where
  "sample_edge_config =
     \<lparr> ec_http_bind = sample_addr 0 80, ec_https_bind = Some (sample_addr 0 443), ec_worker_threads = None,
       ec_allowed_hosts = [''example.com''], ec_canonical_host = Some ''example.com'', ec_trusted_proxy_cidrs = [],
       ec_max_body_bytes = 1000, ec_upload_max_body_bytes = 2000, ec_upload_path_prefixes = [''/upload''],
       ec_strict_path_prefixes = [''/login''], ec_upstream_connect_timeout_ms = 1, ec_upstream_read_timeout_ms = 1,
       ec_upload_upstream_read_timeout_ms = 1, ec_max_tracked_clients = 8, ec_max_in_flight_requests = 1024,
       ec_downstream_io_timeout_ms = 30000, ec_downstream_min_send_rate_bps = 1024, ec_keepalive_request_limit = 1000,
       ec_prefix_rate_limit_multiplier = 32, ec_route_rate_limit_multiplier = 128, ec_global_rate_limit_multiplier = 256,
       ec_rate_limit_rpm = Some 120, ec_strict_rate_limit_rpm = None, ec_upload_rate_limit_rpm = None,
       ec_telemetry_socket = ''/run/vps-guard/telemetry.sock'', ec_policy_path = ''/var/lib/vps-guard/policy.json'',
       ec_policy_reload_interval_ms = 1000, ec_challenge_secret_file = None, ec_clearance_ttl_seconds = 600 \<rparr>"

definition sample_config :: "(u32 \<times> nat) guard_config" where
  "sample_config =
     \<lparr> gc_schema_version = 1, gc_edge = sample_edge_config,
       gc_origin = \<lparr> oc_address = sample_addr 0x7f000001 8080, oc_protocol = OriginHttp, oc_sni = None \<rparr>,
       gc_tls = \<lparr> tc_management = TlsAuto, tc_certificates =
         [\<lparr> cc_domains = [''*.example.com''], cc_cert_file = ''/c'', cc_key_file = ''/k'', cc_certbot_lineage = None \<rparr>] \<rparr>,
       gc_ui = \<lparr> uc_bind = sample_addr 0x7f000001 9000, uc_public_host = Some ''guard.example.com'', uc_public_port = 443,
         uc_tls_termination = EdgeTermination, uc_auth_provider = LocalAuth, uc_pam_service = ''vps-guard'',
         uc_pam_allowed_group = ''vpsguard-admin'', uc_role_bindings = [], uc_admin_socket = ''/run/a'',
         uc_privileged_socket = ''/run/p'', uc_login_rate_limit_rpm = 10, uc_language = ''ko'' \<rparr>,
       gc_firewall = default_firewall_config,
       gc_detection = \<lparr> dc_profile = ProfilePhp, dc_inspection = Profiled, dc_mode = EnforceMode \<rparr>,
       gc_bot_policy = \<lparr> bp_block_unapproved_declared_bots = True, bp_allowed_crawlers = [],
         bp_crawler_networks = [], bp_crawler_networks_file = None \<rparr>,
       gc_security = default_security_config, gc_waf = default_waf_config,
       gc_cloudflare = default_cloudflare_config, gc_notifications = default_notification_config,
       gc_retention = \<lparr> rc_live_seconds = 60, rc_detail_hours = 1, rc_aggregate_days = 1, rc_incident_days = 7,
         rc_audit_days = 365, rc_raw_ip_days = 7 \<rparr>,
       gc_storage = default_storage_config, gc_collectors = default_collectors_config \<rparr>"

definition sample_config_library :: "(u32 \<times> nat) config_library" where
  "sample_config_library = \<lparr> cl_net_addr = (\<lambda>n. V4 (fst n)), cl_url_parse = (\<lambda>_. None) \<rparr>"

lemma sample_config_valid: "validate_config sample_config_library sample_config = Inr ()"
  by code_simp


theorem configured_budgets_nested_witness:
  "let p = configured_policy (gc_edge sample_config) 120 in
     rl_client_rpm p = 120 \<and> rl_client_rpm p \<le> rl_prefix_rpm p
     \<and> rl_prefix_rpm p \<le> rl_route_rpm p \<and> rl_route_rpm p \<le> rl_global_rpm p"
  by (rule configured_budgets_nested [OF sample_config_valid])

end
