(* ===== verification/Atomic_Store.thy ===== *)
theory Atomic_Store
  imports Guard_Prelude Rust_Path
begin

text \<open>
  The atomic JSON store of \<open>guard-system/src/atomic_store.rs\<close> over a model of the file system
  calls it makes. A path is the list of its components, which is what Rust compares and what the
  operating system resolves. Every call may fail, and the list of faults that decides it is part of
  the file system state: a process that is killed is one whose remaining calls all fail. The JSON
  encoder is a parameter. The interface \<open>document_store\<close> is what the clients of the store rely on.
\<close>

section \<open>File system calls\<close>

type_synonym path_key = "path_component list"

text \<open>
  A fault carries the message of the operating system and, for a write, how many bytes reached
  the file before it.
\<close>

datatype io_fault = IoFault (fault_message: string) (fault_written: nat)

record file_system =
  fs_files :: "path_key \<rightharpoonup> string"
  fs_faults :: "io_fault option list"
  fs_sequence :: u64

definition next_fault :: "file_system \<Rightarrow> io_fault option \<times> file_system" where
  "next_fault fs = (case fs_faults fs of [] \<Rightarrow> (None, fs) | f # rest \<Rightarrow> (f, fs \<lparr>fs_faults := rest\<rparr>))"

datatype StoreError = StoreEncode string | StoreIo string path_key string | MissingParent path_key

text \<open>A call either fails with the message of its fault or changes the files.\<close>

definition fs_call ::
  "string \<Rightarrow> path_key \<Rightarrow> (file_system \<Rightarrow> file_system) \<Rightarrow> (nat \<Rightarrow> file_system \<Rightarrow> file_system) \<Rightarrow> file_system
   \<Rightarrow> (StoreError + unit) \<times> file_system" where
  "fs_call operation path effect partial fs = (case next_fault fs of
     (None, fs') \<Rightarrow> (Inr (), effect fs')
   | (Some f, fs') \<Rightarrow> (Inl (StoreIo operation path (fault_message f)), partial (fault_written f) fs'))"

definition set_file :: "path_key \<Rightarrow> string option \<Rightarrow> file_system \<Rightarrow> file_system" where
  "set_file p content fs = fs \<lparr>fs_files := (fs_files fs)(p := content)\<rparr>"

section \<open>The store\<close>

definition path_parent :: "path_key \<Rightarrow> path_key option" where
  "path_parent p = (if p = [] \<or> last p = RootDir then None else Some (butlast p))"

definition temp_name :: "u32 \<Rightarrow> u64 \<Rightarrow> string" where
  "temp_name pid sequence = ''.vps-guard-'' @ show_nat (unat pid) @ ''-'' @ show_nat (unat sequence) @ ''.tmp''"

definition write_temp :: "path_key \<Rightarrow> string \<Rightarrow> file_system \<Rightarrow> (StoreError + unit) \<times> file_system" where
  "write_temp path bytes fs =
     (if fs_files fs path \<noteq> None then (Inl (StoreIo ''create_temp'' path ''File exists''), fs)
      else then_call (then_call
        (fs_call ''create_temp'' path (set_file path (Some [])) (\<lambda>_. id) fs)
        (\<lambda>_. fs_call ''write_temp'' path (set_file path (Some bytes)) (\<lambda>n. set_file path (Some (take n bytes)))))
        (\<lambda>_. fs_call ''sync_temp'' path id (\<lambda>_. id)))"

definition rename :: "path_key \<Rightarrow> path_key \<Rightarrow> file_system \<Rightarrow> (StoreError + unit) \<times> file_system" where
  "rename old new =
     fs_call ''rename'' new (\<lambda>fs. set_file old None (set_file new (fs_files fs old) fs)) (\<lambda>_. id)"

text \<open>The closure that writes the temporary file, moves it into place and syncs the directory.\<close>

definition swap_in :: "path_key \<Rightarrow> path_key \<Rightarrow> path_key \<Rightarrow> string \<Rightarrow> file_system \<Rightarrow> (StoreError + unit) \<times> file_system" where
  "swap_in temp path parent bytes fs =
     then_call (then_call (write_temp temp bytes fs) (\<lambda>_. rename temp path))
       (\<lambda>_. fs_call ''sync_parent'' parent id (\<lambda>_. id))"

definition store_write ::
  "('v \<Rightarrow> string + string) \<Rightarrow> u32 \<Rightarrow> path_key \<Rightarrow> 'v \<Rightarrow> file_system \<Rightarrow> (StoreError + unit) \<times> file_system" where
  "store_write to_json pid path v fs = (case path_parent path of
     None \<Rightarrow> (Inl (MissingParent path), fs)
   | Some parent \<Rightarrow> then_call (fs_call ''create_dir_all'' parent id (\<lambda>_. id) fs) (\<lambda>_ fs. case to_json v of
       Inl e \<Rightarrow> (Inl (StoreEncode e), fs)
     | Inr bytes \<Rightarrow>
         let temp = parent @ [NormalComp (temp_name pid (fs_sequence fs))];
             fs = fs \<lparr>fs_sequence := fs_sequence fs + 1\<rparr>
         in case swap_in temp path parent bytes fs of
              (Inr _, fs) \<Rightarrow> (Inr (), fs)
            | (Inl e, fs) \<Rightarrow> (Inl e, snd (fs_call ''remove_temp'' temp (set_file temp None) (\<lambda>_. id) fs))))"

definition store_exists :: "path_key \<Rightarrow> file_system \<Rightarrow> bool" where
  "store_exists path fs \<longleftrightarrow> fs_files fs path \<noteq> None"

definition store_read ::
  "(string \<Rightarrow> string + 'v) \<Rightarrow> path_key \<Rightarrow> file_system \<Rightarrow> (StoreError + 'v) \<times> file_system" where
  "store_read of_json path fs = (case next_fault fs of
     (Some f, fs') \<Rightarrow> (Inl (StoreIo ''read'' path (fault_message f)), fs')
   | (None, fs') \<Rightarrow> (case fs_files fs' path of
       None \<Rightarrow> (Inl (StoreIo ''read'' path ''No such file or directory''), fs')
     | Some bytes \<Rightarrow> (map_err StoreEncode (of_json bytes), fs')))"

section \<open>What a call can change\<close>

lemma files_next_fault [simp]: "fs_files (snd (next_fault fs)) = fs_files fs"
  by (simp add: next_fault_def split: list.split)

lemma next_fault_files: "next_fault fs = (f, fs') \<Longrightarrow> fs_files fs' = fs_files fs"
  using files_next_fault [of fs] by simp

lemma files_set_file [simp]: "fs_files (set_file p c fs) = (fs_files fs)(p := c)"
  by (simp add: set_file_def)

lemma files_sequence [simp]: "fs_files (fs \<lparr>fs_sequence := n\<rparr>) = fs_files fs"
  by simp

lemma fs_call_elim:
  assumes "fs_call op p eff part fs = (r, fs')"
  obtains (ok) fs1 where "r = Inr ()" "fs' = eff fs1" "fs_files fs1 = fs_files fs"
    | (failed) fs1 e n where "r = Inl e" "fs' = part n fs1" "fs_files fs1 = fs_files fs"
proof -
  obtain f fs1 where nf: "next_fault fs = (f, fs1)" by force
  then have "fs_files fs1 = fs_files fs" using files_next_fault [of fs] by simp
  with assms nf that show thesis by (cases f) (auto simp: fs_call_def)
qed

lemma fs_call_same:
  assumes "fs_call op p eff part fs = (r, fs')"
    and "\<And>fs. fs_files (eff fs) q = fs_files fs q" and "\<And>n fs. fs_files (part n fs) q = fs_files fs q"
  shows "fs_files fs' q = fs_files fs q"
  using assms(1) by (cases rule: fs_call_elim) (simp_all add: assms(2,3))

lemma write_temp_other:
  assumes "write_temp p bytes fs = (r, fs')" and "q \<noteq> p"
  shows "fs_files fs' q = fs_files fs q"
  using assms
  by (auto simp: write_temp_def split: if_splits elim!: then_call_elim dest!: fs_call_same [where q = q])

lemma write_temp_written:
  assumes "write_temp p bytes fs = (Inr (), fs')"
  shows "fs_files fs' p = Some bytes"
proof -
  from assms obtain fs1 fs2 where w: "fs_call ''write_temp'' p (set_file p (Some bytes))
      (\<lambda>n. set_file p (Some (take n bytes))) fs1 = (Inr (), fs2)"
    and s: "fs_call ''sync_temp'' p id (\<lambda>_. id) fs2 = (Inr (), fs')"
    by (auto simp: write_temp_def split: if_splits elim!: then_call_elim)
  from w have "fs_files fs2 p = Some bytes" by (auto elim!: fs_call_elim)
  with fs_call_same [OF s, of p] show ?thesis by simp
qed

lemma rename_effect:
  assumes "rename old new fs = (r, fs')" and "old \<noteq> new"
  shows "fs_files fs' new = (if r = Inr () then fs_files fs old else fs_files fs new)"
  using assms by (auto simp: rename_def elim!: fs_call_elim)

section \<open>The interface\<close>

text \<open>
  What a client of a document store relies on. A write that reports success has stored the encoded
  document. A write that reports an error has left the previous document or has stored the new one,
  never a part of either.
\<close>

locale document_store =
  fixes put :: "'p \<Rightarrow> 'v \<Rightarrow> 's \<Rightarrow> ('e + unit) \<times> 's"
    and stored :: "'p \<Rightarrow> 's \<Rightarrow> 'b option"
    and encodes :: "'v \<Rightarrow> 'b \<Rightarrow> bool"
    and usable :: "'p \<Rightarrow> bool"
  assumes write_stores: "usable p \<Longrightarrow> put p v s = (Inr (), s') \<Longrightarrow> \<exists>b. stored p s' = Some b \<and> encodes v b"
    and write_atomic: "usable p \<Longrightarrow> put p v s = (Inl e, s') \<Longrightarrow>
          stored p s' = stored p s \<or> (\<exists>b. stored p s' = Some b \<and> encodes v b)"
begin

text \<open>Every document a store holds after a run of writes is one of those the run was given.\<close>

definition writes :: "'p \<Rightarrow> 's \<Rightarrow> 'v list \<Rightarrow> 's" where
  "writes p s vs = run (\<lambda>s v. snd (put p v s)) s vs"

lemma stored_after_write:
  assumes "usable p"
  shows "stored p (snd (put p v s)) = stored p s \<or> (\<exists>b. stored p (snd (put p v s)) = Some b \<and> encodes v b)"
proof (cases "put p v s")
  case (Pair r s')
  then show ?thesis
    using write_stores [OF assms, of v s s'] write_atomic [OF assms, of v s _ s'] by (cases r) auto
qed

lemma stored_after_writes:
  assumes "usable p"
  shows "stored p (writes p s vs) = stored p s \<or> (\<exists>v \<in> set vs. \<exists>b. stored p (writes p s vs) = Some b \<and> encodes v b)"
proof (induction vs rule: rev_induct)
  case (snoc v vs)
  then show ?case
    using stored_after_write [OF assms, of v "writes p s vs"] by (auto simp: writes_def run_snoc)
qed (simp add: writes_def)

lemma kept_by_write:
  assumes "usable p" and "\<And>b. stored p s = Some b \<Longrightarrow> good b" and "\<And>b. encodes v b \<Longrightarrow> good b"
    and "put p v s = (r, s')" and "stored p s' = Some b"
  shows "good b"
  using stored_after_write [OF assms(1), of v s] assms(2-5) by auto

end

text \<open>A document must not be named like a temporary file of the store.\<close>

definition ordinary_path :: "path_key \<Rightarrow> bool" where
  "ordinary_path p \<longleftrightarrow> (case rev p of NormalComp n # _ \<Rightarrow> \<not> starts_with n ''.vps-guard-'' | _ \<Rightarrow> True)"

lemma ordinary_not_temp: "ordinary_path p \<Longrightarrow> p \<noteq> parent @ [NormalComp (temp_name pid n)]"
  by (auto simp: ordinary_path_def temp_name_def starts_with_def)

lemma swap_in_effect:
  assumes "swap_in temp p parent b fs = (r, fs')" and "temp \<noteq> p"
  shows "fs_files fs' p = Some b \<or> (\<exists>e. r = Inl e) \<and> fs_files fs' p = fs_files fs p"
  using assms(1) unfolding swap_in_def
proof (cases rule: then_call_elim)
  case (stop e)
  from stop(1) show ?thesis
  proof (cases rule: then_call_elim)
    case (stop e')
    with write_temp_other [OF stop(1), of p] assms(2) \<open>r = Inl e\<close> show ?thesis by auto
  next
    case (go u fs1)
    with write_temp_other [OF go(1), of p] rename_effect [OF go(2)] assms(2) \<open>r = Inl e\<close>
    show ?thesis by auto
  qed
next
  case (go u fs1)
  from go(1) obtain fs2 where w: "write_temp temp b fs = (Inr (), fs2)" and m: "rename temp p fs2 = (Inr (), fs1)"
    by (cases rule: then_call_elim) auto
  have "fs_files fs1 p = Some b"
    using write_temp_written [OF w] rename_effect [OF m assms(2)] by simp
  with fs_call_same [OF go(2), of p] show ?thesis by simp
qed

lemma store_write_effect:
  assumes "ordinary_path p" and "store_write to_json pid p v fs = (r, fs')"
  shows "(\<exists>b. to_json v = Inr b \<and> fs_files fs' p = Some b) \<or> (\<exists>e. r = Inl e) \<and> fs_files fs' p = fs_files fs p"
proof (cases "path_parent p")
  case None
  with assms(2) show ?thesis by (auto simp: store_write_def)
next
  case (Some parent)
  obtain r1 fs1 where dirs: "fs_call ''create_dir_all'' parent id (\<lambda>_. id) fs = (r1, fs1)" by force
  have same: "fs_files fs1 p = fs_files fs p" by (rule fs_call_same [OF dirs]) simp_all
  show ?thesis
  proof (cases "\<exists>b. r1 = Inr () \<and> to_json v = Inr b")
    case False
    with assms(2) Some dirs same show ?thesis
      by (cases r1; cases "to_json v") (auto simp: store_write_def then_call_def)
  next
    case True
    then obtain b where b: "r1 = Inr ()" "to_json v = Inr b" by auto
    define temp where "temp = parent @ [NormalComp (temp_name pid (fs_sequence fs1))]"
    have temp: "temp \<noteq> p" using ordinary_not_temp [OF assms(1)] by (auto simp: temp_def)
    obtain r2 fs2 where swap: "swap_in temp p parent b (fs1 \<lparr>fs_sequence := fs_sequence fs1 + 1\<rparr>) = (r2, fs2)" by force
    have "fs_files (snd (fs_call ''remove_temp'' temp (set_file temp None) (\<lambda>_. id) fs2)) p = fs_files fs2 p"
      by (rule fs_call_same [OF prod.collapse [symmetric]]) (simp_all add: temp [symmetric])
    with assms(2) Some dirs b swap have "r = r2" "fs_files fs' p = fs_files fs2 p"
      by (cases r2; simp add: store_write_def then_call_def Let_def flip: temp_def)+
    with swap_in_effect [OF swap temp] b same show ?thesis by auto
  qed
qed

text \<open>Other documents are not touched.\<close>

lemma swap_in_other:
  assumes "swap_in temp p parent b fs = (r, fs')" and "q \<noteq> temp" "q \<noteq> p"
  shows "fs_files fs' q = fs_files fs q"
proof -
  have rename_other: "fs_files fs2 q = fs_files fs1 q" if "rename temp p fs1 = (r1, fs2)" for fs1 fs2 r1
    using that assms(2,3) by (auto simp: rename_def elim!: fs_call_elim)
  have sync: "fs_files fs2 q = fs_files fs1 q" if "fs_call op d id (\<lambda>_. id) fs1 = (r1, fs2)" for op d fs1 fs2 r1
    by (rule fs_call_same [OF that]) simp_all
  from assms(1) show ?thesis unfolding swap_in_def
  proof (cases rule: then_call_elim)
    case (stop e)
    from stop(1) show ?thesis
      by (cases rule: then_call_elim) (use assms(2) write_temp_other rename_other in fastforce)+
  next
    case (go u fs2)
    from go(1) have "fs_files fs2 q = fs_files fs q"
      by (cases rule: then_call_elim) (use assms(2) write_temp_other rename_other in fastforce)+
    with sync [OF go(2)] show ?thesis by simp
  qed
qed

lemma store_write_other:
  assumes "store_write to_json pid p v fs = (r, fs')" and "ordinary_path q" "q \<noteq> p"
  shows "fs_files fs' q = fs_files fs q"
proof (cases "path_parent p")
  case None
  with assms(1) show ?thesis by (simp add: store_write_def)
next
  case (Some parent)
  obtain r1 fs1 where dirs: "fs_call ''create_dir_all'' parent id (\<lambda>_. id) fs = (r1, fs1)" by force
  have same: "fs_files fs1 q = fs_files fs q" by (rule fs_call_same [OF dirs]) simp_all
  show ?thesis
  proof (cases "\<exists>b. r1 = Inr () \<and> to_json v = Inr b")
    case False
    with assms(1) Some dirs same show ?thesis
      by (cases r1; cases "to_json v") (auto simp: store_write_def then_call_def)
  next
    case True
    then obtain b where b: "r1 = Inr ()" "to_json v = Inr b" by auto
    define temp where "temp = parent @ [NormalComp (temp_name pid (fs_sequence fs1))]"
    have temp: "q \<noteq> temp" using ordinary_not_temp [OF assms(2)] by (auto simp: temp_def)
    obtain r2 fs2 where swap: "swap_in temp p parent b (fs1 \<lparr>fs_sequence := fs_sequence fs1 + 1\<rparr>) = (r2, fs2)" by force
    have "fs_files (snd (fs_call ''remove_temp'' temp (set_file temp None) (\<lambda>_. id) fs2)) q = fs_files fs2 q"
      by (rule fs_call_same [OF prod.collapse [symmetric]]) (simp_all add: temp)
    with assms(1) Some dirs b swap have "fs_files fs' q = fs_files fs2 q"
      by (cases r2; simp add: store_write_def then_call_def Let_def flip: temp_def)
    with swap_in_other [OF swap temp assms(3)] same show ?thesis by simp
  qed
qed

lemma store_read_same: "store_read of_json p fs = (r, fs') \<Longrightarrow> fs_files fs' = fs_files fs"
  by (auto simp: store_read_def split: prod.splits option.splits dest: next_fault_files)

interpretation json_store: document_store "store_write to_json pid" "\<lambda>p fs. fs_files fs p"
    "\<lambda>v b. to_json v = Inr b" ordinary_path for to_json pid
  using store_write_effect by unfold_locales fastforce+

text \<open>With no fault ahead and no temporary file left behind, a write of an encodable document succeeds.\<close>

definition quiet_store :: "u32 \<Rightarrow> path_key \<Rightarrow> file_system \<Rightarrow> bool" where
  "quiet_store pid path fs \<longleftrightarrow> fs_faults fs = [] \<and> path_parent path \<noteq> None
     \<and> (\<forall>n. fs_files fs (butlast path @ [NormalComp (temp_name pid n)]) = None)"

lemma fs_call_quiet: "fs_faults fs = [] \<Longrightarrow> fs_call op p eff part fs = (Inr (), eff fs)"
  by (simp add: fs_call_def next_fault_def)

lemma store_write_quiet:
  assumes "ordinary_path path" "quiet_store pid path fs" "to_json v = Inr b"
  shows "\<exists>fs'. store_write to_json pid path v fs = (Inr (), fs') \<and> quiet_store pid path fs'"
proof -
  let ?temp = "butlast path @ [NormalComp (temp_name pid (fs_sequence fs))]"
  from assms(2) have parent: "path_parent path = Some (butlast path)" and faults: "fs_faults fs = []"
    and free: "\<And>n. fs_files fs (butlast path @ [NormalComp (temp_name pid n)]) = None"
    by (auto simp: quiet_store_def path_parent_def split: if_splits)
  have "store_write to_json pid path v fs = (Inr (), set_file ?temp None (set_file path (Some b)
      (set_file ?temp (Some b) (set_file ?temp (Some []) (fs \<lparr>fs_sequence := fs_sequence fs + 1\<rparr>)))))"
    by (simp add: store_write_def parent assms(3) fs_call_quiet faults swap_in_def write_temp_def rename_def free set_file_def Let_def)
  moreover have "butlast path @ [NormalComp (temp_name pid n)] \<noteq> path" for n
    using ordinary_not_temp [OF assms(1), of "butlast path" pid n] by metis
  ultimately show ?thesis using faults free parent by (auto simp: quiet_store_def set_file_def)
qed

end
