(* ===== verification/Operation.thy ===== *)
theory Operation
  imports Atomic_Store
begin

text \<open>
  The transaction engine of \<open>guard-system/src/operation.rs\<close>: plans and their contract, the ledger
  that makes a transaction resumable, the operation lock, and the loop that runs the phases of a
  plan, checks the time budgets and rolls back. The driver that changes the operating system is the
  trait \<open>OperationDriver\<close>, a record of functions on a driver state; the JSON codec, SHA-256, the
  process id and the clock are parameters. The fixed explanatory prose of errors is left out, their
  codes and measured values are kept.
\<close>

section \<open>Plans\<close>

definition OPERATION_SCHEMA_VERSION :: u32 where "OPERATION_SCHEMA_VERSION = 1"

definition MAX_PREFLIGHT_MS :: u64 where "MAX_PREFLIGHT_MS = 60000"
definition MAX_PUBLIC_INTERRUPTION_MS :: u64 where "MAX_PUBLIC_INTERRUPTION_MS = 5000"
definition MAX_ROLLBACK_MS :: u64 where "MAX_ROLLBACK_MS = 10000"
definition MAX_APPLY_MS :: u64 where "MAX_APPLY_MS = 60000"
definition MAX_RESTORE_MS :: u64 where "MAX_RESTORE_MS = 30000"

lemmas budget_limits =
  MAX_PREFLIGHT_MS_def MAX_PUBLIC_INTERRUPTION_MS_def MAX_ROLLBACK_MS_def MAX_APPLY_MS_def MAX_RESTORE_MS_def

datatype OperationKind = KindApply | KindRestore | KindUpdate | BypassEnable | BypassDisable

datatype OperationPhase =
  Preflight | Snapshot | StageRelease | ValidateCandidate | RestoreOwnedState | SwitchIngress
  | ActivateRelease | VerifyTarget | Commit | Rollback

fun kind_phases :: "OperationKind \<Rightarrow> OperationPhase list" where
  "kind_phases KindRestore = [Preflight, Snapshot, ValidateCandidate, RestoreOwnedState, VerifyTarget, Commit]"
| "kind_phases KindUpdate = [Preflight, Snapshot, StageRelease, ValidateCandidate, ActivateRelease, VerifyTarget, Commit]"
| "kind_phases _ = [Preflight, Snapshot, StageRelease, ValidateCandidate, SwitchIngress, VerifyTarget, Commit]"

fun maximum_operation_ms :: "OperationKind \<Rightarrow> u64" where
  "maximum_operation_ms KindApply = MAX_APPLY_MS"
| "maximum_operation_ms KindUpdate = MAX_APPLY_MS"
| "maximum_operation_ms _ = MAX_RESTORE_MS"

datatype IngressTopology = NginxPublic | VpsGuardPublic | ApachePublic | ApacheGuarded

datatype SnapshotResource =
  OwnedPath string | OwnedDirectoryPresence string | ProtectedPathIdentity string | SystemAccount string
  | IngressFile string | IngressSymlink string | ApacheIngressFile string | ApacheIngressSymlink string
  | SystemdService string | CertificateFingerprint string | ListenerInventory

record OperationBudgets =
  ob_preflight_ms :: u64
  ob_phase_ms :: u64
  ob_public_interruption_ms :: u64
  ob_rollback_ms :: u64
  ob_operation_ms :: u64

definition budgets_for_kind :: "OperationKind \<Rightarrow> OperationBudgets" where
  "budgets_for_kind kind =
     \<lparr>ob_preflight_ms = MAX_PREFLIGHT_MS, ob_phase_ms = 15000,
      ob_public_interruption_ms = MAX_PUBLIC_INTERRUPTION_MS, ob_rollback_ms = MAX_ROLLBACK_MS,
      ob_operation_ms = maximum_operation_ms kind\<rparr>"

text \<open>A duration made from milliseconds; only its milliseconds are read.\<close>

fun timeout_for :: "OperationBudgets \<Rightarrow> OperationPhase \<Rightarrow> u64" where
  "timeout_for b Preflight = ob_preflight_ms b"
| "timeout_for b SwitchIngress = ob_public_interruption_ms b"
| "timeout_for b ActivateRelease = ob_public_interruption_ms b"
| "timeout_for b Rollback = ob_rollback_ms b"
| "timeout_for b _ = ob_phase_ms b"

record OperationPlan =
  op_schema_version :: u32
  op_operation_id :: string
  op_operation :: OperationKind
  op_release_id :: string
  op_source_topology :: IngressTopology
  op_target_topology :: IngressTopology
  op_resources :: "SnapshotResource list"
  op_budgets :: OperationBudgets

definition new_plan ::
  "string \<Rightarrow> OperationKind \<Rightarrow> string \<Rightarrow> IngressTopology \<Rightarrow> IngressTopology \<Rightarrow> SnapshotResource list \<Rightarrow> OperationPlan" where
  "new_plan operation_id operation release_id source target resources =
     \<lparr>op_schema_version = OPERATION_SCHEMA_VERSION, op_operation_id = operation_id, op_operation = operation,
      op_release_id = release_id, op_source_topology = source, op_target_topology = target,
      op_resources = resources, op_budgets = budgets_for_kind operation\<rparr>"

datatype OperationContractError =
  UnsupportedOperationSchema u32 | InvalidIdentifier string string | UnchangedTopology
  | ExcessiveBudget string | EmptySnapshot | MissingListenerInventory | ForeignSnapshotPath string
  | ForeignService string | ForeignSystemAccount string | PlanJson string

section \<open>The contract of a plan\<close>

definition validate_budgets :: "OperationKind \<Rightarrow> OperationBudgets \<Rightarrow> OperationContractError + unit" where
  "validate_budgets kind b = checks
     [reject_if (ob_preflight_ms b = 0 \<or> ob_preflight_ms b > MAX_PREFLIGHT_MS) (ExcessiveBudget ''preflight''),
      reject_if (ob_phase_ms b = 0 \<or> ob_phase_ms b > MAX_APPLY_MS) (ExcessiveBudget ''phase''),
      reject_if (ob_public_interruption_ms b = 0 \<or> ob_public_interruption_ms b > MAX_PUBLIC_INTERRUPTION_MS)
        (ExcessiveBudget ''public ingress''),
      reject_if (ob_rollback_ms b = 0 \<or> ob_rollback_ms b > MAX_ROLLBACK_MS) (ExcessiveBudget ''rollback''),
      reject_if (ob_operation_ms b = 0 \<or> ob_operation_ms b > maximum_operation_ms kind) (ExcessiveBudget ''operation'')]"

definition validate_identifier :: "string \<Rightarrow> string \<Rightarrow> OperationContractError + unit" where
  "validate_identifier field v = reject_if
     (\<not> (v \<noteq> [] \<and> length v \<le> 128 \<and> list_all (\<lambda>c. is_ascii_alphanumeric c \<or> c \<in> set ''-_.'') v))
     (InvalidIdentifier field v)"

definition validate_absolute_file :: "string \<Rightarrow> OperationContractError + unit" where
  "validate_absolute_file path = reject_if
     (\<not> (path_is_absolute path \<and> path_file_name path \<noteq> None
         \<and> \<not> list_ex (\<lambda>c. c = ParentDir \<or> c = CurDir) (path_components path)
         \<and> \<not> list_ex (\<lambda>c. c \<in> set ''*?[]'' \<or> c = CHR 0x0A \<or> c = CHR 0x0D) path))
     (ForeignSnapshotPath path)"

definition allowed_path :: "bool \<Rightarrow> string \<Rightarrow> OperationContractError + unit" where
  "allowed_path allowed path =
     and_then (validate_absolute_file path) (\<lambda>_. reject_if (\<not> allowed) (ForeignSnapshotPath path))"

definition validate_owned_path :: "string \<Rightarrow> OperationContractError + unit" where
  "validate_owned_path path = allowed_path
     (list_ex (starts_with path)
        [''/etc/vps-guard/'', ''/var/lib/vps-guard/'', ''/run/vps-guard/'', ''/usr/local/libexec/vps-guard/'',
         ''/etc/systemd/system/vps-guard-'']
      \<or> path \<in> set
        [''/usr/local/bin/vps-guard'', ''/usr/local/bin/vps-guard-control'', ''/usr/local/bin/vps-guard-privileged'',
         ''/usr/local/bin/vps-guard-edge'', ''/usr/local/lib/vps-guard/current'', ''/usr/lib/tmpfiles.d/vps-guard.conf'',
         ''/etc/pam.d/vps-guard'', ''/etc/letsencrypt/renewal-hooks/deploy/vps-guard'']) path"

definition validate_owned_directory :: "string \<Rightarrow> OperationContractError + unit" where
  "validate_owned_directory path = allowed_path (path \<in> set
     [''/usr/local/lib/vps-guard/releases'', ''/usr/local/lib/vps-guard'', ''/usr/local/libexec/vps-guard'',
      ''/etc/systemd/system/vps-guard-control.service.d'', ''/etc/systemd/system/vps-guard-edge.service.d'',
      ''/etc/vps-guard/secrets'', ''/etc/vps-guard/apache'', ''/etc/vps-guard'', ''/run/vps-guard'',
      ''/run/vps-guard-privileged'', ''/var/lib/vps-guard'']) path"

definition validate_protected_path :: "string \<Rightarrow> OperationContractError + unit" where
  "validate_protected_path path = allowed_path
     (path \<in> set [''/etc/ssh'', ''/etc/nginx'', ''/etc/letsencrypt'', ''/home/g7devops/public_html'']) path"

definition validate_ingress_path :: "string \<Rightarrow> bool \<Rightarrow> OperationContractError + unit" where
  "validate_ingress_path path symlink = allowed_path
     (if symlink then path_starts_with path ''/etc/nginx/sites-enabled/''
      else path_starts_with path ''/etc/nginx/sites-available/''
        \<or> path_starts_with path ''/etc/nginx/sites-enabled/''
        \<or> path_starts_with path ''/etc/nginx/conf.d/'') path"

definition validate_apache_ingress_path :: "string \<Rightarrow> bool \<Rightarrow> OperationContractError + unit" where
  "validate_apache_ingress_path path symlink = allowed_path
     (if symlink then path_starts_with path ''/etc/apache2/sites-enabled/''
        \<or> path_starts_with path ''/etc/apache2/conf-enabled/''
        \<or> path_starts_with path ''/etc/apache2/mods-enabled/''
      else path_starts_with path ''/etc/apache2/sites-available/''
        \<or> path_starts_with path ''/etc/apache2/sites-enabled/''
        \<or> path_starts_with path ''/etc/apache2/conf-available/''
        \<or> path_starts_with path ''/etc/apache2/conf-enabled/'') path"

fun validate_resource :: "SnapshotResource \<Rightarrow> OperationContractError + unit" where
  "validate_resource (OwnedPath path) = validate_owned_path path"
| "validate_resource (OwnedDirectoryPresence path) = validate_owned_directory path"
| "validate_resource (ProtectedPathIdentity path) = validate_protected_path path"
| "validate_resource (SystemAccount name) = reject_if (name \<noteq> ''vps-guard'') (ForeignSystemAccount name)"
| "validate_resource (IngressFile path) = validate_ingress_path path False"
| "validate_resource (IngressSymlink path) = validate_ingress_path path True"
| "validate_resource (ApacheIngressFile path) = validate_apache_ingress_path path False"
| "validate_resource (ApacheIngressSymlink path) = validate_apache_ingress_path path True"
| "validate_resource (SystemdService unit_name) = reject_if (unit_name \<notin> set
     [''nginx.service'', ''apache2.service'', ''php8.5-fpm.service'', ''mysql.service'', ''redis-server.service'',
      ''g7-queue.service'', ''g7-scheduler.service'', ''g7-reverb.service'', ''vps-guard-control.service'',
      ''vps-guard-privileged.service'', ''vps-guard-privileged.socket'', ''vps-guard-edge.service''])
     (ForeignService unit_name)"
| "validate_resource (CertificateFingerprint path) = allowed_path
     (path_starts_with path ''/etc/letsencrypt/live/''
        \<and> path_file_name path \<in> {Some ''cert.pem'', Some ''fullchain.pem''}
      \<or> path_starts_with path ''/etc/ssl/'' \<and> path_extension path \<in> {Some ''pem'', Some ''crt''}) path"
| "validate_resource ListenerInventory = Inr ()"

definition validate_plan :: "OperationPlan \<Rightarrow> OperationContractError + unit" where
  "validate_plan plan = checks
     [reject_if (op_schema_version plan \<noteq> OPERATION_SCHEMA_VERSION) (UnsupportedOperationSchema (op_schema_version plan)),
      validate_identifier ''operation_id'' (op_operation_id plan),
      validate_identifier ''release_id'' (op_release_id plan),
      reject_if (op_operation plan \<notin> {KindUpdate, KindRestore} \<and> op_source_topology plan = op_target_topology plan)
        UnchangedTopology,
      validate_budgets (op_operation plan) (op_budgets plan),
      reject_if (op_resources plan = []) EmptySnapshot,
      all_ok validate_resource (op_resources plan),
      reject_if (\<not> list_ex (\<lambda>r. r = ListenerInventory) (op_resources plan)) MissingListenerInventory]"

section \<open>The ledger\<close>

record PhaseReport =
  pr_phase :: OperationPhase
  pr_elapsed_ms :: u64
  pr_public_interruption_ms :: u64

text \<open>The measured cause of an issue; a driver reports its own text.\<close>

datatype issue_cause =
  CauseText string | ReportMismatch OperationPhase OperationPhase | PhaseTimeout OperationPhase u64 u64
  | InterruptionMeasure u64 u64 | BudgetLimit u64 | RollbackReport PhaseReport

record OperationIssue =
  oi_code :: string
  oi_cause :: issue_cause

definition budget_issue :: "string \<Rightarrow> issue_cause \<Rightarrow> OperationIssue" where
  "budget_issue code cause = \<lparr>oi_code = code, oi_cause = cause\<rparr>"

datatype OperationStatus = Running | RollingBack | Succeeded | FailedStatus | RolledBack | RollbackFailed

record OperationState =
  os_schema_version :: u32
  os_operation_id :: string
  os_plan_sha256 :: string
  os_status :: OperationStatus
  os_current_phase :: "OperationPhase option"
  os_completed :: "PhaseReport list"
  os_last_issue :: "OperationIssue option"
  os_rollback_issue :: "OperationIssue option"

record LockRecord =
  lr_schema_version :: u32
  lr_operation_id :: string
  lr_pid :: u32
  lr_acquired_at :: string

text \<open>The library functions the engine calls, and its process id and clock.\<close>

record operation_library =
  ol_plan_json :: "OperationPlan \<Rightarrow> string + string"
  ol_sha256_hex :: "string \<Rightarrow> string"
  ol_state_to_json :: "OperationState \<Rightarrow> string + string"
  ol_state_of_json :: "string \<Rightarrow> string + OperationState"
  ol_lock_to_json :: "LockRecord \<Rightarrow> string + string"
  ol_lock_of_json :: "string \<Rightarrow> string + LockRecord"
  ol_pid :: u32
  ol_now :: string

datatype state_conflict =
  UnsupportedStateSchema u32 | DifferentPlan | PhaseOrder OperationPhase
  | UnexpectedPhase "OperationPhase option" OperationPhase | StatusMismatch OperationStatus

datatype OperationEngineError =
  ContractError OperationContractError | StoreFailure StoreError | LockIo string path_key string | Busy string
  | StateConflict state_conflict | TerminalState OperationStatus | OperationFailed string bool

definition plan_sha256 :: "operation_library \<Rightarrow> OperationPlan \<Rightarrow> OperationContractError + string" where
  "plan_sha256 lib plan =
     and_then (validate_plan plan) (\<lambda>_.
     and_then (map_err PlanJson (ol_plan_json lib plan)) (\<lambda>bytes. Inr (ol_sha256_hex lib bytes)))"

definition new_state :: "operation_library \<Rightarrow> OperationPlan \<Rightarrow> OperationContractError + OperationState" where
  "new_state lib plan = and_then (plan_sha256 lib plan) (\<lambda>h. Inr
     \<lparr>os_schema_version = OPERATION_SCHEMA_VERSION, os_operation_id = op_operation_id plan, os_plan_sha256 = h,
      os_status = Running, os_current_phase = None, os_completed = [], os_last_issue = None,
      os_rollback_issue = None\<rparr>)"

definition normal_reports :: "OperationState \<Rightarrow> PhaseReport list" where
  "normal_reports s = filter (\<lambda>r. pr_phase r \<noteq> Rollback) (os_completed s)"

definition normal_phase_count :: "OperationState \<Rightarrow> nat" where
  "normal_phase_count s = length (normal_reports s)"

definition state_elapsed_ms :: "OperationState \<Rightarrow> u64" where
  "state_elapsed_ms s = sum_list (map pr_elapsed_ms (normal_reports s))"

definition state_interruption_ms :: "OperationState \<Rightarrow> u64" where
  "state_interruption_ms s = sum_list (map pr_public_interruption_ms (normal_reports s))"

definition slice_get :: "'a list \<Rightarrow> nat \<Rightarrow> 'a option" where
  "slice_get xs i = (if i < length xs then Some (xs ! i) else None)"

text \<open>The first report that is not the phase the plan has at its index.\<close>

fun out_of_order :: "OperationPhase list \<Rightarrow> nat \<Rightarrow> PhaseReport list \<Rightarrow> OperationPhase option" where
  "out_of_order phases i [] = None"
| "out_of_order phases i (r # rs) =
     (if slice_get phases i \<noteq> Some (pr_phase r) then Some (pr_phase r) else out_of_order phases (Suc i) rs)"

definition rollback_complete :: "OperationState \<Rightarrow> bool" where
  "rollback_complete s \<longleftrightarrow> os_completed s \<noteq> [] \<and> pr_phase (last (os_completed s)) = Rollback"

definition valid_status :: "OperationPhase list \<Rightarrow> OperationState \<Rightarrow> bool" where
  "valid_status phases s = (case os_status s of
     Running \<Rightarrow> \<not> rollback_complete s
   | RollingBack \<Rightarrow> os_current_phase s = Some Rollback \<and> \<not> rollback_complete s
   | Succeeded \<Rightarrow> os_current_phase s = None \<and> normal_phase_count s = length phases
       \<and> \<not> rollback_complete s \<and> os_last_issue s = None \<and> os_rollback_issue s = None
   | FailedStatus \<Rightarrow> os_current_phase s = None \<and> \<not> rollback_complete s \<and> os_last_issue s \<noteq> None
   | RolledBack \<Rightarrow> os_current_phase s = None \<and> rollback_complete s \<and> os_last_issue s \<noteq> None
       \<and> os_rollback_issue s = None
   | RollbackFailed \<Rightarrow> os_current_phase s = None \<and> \<not> rollback_complete s \<and> os_last_issue s \<noteq> None
       \<and> os_rollback_issue s \<noteq> None)"

definition expected_phase :: "OperationPhase list \<Rightarrow> OperationState \<Rightarrow> OperationPhase option" where
  "expected_phase phases s =
     (if os_status s = RollingBack then Some Rollback else slice_get phases (normal_phase_count s))"

definition validate_for :: "operation_library \<Rightarrow> OperationState \<Rightarrow> OperationPlan \<Rightarrow> OperationEngineError + unit" where
  "validate_for lib s plan =
     (if os_schema_version s \<noteq> OPERATION_SCHEMA_VERSION
      then Inl (StateConflict (UnsupportedStateSchema (os_schema_version s)))
      else and_then (map_err ContractError (plan_sha256 lib plan)) (\<lambda>expected_hash.
        if os_operation_id s \<noteq> op_operation_id plan \<or> os_plan_sha256 s \<noteq> expected_hash
        then Inl (StateConflict DifferentPlan)
        else let phases = kind_phases (op_operation plan) in
          case out_of_order phases 0 (normal_reports s) of
            Some phase \<Rightarrow> Inl (StateConflict (PhaseOrder phase))
          | None \<Rightarrow>
              and_then (case os_current_phase s of
                  None \<Rightarrow> Inr ()
                | Some phase \<Rightarrow> reject_if (expected_phase phases s \<noteq> Some phase)
                    (StateConflict (UnexpectedPhase (expected_phase phases s) phase)))
                (\<lambda>_. reject_if (\<not> valid_status phases s) (StateConflict (StatusMismatch (os_status s))))))"

section \<open>The engine\<close>

text \<open>
  The driver trait: running a phase or the rollback of a plan within a timeout, as a function of
  the driver's own state.
\<close>

record 'd OperationDriver =
  drv_run_phase :: "OperationPlan \<Rightarrow> OperationPhase \<Rightarrow> u64 \<Rightarrow> 'd \<Rightarrow> (OperationIssue + PhaseReport) \<times> 'd"
  drv_rollback :: "OperationPlan \<Rightarrow> u64 \<Rightarrow> 'd \<Rightarrow> (OperationIssue + PhaseReport) \<times> 'd"

text \<open>What a run sees: the driver, the file system, and whether another process holds the lock.\<close>

record 'd op_world =
  ow_driver :: 'd
  ow_fs :: file_system
  ow_locked :: bool

definition validate_phase_report ::
  "OperationPlan \<Rightarrow> OperationState \<Rightarrow> OperationPhase \<Rightarrow> PhaseReport \<Rightarrow> OperationIssue + unit" where
  "validate_phase_report plan s phase r = (let limit = timeout_for (op_budgets plan) phase in checks
     [reject_if (pr_phase r \<noteq> phase) (budget_issue ''PHASE_REPORT_MISMATCH'' (ReportMismatch phase (pr_phase r))),
      reject_if (pr_elapsed_ms r > limit)
        (budget_issue ''PHASE_TIMEOUT_EXCEEDED'' (PhaseTimeout phase (pr_elapsed_ms r) limit)),
      reject_if (pr_public_interruption_ms r > pr_elapsed_ms r)
        (budget_issue ''INVALID_INTERRUPTION_MEASUREMENT''
           (InterruptionMeasure (pr_public_interruption_ms r) (pr_elapsed_ms r))),
      reject_if (saturating_add (state_elapsed_ms s) (pr_elapsed_ms r) > ob_operation_ms (op_budgets plan))
        (budget_issue ''OPERATION_BUDGET_EXCEEDED'' (BudgetLimit (ob_operation_ms (op_budgets plan)))),
      reject_if (saturating_add (state_interruption_ms s) (pr_public_interruption_ms r)
                   > ob_public_interruption_ms (op_budgets plan))
        (budget_issue ''PUBLIC_INTERRUPTION_BUDGET_EXCEEDED''
           (BudgetLimit (ob_public_interruption_ms (op_budgets plan))))])"

definition save_state ::
  "operation_library \<Rightarrow> path_key \<Rightarrow> OperationState \<Rightarrow> 'd op_world \<Rightarrow> (OperationEngineError + unit) \<times> 'd op_world" where
  "save_state lib path s w =
     (let (r, fs) = store_write (ol_state_to_json lib) (ol_pid lib) path s (ow_fs w)
      in (map_err StoreFailure r, w \<lparr>ow_fs := fs\<rparr>))"

text \<open>The ledger after the driver answered the rollback, and whether it counts as rolled back.\<close>

definition rollback_outcome ::
  "OperationPlan \<Rightarrow> OperationState \<Rightarrow> OperationIssue + PhaseReport \<Rightarrow> OperationState \<times> bool" where
  "rollback_outcome plan s result = (case result of
     Inr r \<Rightarrow>
       if pr_phase r = Rollback \<and> pr_elapsed_ms r \<le> ob_rollback_ms (op_budgets plan)
          \<and> pr_public_interruption_ms r \<le> pr_elapsed_ms r
       then (s \<lparr>os_completed := os_completed s @ [r], os_rollback_issue := None, os_status := RolledBack,
                os_current_phase := None\<rparr>, True)
       else (s \<lparr>os_rollback_issue := Some (budget_issue ''ROLLBACK_BUDGET_EXCEEDED'' (RollbackReport r)),
                os_status := RollbackFailed, os_current_phase := None\<rparr>, False)
   | Inl issue \<Rightarrow> (s \<lparr>os_rollback_issue := Some issue, os_status := RollbackFailed, os_current_phase := None\<rparr>, False))"

definition complete_rollback ::
  "operation_library \<Rightarrow> 'd OperationDriver \<Rightarrow> OperationPlan \<Rightarrow> path_key \<Rightarrow> OperationState \<Rightarrow> 'd op_world
   \<Rightarrow> (OperationEngineError + OperationState) \<times> 'd op_world" where
  "complete_rollback lib drv plan path s w =
     (let (result, d) = drv_rollback drv plan (timeout_for (op_budgets plan) Rollback) (ow_driver w);
          (s, succeeded) = rollback_outcome plan s result
      in then_call (save_state lib path s (w \<lparr>ow_driver := d\<rparr>))
           (\<lambda>_ w. (Inl (OperationFailed (op_operation_id plan) succeeded), w)))"

definition fail_operation ::
  "operation_library \<Rightarrow> 'd OperationDriver \<Rightarrow> OperationPlan \<Rightarrow> path_key \<Rightarrow> OperationState \<Rightarrow> OperationIssue \<Rightarrow> 'd op_world
   \<Rightarrow> (OperationEngineError + OperationState) \<times> 'd op_world" where
  "fail_operation lib drv plan path s issue w =
     (let s = s \<lparr>os_last_issue := Some issue, os_current_phase := None\<rparr>
      in if \<not> list_ex (\<lambda>r. pr_phase r = Snapshot) (os_completed s)
         then then_call (save_state lib path (s \<lparr>os_status := FailedStatus\<rparr>) w)
                (\<lambda>_ w. (Inl (OperationFailed (op_operation_id plan) False), w))
         else let s = s \<lparr>os_status := RollingBack, os_current_phase := Some Rollback\<rparr>
              in then_call (save_state lib path s w) (\<lambda>_ w. complete_rollback lib drv plan path s w))"

text \<open>The driver runs one phase and its report is checked; either may give the issue the operation fails with.\<close>

definition run_checked ::
  "'d OperationDriver \<Rightarrow> OperationPlan \<Rightarrow> OperationState \<Rightarrow> OperationPhase \<Rightarrow> 'd op_world
   \<Rightarrow> (OperationIssue + PhaseReport) \<times> 'd op_world" where
  "run_checked drv plan s phase w =
     (let (result, d) = drv_run_phase drv plan phase (timeout_for (op_budgets plan) phase) (ow_driver w)
      in (and_then result (\<lambda>r. and_then (validate_phase_report plan s phase r) (\<lambda>_. Inr r)), w \<lparr>ow_driver := d\<rparr>))"

fun run_phases ::
  "operation_library \<Rightarrow> 'd OperationDriver \<Rightarrow> OperationPlan \<Rightarrow> path_key \<Rightarrow> OperationPhase list \<Rightarrow> OperationState
   \<Rightarrow> 'd op_world \<Rightarrow> (OperationEngineError + OperationState) \<times> 'd op_world" where
  "run_phases lib drv plan path [] s w =
     (let s = s \<lparr>os_status := Succeeded, os_current_phase := None\<rparr>
      in then_call (save_state lib path s w) (\<lambda>_ w. (Inr s, w)))"
| "run_phases lib drv plan path (phase # phases) s w =
     (let s = s \<lparr>os_current_phase := Some phase\<rparr>
      in then_call (save_state lib path s w) (\<lambda>_ w.
        case run_checked drv plan s phase w of
          (Inl issue, w) \<Rightarrow> fail_operation lib drv plan path s issue w
        | (Inr r, w) \<Rightarrow>
            let s = s \<lparr>os_completed := os_completed s @ [r], os_current_phase := None\<rparr>
            in then_call (save_state lib path s w) (\<lambda>_ w. run_phases lib drv plan path phases s w)))"

section \<open>The lock\<close>

definition lock_call ::
  "string \<Rightarrow> path_key \<Rightarrow> (file_system \<Rightarrow> file_system) \<Rightarrow> 'd op_world \<Rightarrow> (OperationEngineError + unit) \<times> 'd op_world" where
  "lock_call operation path effect w = (case next_fault (ow_fs w) of
     (None, fs) \<Rightarrow> (Inr (), w \<lparr>ow_fs := effect fs\<rparr>)
   | (Some f, fs) \<Rightarrow> (Inl (LockIo operation path (fault_message f)), w \<lparr>ow_fs := fs\<rparr>))"

definition read_lock_operation :: "operation_library \<Rightarrow> path_key \<Rightarrow> file_system \<Rightarrow> string option" where
  "read_lock_operation lib path fs = (case fst (store_read (ol_lock_of_json lib) path fs) of
     Inl _ \<Rightarrow> None | Inr record \<Rightarrow> Some (lr_operation_id record))"

definition acquire_lock ::
  "operation_library \<Rightarrow> path_key \<Rightarrow> string \<Rightarrow> 'd op_world \<Rightarrow> (OperationEngineError + unit) \<times> 'd op_world" where
  "acquire_lock lib path operation_id w = (case path_parent path of
     None \<Rightarrow> (Inl (LockIo ''resolve_parent'' path []), w)
   | Some parent \<Rightarrow>
       then_call (lock_call ''create_parent'' path id w) (\<lambda>_ w.
       then_call (lock_call ''open'' path
         (\<lambda>fs. if fs_files fs path = None then set_file path (Some []) fs else fs) w) (\<lambda>_ w.
       if ow_locked w
       then (Inl (Busy (case read_lock_operation lib path (ow_fs w) of
                          None \<Rightarrow> ''initializing'' | Some active \<Rightarrow> active)), w)
       else then_call (lock_call ''flock'' path id w) (\<lambda>_ w.
         then_call (lock_call ''truncate'' path (set_file path (Some [])) w) (\<lambda>_ w.
         then_call (lock_call ''seek'' path id w) (\<lambda>_ w.
         case ol_lock_to_json lib
           \<lparr>lr_schema_version = OPERATION_SCHEMA_VERSION, lr_operation_id = operation_id, lr_pid = ol_pid lib,
            lr_acquired_at = ol_now lib\<rparr> of
           Inl e \<Rightarrow> (Inl (ContractError (PlanJson e)), w)
         | Inr bytes \<Rightarrow>
             then_call (lock_call ''write'' path (set_file path (Some bytes)) w) (\<lambda>_ w.
             lock_call ''sync'' path id w)))))))"

text \<open>
  The whole operation. The lock is held until the function returns, and dropping it releases it;
  a run that did not get it does nothing else.
\<close>

definition resume_state ::
  "operation_library \<Rightarrow> OperationPlan \<Rightarrow> path_key \<Rightarrow> 'd op_world
   \<Rightarrow> (OperationEngineError + OperationState) \<times> 'd op_world" where
  "resume_state lib plan path w =
     (if store_exists path (ow_fs w)
      then let (r, fs) = store_read (ol_state_of_json lib) path (ow_fs w)
           in (map_err StoreFailure r, w \<lparr>ow_fs := fs\<rparr>)
      else (map_err ContractError (new_state lib plan), w))"

definition continue_operation ::
  "operation_library \<Rightarrow> 'd OperationDriver \<Rightarrow> OperationPlan \<Rightarrow> path_key \<Rightarrow> OperationState \<Rightarrow> 'd op_world
   \<Rightarrow> (OperationEngineError + OperationState) \<times> 'd op_world" where
  "continue_operation lib drv plan state_path s w = (case os_status s of
     Running \<Rightarrow>
       then_call (save_state lib state_path s w) (\<lambda>_ w.
         run_phases lib drv plan state_path
           (drop (normal_phase_count s) (kind_phases (op_operation plan))) s w)
   | RollingBack \<Rightarrow> complete_rollback lib drv plan state_path s w
   | Succeeded \<Rightarrow> (Inr s, w)
   | status \<Rightarrow> (Inl (TerminalState status), w))"

definition execute_operation ::
  "operation_library \<Rightarrow> 'd OperationDriver \<Rightarrow> OperationPlan \<Rightarrow> path_key \<Rightarrow> path_key \<Rightarrow> 'd op_world
   \<Rightarrow> (OperationEngineError + OperationState) \<times> 'd op_world" where
  "execute_operation lib drv plan state_path lock_path w =
     then_call (map_err ContractError (validate_plan plan), w) (\<lambda>_ w.
     then_call (acquire_lock lib lock_path (op_operation_id plan) w) (\<lambda>_ w.
     then_call (resume_state lib plan state_path w) (\<lambda>s w.
     then_call (validate_for lib s plan, w) (\<lambda>_ w.
       continue_operation lib drv plan state_path s w))))"

end
