(* ===== verification/Transaction.thy ===== *)
theory Transaction
  imports Operation
begin

text \<open>
  Correctness of the transaction engine modelled in \<^theory_text>\<open>Operation\<close>, for every driver and every
  pattern of storage faults: the ledgers it writes are sound and can be resumed, the time budgets
  hold, phases run in order, and a failure after the snapshot is rolled back.
\<close>

section \<open>Plans that pass validation\<close>

definition budgets_contract :: "OperationKind \<Rightarrow> OperationBudgets \<Rightarrow> bool" where
  "budgets_contract kind b \<longleftrightarrow>
     0 < ob_preflight_ms b \<and> ob_preflight_ms b \<le> MAX_PREFLIGHT_MS \<and> 0 < ob_phase_ms b \<and> ob_phase_ms b \<le> MAX_APPLY_MS
     \<and> 0 < ob_public_interruption_ms b \<and> ob_public_interruption_ms b \<le> MAX_PUBLIC_INTERRUPTION_MS
     \<and> 0 < ob_rollback_ms b \<and> ob_rollback_ms b \<le> MAX_ROLLBACK_MS
     \<and> 0 < ob_operation_ms b \<and> ob_operation_ms b \<le> maximum_operation_ms kind"

interpretation budgets_check: validated "validate_budgets kind" "budgets_contract kind" for kind
  by unfold_locales (auto simp: validate_budgets_def budgets_contract_def outcome_simps word_gt_0 not_less)

lemma new_plan_budgets: "validate_budgets kind (op_budgets (new_plan i kind r src tgt rs)) = Inr ()"
  by (cases kind) (simp_all add: budgets_check.validate_iff budgets_contract_def new_plan_def budgets_for_kind_def budget_limits)

lemma validate_plan_budgets: "validate_plan plan = Inr () \<Longrightarrow> budgets_contract (op_operation plan) (op_budgets plan)"
  by (simp add: validate_plan_def outcome_simps budgets_check.validate_iff)

lemma plan_sha256_Inr: "plan_sha256 lib plan = Inr h \<Longrightarrow> validate_plan plan = Inr ()"
  by (auto simp: plan_sha256_def outcome_simps)

section \<open>Phases\<close>

lemma phases_distinct: "distinct (kind_phases kind)"
  by (cases kind) simp_all

lemma phases_no_rollback: "Rollback \<notin> set (kind_phases kind)"
  by (cases kind) simp_all

lemma phases_start: "\<exists>rest. kind_phases kind = Preflight # Snapshot # rest"
  by (cases kind) simp_all

lemma snapshot_taken_iff: "Snapshot \<in> set (take n (kind_phases kind)) \<longleftrightarrow> 2 \<le> n"
proof -
  from phases_start obtain rest where rest: "kind_phases kind = Preflight # Snapshot # rest" by blast
  show ?thesis
  proof (cases n)
    case (Suc m)
    then show ?thesis by (cases m) (simp_all add: rest)
  qed simp
qed

lemma out_of_order_None: "out_of_order phases i rs = None \<longleftrightarrow> prefix (map pr_phase rs) (drop i phases)"
proof (induction rs arbitrary: i)
  case (Cons r rs)
  show ?case
  proof (cases "i < length phases")
    case True
    then have "drop i phases = phases ! i # drop (Suc i) phases" by (simp add: Cons_nth_drop_Suc)
    then show ?thesis using Cons.IH [of "Suc i"] True by (auto simp: slice_get_def)
  qed (simp add: slice_get_def)
qed simp

section \<open>Sound ledgers\<close>

text \<open>
  Total time as natural numbers: the sums of the source are taken in 64 bits and could wrap, the
  totals of a sound ledger are exact.
\<close>

definition total_ms :: "(PhaseReport \<Rightarrow> u64) \<Rightarrow> PhaseReport list \<Rightarrow> nat" where
  "total_ms f rs = sum_list (map (\<lambda>r. unat (f r)) rs)"

definition budgets_held :: "OperationPlan \<Rightarrow> PhaseReport list \<Rightarrow> bool" where
  "budgets_held plan rs \<longleftrightarrow>
     total_ms pr_elapsed_ms rs \<le> unat (ob_operation_ms (op_budgets plan))
     \<and> total_ms pr_public_interruption_ms rs \<le> unat (ob_public_interruption_ms (op_budgets plan))
     \<and> list_all (\<lambda>r. pr_elapsed_ms r \<le> timeout_for (op_budgets plan) (pr_phase r)) rs"

definition snapshot_complete :: "OperationState \<Rightarrow> bool" where
  "snapshot_complete s \<longleftrightarrow> list_ex (\<lambda>r. pr_phase r = Snapshot) (os_completed s)"

text \<open>
  The ledgers the engine itself writes for a plan. A sound ledger passes the validation of the
  source; the validation alone would also accept a running ledger that records an old issue or a
  rollback in the middle.
\<close>

definition status_sound :: "OperationPhase list \<Rightarrow> OperationState \<Rightarrow> bool" where
  "status_sound phases s = (case os_status s of
     Running \<Rightarrow> os_completed s = normal_reports s \<and> os_last_issue s = None \<and> os_rollback_issue s = None
       \<and> (os_current_phase s = None \<or> os_current_phase s = slice_get phases (normal_phase_count s))
   | RollingBack \<Rightarrow> os_completed s = normal_reports s \<and> os_current_phase s = Some Rollback
       \<and> os_last_issue s \<noteq> None \<and> snapshot_complete s
   | Succeeded \<Rightarrow> map pr_phase (os_completed s) = phases \<and> os_completed s = normal_reports s
       \<and> os_current_phase s = None \<and> os_last_issue s = None \<and> os_rollback_issue s = None
   | FailedStatus \<Rightarrow> os_completed s = normal_reports s \<and> os_current_phase s = None \<and> os_last_issue s \<noteq> None
       \<and> \<not> snapshot_complete s
   | RolledBack \<Rightarrow> (\<exists>r. os_completed s = normal_reports s @ [r] \<and> pr_phase r = Rollback)
       \<and> os_current_phase s = None \<and> os_last_issue s \<noteq> None \<and> os_rollback_issue s = None \<and> snapshot_complete s
   | RollbackFailed \<Rightarrow> os_completed s = normal_reports s \<and> os_current_phase s = None \<and> os_last_issue s \<noteq> None
       \<and> os_rollback_issue s \<noteq> None \<and> snapshot_complete s)"

definition sound_ledger :: "operation_library \<Rightarrow> OperationPlan \<Rightarrow> OperationState \<Rightarrow> bool" where
  "sound_ledger lib plan s \<longleftrightarrow>
     os_schema_version s = OPERATION_SCHEMA_VERSION \<and> os_operation_id s = op_operation_id plan
     \<and> plan_sha256 lib plan = Inr (os_plan_sha256 s)
     \<and> prefix (map pr_phase (normal_reports s)) (kind_phases (op_operation plan))
     \<and> budgets_held plan (normal_reports s) \<and> status_sound (kind_phases (op_operation plan)) s"

lemma normal_reports_update [simp]:
  "normal_reports (s \<lparr>os_status := st\<rparr>) = normal_reports s"
  "normal_reports (s \<lparr>os_current_phase := c\<rparr>) = normal_reports s"
  "normal_reports (s \<lparr>os_last_issue := i\<rparr>) = normal_reports s"
  "normal_reports (s \<lparr>os_rollback_issue := i\<rparr>) = normal_reports s"
  by (simp_all add: normal_reports_def)

lemma snapshot_complete_update [simp]:
  "snapshot_complete (s \<lparr>os_status := st\<rparr>) = snapshot_complete s"
  "snapshot_complete (s \<lparr>os_current_phase := c\<rparr>) = snapshot_complete s"
  "snapshot_complete (s \<lparr>os_last_issue := i\<rparr>) = snapshot_complete s"
  "snapshot_complete (s \<lparr>os_rollback_issue := i\<rparr>) = snapshot_complete s"
  by (simp_all add: snapshot_complete_def)

lemma normal_not_rollback: "os_completed s = normal_reports s \<Longrightarrow> \<not> rollback_complete s"
proof
  assume n: "os_completed s = normal_reports s" and r: "rollback_complete s"
  then have "last (os_completed s) \<in> set (normal_reports s)" by (simp add: rollback_complete_def flip: n)
  with r show False by (simp add: normal_reports_def rollback_complete_def)
qed

lemma rolled_back_complete: "os_completed s = xs @ [r] \<Longrightarrow> pr_phase r = Rollback \<Longrightarrow> rollback_complete s"
  by (simp add: rollback_complete_def)

lemma sound_status_valid: "status_sound phases s \<Longrightarrow> valid_status phases s"
proof -
  assume s: "status_sound phases s"
  show ?thesis
  proof (cases "os_status s")
    case Succeeded
    with s have "map pr_phase (normal_reports s) = phases" by (auto simp: status_sound_def)
    then have "length (normal_reports s) = length phases" by auto
    with s Succeeded show ?thesis
      by (simp add: status_sound_def valid_status_def normal_not_rollback normal_phase_count_def)
  qed (use s in \<open>auto simp: status_sound_def valid_status_def normal_not_rollback rolled_back_complete\<close>)
qed

lemma sound_phase_expected:
  "status_sound phases s \<Longrightarrow> os_current_phase s = Some p \<Longrightarrow> expected_phase phases s = Some p"
  by (cases "os_status s") (auto simp: status_sound_def expected_phase_def)

lemma sound_validates: "sound_ledger lib plan s \<Longrightarrow> validate_for lib s plan = Inr ()"
proof -
  assume s: "sound_ledger lib plan s"
  let ?ph = "kind_phases (op_operation plan)"
  from s have "out_of_order ?ph 0 (normal_reports s) = None"
    by (simp add: sound_ledger_def out_of_order_None)
  with s show ?thesis
    using sound_status_valid [of ?ph s] sound_phase_expected [of ?ph s]
    by (auto simp: sound_ledger_def validate_for_def Let_def reject_if_def split: option.split)
qed

lemma new_state_sound: "new_state lib plan = Inr s \<Longrightarrow> sound_ledger lib plan s \<and> os_status s = Running \<and> os_completed s = []"
  by (auto simp: new_state_def outcome_simps sound_ledger_def status_sound_def normal_reports_def budgets_held_def total_ms_def)

section \<open>Every ledger written is sound\<close>

definition faithful_codec :: "operation_library \<Rightarrow> bool" where
  "faithful_codec lib \<longleftrightarrow> (\<forall>s b. ol_state_to_json lib s = Inr b \<longrightarrow> ol_state_of_json lib b = Inr s)"

definition stored_ledger :: "operation_library \<Rightarrow> path_key \<Rightarrow> 'd op_world \<Rightarrow> OperationState \<Rightarrow> bool" where
  "stored_ledger lib path w s \<longleftrightarrow> (\<exists>b. fs_files (ow_fs w) path = Some b \<and> ol_state_of_json lib b = Inr s)"

definition sound_store :: "operation_library \<Rightarrow> OperationPlan \<Rightarrow> path_key \<Rightarrow> 'd op_world \<Rightarrow> bool" where
  "sound_store lib plan path w \<longleftrightarrow>
     (\<forall>b. fs_files (ow_fs w) path = Some b \<longrightarrow> (\<exists>s. ol_state_of_json lib b = Inr s \<and> sound_ledger lib plan s))"

lemma sound_store_driver [simp]:
  "sound_store lib plan path (w \<lparr>ow_driver := d\<rparr>) = sound_store lib plan path w"
  "stored_ledger lib path (w \<lparr>ow_driver := d\<rparr>) s = stored_ledger lib path w s"
  by (simp_all add: sound_store_def stored_ledger_def)

lemma save_state_Inr:
  assumes "ordinary_path path" "faithful_codec lib" "save_state lib path s w = (Inr (), w')"
  shows "stored_ledger lib path w' s"
proof -
  from assms(3) obtain fs where
    "store_write (ol_state_to_json lib) (ol_pid lib) path s (ow_fs w) = (Inr (), fs)" and "w' = w \<lparr>ow_fs := fs\<rparr>"
    by (auto simp: save_state_def outcome_simps split: prod.splits)
  with json_store.write_stores [OF assms(1)] assms(2) show ?thesis
    by (fastforce simp: stored_ledger_def faithful_codec_def)
qed

lemma save_state_sound:
  assumes "ordinary_path path" "faithful_codec lib" "sound_ledger lib plan s" "sound_store lib plan path w"
    and "save_state lib path s w = (r, w')"
  shows "sound_store lib plan path w'"
proof -
  let ?good = "\<lambda>b. \<exists>s. ol_state_of_json lib b = Inr s \<and> sound_ledger lib plan s"
  obtain r1 fs where w: "store_write (ol_state_to_json lib) (ol_pid lib) path s (ow_fs w) = (r1, fs)" by force
  have "?good b" if "fs_files fs path = Some b" for b
  proof (rule json_store.kept_by_write [OF assms(1) _ _ w that, of ?good])
    show "?good b'" if "fs_files (ow_fs w) path = Some b'" for b' using assms(4) that by (simp add: sound_store_def)
    show "?good b'" if "ol_state_to_json lib s = Inr b'" for b' using assms(2,3) that by (auto simp: faithful_codec_def)
  qed
  with assms(5) w show ?thesis by (auto simp: save_state_def sound_store_def)
qed

lemma save_state_driver: "save_state lib path s w = (r, w') \<Longrightarrow> ow_driver w' = ow_driver w"
  by (auto simp: save_state_def split: prod.splits)

text \<open>The running ledgers between two phases.\<close>

definition running_ledger :: "operation_library \<Rightarrow> OperationPlan \<Rightarrow> OperationState \<Rightarrow> bool" where
  "running_ledger lib plan s \<longleftrightarrow> sound_ledger lib plan s \<and> os_status s = Running"

lemma snapshot_complete_phases: "snapshot_complete s \<longleftrightarrow> Snapshot \<in> set (map pr_phase (os_completed s))"
  by (force simp: list_ex_iff snapshot_complete_def image_iff)

lemma running_simps:
  assumes "running_ledger lib plan s"
  shows "os_completed s = normal_reports s" "os_last_issue s = None" "os_rollback_issue s = None"
    "prefix (map pr_phase (os_completed s)) (kind_phases (op_operation plan))"
    "map pr_phase (os_completed s) = take (length (os_completed s)) (kind_phases (op_operation plan))"
proof -
  show n: "os_completed s = normal_reports s" and "os_last_issue s = None" "os_rollback_issue s = None"
    using assms by (auto simp: running_ledger_def sound_ledger_def status_sound_def)
  show p: "prefix (map pr_phase (os_completed s)) (kind_phases (op_operation plan))"
    using assms n by (simp add: running_ledger_def sound_ledger_def)
  then obtain zs where "kind_phases (op_operation plan) = map pr_phase (os_completed s) @ zs" by (rule prefixE)
  then show "map pr_phase (os_completed s) = take (length (os_completed s)) (kind_phases (op_operation plan))" by simp
qed

lemma snapshot_complete_iff:
  "running_ledger lib plan s \<Longrightarrow> snapshot_complete s \<longleftrightarrow> 2 \<le> length (os_completed s)"
  using snapshot_taken_iff [of "length (os_completed s)" "op_operation plan"]
  by (simp only: snapshot_complete_phases running_simps(5))

text \<open>A phase is begun, and a checked report is added.\<close>

lemma running_begin:
  assumes "running_ledger lib plan s" and "drop (length (os_completed s)) (kind_phases (op_operation plan)) = phase # rest"
  shows "running_ledger lib plan (s \<lparr>os_current_phase := Some phase\<rparr>)"
proof -
  let ?ph = "kind_phases (op_operation plan)"
  from assms(2) have "length (os_completed s) < length ?ph" by (cases "length (os_completed s) < length ?ph") simp_all
  moreover from this assms(2) have "?ph ! length (os_completed s) = phase" by (simp flip: Cons_nth_drop_Suc)
  ultimately have "slice_get ?ph (normal_phase_count s) = Some phase"
    using running_simps(1) [OF assms(1)] by (simp add: slice_get_def normal_phase_count_def)
  with assms(1) show ?thesis
    by (auto simp: running_ledger_def sound_ledger_def status_sound_def normal_reports_def normal_phase_count_def)
qed

lemma sum_of_small: "(\<Sum>x\<leftarrow>xs. unat (f x)) < 2 ^ 64 \<Longrightarrow> unat (\<Sum>x\<leftarrow>xs. f x :: u64) = (\<Sum>x\<leftarrow>xs. unat (f x))"
proof (induction xs)
  case (Cons x xs)
  then have "unat (f x) + unat (\<Sum>x\<leftarrow>xs. f x) < 2 ^ LENGTH(64)" by simp
  then have "unat (f x + (\<Sum>x\<leftarrow>xs. f x)) = unat (f x) + unat (\<Sum>x\<leftarrow>xs. f x)" by (rule iffD1 [OF unat_add_lem])
  with Cons show ?case by simp
qed simp

lemma budgets_small:
  assumes "budgets_contract kind b"
  shows "unat (ob_operation_ms b) \<le> 60000" "unat (ob_public_interruption_ms b) \<le> 5000"
proof -
  have "maximum_operation_ms kind \<le> 60000" by (cases kind) (simp_all add: budget_limits)
  with assms have "ob_operation_ms b \<le> 60000" by (auto simp: budgets_contract_def)
  then show "unat (ob_operation_ms b) \<le> 60000" by (simp add: word_le_nat_alt)
  from assms show "unat (ob_public_interruption_ms b) \<le> 5000"
    by (simp add: budgets_contract_def budget_limits word_le_nat_alt)
qed

lemma total_ms_snoc [simp]: "total_ms f (rs @ [r]) = total_ms f rs + unat (f r)"
  by (simp add: total_ms_def)

lemma report_accepted:
  assumes "budgets_held plan (normal_reports s)" and "validate_phase_report plan s phase r = Inr ()"
    and "budgets_contract (op_operation plan) (op_budgets plan)"
  shows "pr_phase r = phase \<and> budgets_held plan (normal_reports s @ [r])"
proof -
  let ?b = "op_budgets plan" and ?rs = "normal_reports s"
  note small = budgets_small [OF assms(3)]
  have totals: "unat (state_elapsed_ms s) = total_ms pr_elapsed_ms ?rs"
      "unat (state_interruption_ms s) = total_ms pr_public_interruption_ms ?rs"
    using assms(1) small
    by (auto simp: state_elapsed_ms_def state_interruption_ms_def total_ms_def budgets_held_def intro!: sum_of_small)
  have sat: "unat x + unat y \<le> unat z" if "saturating_add x y \<le> z" "unat z \<le> 60000" for x y z :: u64
    using that by (simp add: word_le_nat_alt unat_saturating_add min_def split: if_splits)
  from assms(2) have "pr_phase r = phase" "pr_elapsed_ms r \<le> timeout_for ?b phase"
    and "saturating_add (state_elapsed_ms s) (pr_elapsed_ms r) \<le> ob_operation_ms ?b"
    and "saturating_add (state_interruption_ms s) (pr_public_interruption_ms r) \<le> ob_public_interruption_ms ?b"
    by (simp_all add: validate_phase_report_def Let_def outcome_simps not_less)
  with sat small assms(1) show ?thesis by (auto simp: budgets_held_def simp flip: totals)
qed

lemma normal_reports_snoc:
  "pr_phase r \<noteq> Rollback \<Longrightarrow>
   normal_reports (s \<lparr>os_completed := os_completed s @ [r]\<rparr>) = normal_reports s @ [r]"
  by (simp add: normal_reports_def)

lemma running_add:
  assumes "running_ledger lib plan s" and "drop (length (os_completed s)) (kind_phases (op_operation plan)) = phase # rest"
    and "validate_phase_report plan s phase r = Inr ()"
  shows "running_ledger lib plan (s \<lparr>os_completed := os_completed s @ [r], os_current_phase := None\<rparr>)"
    and "drop (Suc (length (os_completed s))) (kind_phases (op_operation plan)) = rest"
proof -
  let ?ph = "kind_phases (op_operation plan)" and ?n = "length (os_completed s)"
  note run = running_simps [OF assms(1)]
  show rest: "drop (Suc ?n) ?ph = rest" using assms(2) tl_drop [of ?n ?ph] by (simp add: drop_Suc)
  have "phase \<in> set ?ph" using in_set_dropD [of phase ?n ?ph] assms(2) by simp
  then have "phase \<noteq> Rollback" using phases_no_rollback by metis
  have "validate_plan plan = Inr ()"
    using assms(1) by (auto simp: running_ledger_def sound_ledger_def dest: plan_sha256_Inr)
  moreover have "budgets_held plan (normal_reports s)" using assms(1) by (simp add: running_ledger_def sound_ledger_def)
  ultimately have r: "pr_phase r = phase" "budgets_held plan (normal_reports s @ [r])"
    using report_accepted [OF _ assms(3) validate_plan_budgets] by auto
  have "?ph = take ?n ?ph @ drop ?n ?ph" by (rule append_take_drop_id [symmetric])
  then have "?ph = (map pr_phase (os_completed s) @ [phase]) @ rest" unfolding run(5) [symmetric] assms(2) by simp
  then have "prefix (map pr_phase (os_completed s) @ [phase]) ?ph" by (rule prefixI)
  with r \<open>phase \<noteq> Rollback\<close> assms(1) show "running_ledger lib plan (s \<lparr>os_completed := os_completed s @ [r], os_current_phase := None\<rparr>)"
    by (auto simp: running_ledger_def sound_ledger_def status_sound_def normal_reports_snoc run(1) [symmetric])
qed

text \<open>The ledgers a failure leaves.\<close>

lemma failed_sound:
  assumes "running_ledger lib plan s" and "\<not> snapshot_complete s"
  shows "sound_ledger lib plan (s \<lparr>os_last_issue := Some i, os_current_phase := None, os_status := FailedStatus\<rparr>)"
  using assms by (auto simp: running_ledger_def sound_ledger_def status_sound_def)

definition rolling_ledger :: "operation_library \<Rightarrow> OperationPlan \<Rightarrow> OperationState \<Rightarrow> bool" where
  "rolling_ledger lib plan s \<longleftrightarrow> sound_ledger lib plan s \<and> os_status s = RollingBack"

lemma rolling_sound:
  assumes "running_ledger lib plan s" and "snapshot_complete s"
  shows "rolling_ledger lib plan (s \<lparr>os_last_issue := Some i, os_status := RollingBack, os_current_phase := Some Rollback\<rparr>)"
  using assms by (auto simp: running_ledger_def rolling_ledger_def sound_ledger_def status_sound_def)

lemma rolled_back_sound:
  assumes "rolling_ledger lib plan s" and "pr_phase r = Rollback"
  shows "sound_ledger lib plan (s \<lparr>os_completed := os_completed s @ [r], os_rollback_issue := None,
           os_status := RolledBack, os_current_phase := None\<rparr>)"
proof -
  have "normal_reports (s \<lparr>os_completed := os_completed s @ [r], os_rollback_issue := None,
           os_status := RolledBack, os_current_phase := None\<rparr>) = normal_reports s"
    using assms(2) by (simp add: normal_reports_def)
  with assms show ?thesis
    by (auto simp: rolling_ledger_def sound_ledger_def status_sound_def snapshot_complete_def)
qed

lemma rollback_failed_sound:
  assumes "rolling_ledger lib plan s"
  shows "sound_ledger lib plan (s \<lparr>os_rollback_issue := Some i, os_status := RollbackFailed, os_current_phase := None\<rparr>)"
  using assms
  by (auto simp: rolling_ledger_def sound_ledger_def status_sound_def)

lemma succeeded_sound:
  assumes "running_ledger lib plan s" and "length (os_completed s) = length (kind_phases (op_operation plan))"
  shows "sound_ledger lib plan (s \<lparr>os_status := Succeeded, os_current_phase := None\<rparr>)"
proof -
  have "map pr_phase (os_completed s) = kind_phases (op_operation plan)"
    using running_simps(5) [OF assms(1)] assms(2) by simp
  then show ?thesis using assms(1)
    by (auto simp: running_ledger_def sound_ledger_def status_sound_def)
qed

section \<open>What the engine returns\<close>

text \<open>
  How a run of the engine ends: in success with the complete ledger stored; in a reported failure with
  the matching ledger stored; or stopped by the store, which leaves some sound ledger.
\<close>

definition failure_recorded :: "OperationState \<Rightarrow> bool \<Rightarrow> bool" where
  "failure_recorded s rolled_back \<longleftrightarrow>
     os_last_issue s \<noteq> None
     \<and> (if rolled_back then os_status s = RolledBack
        else os_status s = FailedStatus \<and> \<not> snapshot_complete s \<or> os_status s = RollbackFailed)"

definition run_ended ::
  "operation_library \<Rightarrow> OperationPlan \<Rightarrow> path_key \<Rightarrow> OperationEngineError + OperationState \<Rightarrow> 'd op_world \<Rightarrow> bool" where
  "run_ended lib plan path r w \<longleftrightarrow> sound_store lib plan path w \<and> (case r of
     Inr s \<Rightarrow> stored_ledger lib path w s \<and> os_status s = Succeeded
   | Inl (OperationFailed i rolled) \<Rightarrow> i = op_operation_id plan \<and> (\<exists>s. stored_ledger lib path w s \<and> failure_recorded s rolled)
   | Inl (StoreFailure _) \<Rightarrow> True
   | Inl _ \<Rightarrow> False)"

lemma save_state_error: "save_state lib path s w = (Inl e, w') \<Longrightarrow> \<exists>e'. e = StoreFailure e'"
  by (auto simp: save_state_def outcome_simps split: prod.splits)

definition usable_store :: "operation_library \<Rightarrow> path_key \<Rightarrow> bool" where
  "usable_store lib path \<longleftrightarrow> ordinary_path path \<and> faithful_codec lib"

lemma save_then_ended:
  assumes "sound_ledger lib plan s" and "sound_store lib plan path w"
    and "then_call (save_state lib path s w) f = (r, w')"
    and "\<And>w1. sound_store lib plan path w1 \<Longrightarrow> stored_ledger lib path w1 s \<Longrightarrow> f () w1 = (r, w') \<Longrightarrow> run_ended lib plan path r w'"
    and ok: "usable_store lib path"
  shows "run_ended lib plan path r w'"
proof -
  note path = ok [unfolded usable_store_def, THEN conjunct1] and codec = ok [unfolded usable_store_def, THEN conjunct2]
  from assms(3) show ?thesis
  proof (cases rule: then_call_elim)
    case (stop e)
    with save_state_sound [OF path codec assms(1,2) stop(1)] show ?thesis
      by (auto simp: run_ended_def dest: save_state_error)
  next
    case (go u w1)
    with assms(4) save_state_sound [OF path codec assms(1,2) go(1)] save_state_Inr [OF path codec, of s w w1]
    show ?thesis by auto
  qed
qed

lemma rollback_outcome_sound:
  assumes "rolling_ledger lib plan s" and "rollback_outcome plan s result = (s', rolled)"
  shows "sound_ledger lib plan s' \<and> failure_recorded s' rolled"
proof -
  have issue: "os_last_issue s \<noteq> None" using assms(1) by (auto simp: rolling_ledger_def sound_ledger_def status_sound_def)
  show ?thesis
  proof (cases result)
    case (Inl i)
    with assms issue rollback_failed_sound [OF assms(1)] show ?thesis
      by (auto simp: rollback_outcome_def failure_recorded_def)
  next
    case (Inr rep)
    with assms issue rollback_failed_sound [OF assms(1)] rolled_back_sound [OF assms(1), of rep] show ?thesis
      by (auto simp: rollback_outcome_def failure_recorded_def split: if_splits)
  qed
qed

lemma complete_rollback_ended:
  assumes "rolling_ledger lib plan s" and "sound_store lib plan path w"
    and "complete_rollback lib drv plan path s w = (r, w')"
    and ok: "usable_store lib path"
  shows "run_ended lib plan path r w'"
proof -
  obtain result d where d: "drv_rollback drv plan (ob_rollback_ms (op_budgets plan)) (ow_driver w) = (result, d)" by force
  obtain s' rolled where out: "rollback_outcome plan s result = (s', rolled)" by force
  note sound = rollback_outcome_sound [OF assms(1) out]
  have call: "then_call (save_state lib path s' (w \<lparr>ow_driver := d\<rparr>))
      (\<lambda>_ w. (Inl (OperationFailed (op_operation_id plan) rolled), w)) = (r, w')"
    using assms(3) by (simp add: complete_rollback_def d out)
  show ?thesis
    by (rule save_then_ended [OF _ _ call _ ok]) (use sound assms(2) in \<open>auto simp: run_ended_def\<close>)
qed

lemma fail_operation_ended:
  assumes "running_ledger lib plan s" and "sound_store lib plan path w"
    and "fail_operation lib drv plan path s issue w = (r, w')"
    and ok: "usable_store lib path"
  shows "run_ended lib plan path r w'"
proof (cases "snapshot_complete s")
  case False
  let ?s = "s \<lparr>os_last_issue := Some issue, os_current_phase := None, os_status := FailedStatus\<rparr>"
  from False assms(3) have call: "then_call (save_state lib path ?s w) (\<lambda>_ w. (Inl (OperationFailed (op_operation_id plan) False), w)) = (r, w')"
    by (simp add: fail_operation_def Let_def snapshot_complete_def)
  show ?thesis
    by (rule save_then_ended [OF failed_sound [OF assms(1) False, of issue] assms(2) call _ ok])
      (use False in \<open>auto simp: run_ended_def failure_recorded_def snapshot_complete_def intro!: exI [of _ ?s]\<close>)
next
  case True
  let ?s = "s \<lparr>os_last_issue := Some issue, os_status := RollingBack, os_current_phase := Some Rollback\<rparr>"
  note rolling = rolling_sound [OF assms(1) True, of issue]
  from True assms(3) have call: "then_call (save_state lib path ?s w) (\<lambda>_ w. complete_rollback lib drv plan path ?s w) = (r, w')"
    by (simp add: fail_operation_def Let_def snapshot_complete_def)
  show ?thesis
    by (rule save_then_ended [OF _ assms(2) call _ ok])
      (use rolling complete_rollback_ended [OF rolling _ _ ok] in \<open>auto simp: rolling_ledger_def\<close>)
qed

lemma run_checked_store:
  "run_checked drv plan s phase w = (c, w') \<Longrightarrow> sound_store lib plan path w' = sound_store lib plan path w"
  by (auto simp: run_checked_def split: prod.splits)

lemma run_checked_report:
  "run_checked drv plan s phase w = (Inr r, w') \<Longrightarrow> validate_phase_report plan s phase r = Inr ()"
  by (auto simp: run_checked_def outcome_simps split: prod.splits)

lemma run_phases_ended:
  fixes w :: "'d op_world"
  assumes "running_ledger lib plan s" and "sound_store lib plan path w"
    and "drop (length (os_completed s)) (kind_phases (op_operation plan)) = phases"
    and "run_phases lib drv plan path phases s w = (r, w')"
    and ok: "usable_store lib path"
  shows "run_ended lib plan path r w'"
  using assms(1-4)
proof (induction phases arbitrary: s w)
  case Nil
  have "length (os_completed s) \<le> length (kind_phases (op_operation plan))"
    using prefix_length_le [OF running_simps(4) [OF Nil(1)]] by simp
  with Nil have full: "length (os_completed s) = length (kind_phases (op_operation plan))" by simp
  from Nil(4) have "then_call (save_state lib path (s \<lparr>os_status := Succeeded, os_current_phase := None\<rparr>) w)
      (\<lambda>_ w. (Inr (s \<lparr>os_status := Succeeded, os_current_phase := None\<rparr>), w)) = (r, w')" by (simp add: Let_def)
  then show ?case
    by (rule save_then_ended [OF succeeded_sound [OF Nil(1) full] Nil(2) _ _ ok]) (auto simp: run_ended_def)
next
  case (Cons phase phases)
  let ?s = "s \<lparr>os_current_phase := Some phase\<rparr>"
  note begun = running_begin [OF Cons.prems(1,3)]
  have drop: "drop (length (os_completed ?s)) (kind_phases (op_operation plan)) = phase # phases" using Cons.prems(3) by simp
  from Cons.prems(4) have call: "then_call (save_state lib path ?s w) (\<lambda>_ w. case run_checked drv plan ?s phase w of
        (Inl issue, w) \<Rightarrow> fail_operation lib drv plan path ?s issue w
      | (Inr rep, w) \<Rightarrow> then_call (save_state lib path (?s \<lparr>os_completed := os_completed ?s @ [rep], os_current_phase := None\<rparr>) w)
          (\<lambda>_ w. run_phases lib drv plan path phases (?s \<lparr>os_completed := os_completed ?s @ [rep], os_current_phase := None\<rparr>) w))
      = (r, w')" by (simp only: run_phases.simps Let_def)
  show ?case
  proof (rule save_then_ended [OF _ Cons.prems(2) call _ ok])
    show "sound_ledger lib plan ?s" using begun by (simp add: running_ledger_def)
    fix w1 :: "'d op_world"
    assume w1: "sound_store lib plan path w1" and "stored_ledger lib path w1 ?s"
    obtain checked w2 where w2: "run_checked drv plan ?s phase w1 = (checked, w2)" by force
    have sound2: "sound_store lib plan path w2" using w1 run_checked_store [OF w2] by blast
    assume next_step: "(case run_checked drv plan ?s phase w1 of
        (Inl issue, w) \<Rightarrow> fail_operation lib drv plan path ?s issue w
      | (Inr rep, w) \<Rightarrow> then_call (save_state lib path (?s \<lparr>os_completed := os_completed ?s @ [rep], os_current_phase := None\<rparr>) w)
          (\<lambda>_ w. run_phases lib drv plan path phases (?s \<lparr>os_completed := os_completed ?s @ [rep], os_current_phase := None\<rparr>) w))
      = (r, w')"
    show "run_ended lib plan path r w'"
    proof (cases checked)
      case (Inl issue)
      with next_step w2 have "fail_operation lib drv plan path ?s issue w2 = (r, w')" by simp
      then show ?thesis by (rule fail_operation_ended [OF begun sound2 _ ok])
    next
      case (Inr rep)
      note added = running_add [OF begun drop run_checked_report [OF w2 [unfolded Inr]]]
      from Inr next_step w2 have call2: "then_call (save_state lib path (?s \<lparr>os_completed := os_completed ?s @ [rep], os_current_phase := None\<rparr>) w2)
          (\<lambda>_ w. run_phases lib drv plan path phases (?s \<lparr>os_completed := os_completed ?s @ [rep], os_current_phase := None\<rparr>) w) = (r, w')"
        by (simp only: prod.case sum.case)
      show ?thesis
      proof (rule save_then_ended [OF _ sound2 call2 _ ok])
        show "sound_ledger lib plan (?s \<lparr>os_completed := os_completed ?s @ [rep], os_current_phase := None\<rparr>)"
          using added(1) by (simp add: running_ledger_def)
        fix w3 :: "'d op_world"
        assume "sound_store lib plan path w3"
          and "run_phases lib drv plan path phases (?s \<lparr>os_completed := os_completed ?s @ [rep], os_current_phase := None\<rparr>) w3 = (r, w')"
        from Cons.IH [OF added(1) this(1) _ this(2)] added(2) show "run_ended lib plan path r w'" by simp
      qed
    qed
  qed
qed

section \<open>The whole operation\<close>

lemma lock_call_keeps:
  assumes "lock_call op lp eff w = (r, w')" and "\<And>fs. fs_files (eff fs) p = fs_files fs p"
  shows "fs_files (ow_fs w') p = fs_files (ow_fs w) p \<and> ow_driver w' = ow_driver w"
proof -
  obtain f fs where "next_fault (ow_fs w) = (f, fs)" by force
  with files_next_fault [of "ow_fs w"] assms show ?thesis by (cases f) (auto simp: lock_call_def)
qed

lemma acquire_lock_keeps:
  assumes "acquire_lock lib lp i w = (r, w')" and "lp \<noteq> p"
  shows "fs_files (ow_fs w') p = fs_files (ow_fs w) p \<and> ow_driver w' = ow_driver w"
  using assms
  by (auto simp: acquire_lock_def split: option.splits if_splits sum.splits elim!: then_call_elim
      dest!: lock_call_keeps [where p = p])

lemma store_read_keeps: "store_read of_json p fs = (r, fs') \<Longrightarrow> fs_files fs' = fs_files fs"
  by (auto simp: store_read_def split: prod.splits option.splits dest!: next_fault_files)

lemma resume_state_cases:
  assumes "resume_state lib plan path w = (r, w')"
  shows "fs_files (ow_fs w') path = fs_files (ow_fs w) path \<and> ow_driver w' = ow_driver w
    \<and> (\<forall>s. r = Inr s \<longrightarrow> stored_ledger lib path w s \<or> fs_files (ow_fs w) path = None \<and> new_state lib plan = Inr s)"
proof (cases "store_exists path (ow_fs w)")
  case False
  with assms show ?thesis by (auto simp: resume_state_def store_exists_def outcome_simps)
next
  case True
  obtain r1 fs where r: "store_read (ol_state_of_json lib) path (ow_fs w) = (r1, fs)" by force
  note files = store_read_keeps [OF r]
  with True assms r have w': "w' = w \<lparr>ow_fs := fs\<rparr>" "r = map_err StoreFailure r1" by (auto simp: resume_state_def)
  have "\<exists>b. fs_files fs path = Some b \<and> ol_state_of_json lib b = Inr s" if "r1 = Inr s" for s
    using r that by (auto simp: store_read_def outcome_simps split: prod.splits option.splits)
  with w' files show ?thesis by (auto simp: stored_ledger_def outcome_simps)
qed

lemma acquire_lock_error: "acquire_lock lib lp i w = (Inl e, w') \<Longrightarrow> e \<noteq> OperationFailed j b"
  by (auto simp: acquire_lock_def lock_call_def split: option.splits if_splits sum.splits prod.splits elim!: then_call_elim)

lemma resume_state_error: "resume_state lib plan p w = (Inl e, w') \<Longrightarrow> e \<noteq> OperationFailed j b"
  by (auto simp: resume_state_def outcome_simps split: if_splits prod.splits)

lemma continue_ended:
  assumes "sound_ledger lib plan s" and "sound_store lib plan sp w"
    and "os_status s \<noteq> Running \<Longrightarrow> stored_ledger lib sp w s"
    and "continue_operation lib drv plan sp s w = (r, w')" and ok: "usable_store lib sp"
  shows "run_ended lib plan sp r w' \<or> sound_store lib plan sp w' \<and> (\<exists>st. r = Inl (TerminalState st))"
proof (cases "os_status s")
  case Running
  then have running: "running_ledger lib plan s" using assms(1) by (simp add: running_ledger_def)
  then have count: "normal_phase_count s = length (os_completed s)"
    using running_simps(1) by (metis normal_phase_count_def)
  from Running assms(4) have "then_call (save_state lib sp s w) (\<lambda>_ w. run_phases lib drv plan sp
      (drop (length (os_completed s)) (kind_phases (op_operation plan))) s w) = (r, w')"
    by (simp add: continue_operation_def count)
  then have "run_ended lib plan sp r w'"
    by (rule save_then_ended [OF assms(1,2) _ _ ok]) (rule run_phases_ended [OF running _ refl _ ok])
  then show ?thesis by simp
next
  case RollingBack
  with assms complete_rollback_ended [OF _ assms(2) _ ok] show ?thesis
    by (simp add: continue_operation_def rolling_ledger_def)
next
  case Succeeded
  with assms show ?thesis by (auto simp: continue_operation_def run_ended_def)
qed (use assms in \<open>auto simp: continue_operation_def\<close>)

lemma validate_for_error: "validate_for lib s plan = Inl e \<Longrightarrow> e \<noteq> OperationFailed j b"
  by (auto simp: validate_for_def Let_def outcome_simps split: if_splits option.splits)

text \<open>
  An operation either stops early, with the ledger and the driver untouched, or continues with a
  ledger that passed validation.
\<close>

lemma execute_cases:
  assumes "execute_operation lib drv plan sp lp w = (r, w')" and "lp \<noteq> sp"
  obtains (early) e where "r = Inl e" "\<And>i b. e \<noteq> OperationFailed i b"
      "fs_files (ow_fs w') sp = fs_files (ow_fs w) sp" "ow_driver w' = ow_driver w"
    | (continue) s w2 where "stored_ledger lib sp w s \<or> fs_files (ow_fs w) sp = None \<and> new_state lib plan = Inr s"
      "fs_files (ow_fs w2) sp = fs_files (ow_fs w) sp" "ow_driver w2 = ow_driver w"
      "continue_operation lib drv plan sp s w2 = (r, w')"
  using assms(1) unfolding execute_operation_def
proof (cases rule: then_call_elim)
  case (stop e)
  then show thesis by (intro early [of e]) (auto simp: outcome_simps)
next
  case (go u w0)
  then have w0: "w0 = w" by simp
  from go(2) show thesis
  proof (cases rule: then_call_elim)
    case (stop e)
    from stop(2) acquire_lock_error [OF stop(1)] acquire_lock_keeps [OF stop(1) assms(2)] w0
    show thesis by (intro early [of e]) auto
  next
    case (go u w1)
    note lock = acquire_lock_keeps [OF go(1) assms(2)]
    from go(2) show thesis
    proof (cases rule: then_call_elim)
      case (stop e)
      from stop(2) resume_state_error [OF stop(1)] resume_state_cases [OF stop(1)] lock w0
      show thesis by (intro early [of e]) auto
    next
      case (go s w2)
      note resumed = resume_state_cases [OF go(1)]
      from go(2) show thesis
      proof (cases rule: then_call_elim)
        case (stop e)
        with validate_for_error [of lib s plan e] resumed lock w0 show thesis by (intro early [of e]) auto
      next
        case (go u w3)
        with resumed lock w0 show thesis by (intro continue [of s w3]) (auto simp: stored_ledger_def)
      qed
    qed
  qed
qed

lemma execute_ended:
  assumes "usable_store lib sp" and "lp \<noteq> sp" and "sound_store lib plan sp w"
    and "execute_operation lib drv plan sp lp w = (r, w')"
  shows "sound_store lib plan sp w' \<and>
    (case r of
       Inr s \<Rightarrow> stored_ledger lib sp w' s \<and> os_status s = Succeeded
     | Inl (OperationFailed i rolled) \<Rightarrow> i = op_operation_id plan \<and> (\<exists>s. stored_ledger lib sp w' s \<and> failure_recorded s rolled)
     | Inl _ \<Rightarrow> True)"
  using assms(4,2)
proof (cases rule: execute_cases)
  case (early e)
  with assms(3) show ?thesis by (cases e) (auto simp: sound_store_def)
next
  case (continue s w2)
  have w2: "sound_store lib plan sp w2" using assms(3) continue(2) by (simp add: sound_store_def)
  have s: "sound_ledger lib plan s"
    using continue(1) assms(3) by (auto simp: sound_store_def stored_ledger_def dest!: new_state_sound)
  have "os_status s \<noteq> Running \<Longrightarrow> stored_ledger lib sp w2 s"
    using continue(1,2) by (auto simp: stored_ledger_def dest!: new_state_sound)
  from continue_ended [OF s w2 this continue(4) assms(1)] show ?thesis
    by (auto simp: run_ended_def split: sum.splits OperationEngineError.splits)
qed

section \<open>The calls a driver sees\<close>

text \<open>A driver that records the phases it is asked for.\<close>

definition recording :: "'d OperationDriver \<Rightarrow> ('d \<times> OperationPhase list) OperationDriver" where
  "recording drv =
     \<lparr>drv_run_phase = (\<lambda>plan phase timeout (d, calls).
        let (r, d') = drv_run_phase drv plan phase timeout d in (r, (d', calls @ [phase]))),
      drv_rollback = (\<lambda>plan timeout (d, calls).
        let (r, d') = drv_rollback drv plan timeout d in (r, (d', calls @ [Rollback])))\<rparr>"

abbreviation calls :: "('d \<times> OperationPhase list) op_world \<Rightarrow> OperationPhase list" where
  "calls w \<equiv> snd (ow_driver w)"

lemma save_state_calls: "save_state lib path s w = (r, w') \<Longrightarrow> calls w' = calls w"
  by (simp add: save_state_driver)

lemma run_checked_calls: "run_checked (recording drv) plan s phase w = (c, w') \<Longrightarrow> calls w' = calls w @ [phase]"
  by (auto simp: run_checked_def recording_def split: prod.splits)

lemma complete_rollback_calls:
  "complete_rollback lib (recording drv) plan path s w = (r, w') \<Longrightarrow> calls w' = calls w @ [Rollback]"
  by (auto simp: complete_rollback_def recording_def split: prod.splits elim!: then_call_elim dest!: save_state_calls)

lemma fail_operation_calls:
  assumes "fail_operation lib (recording drv) plan path s issue w = (r, w')"
  shows "calls w' = calls w \<and> (\<forall>i. r \<noteq> Inl (OperationFailed i True)) \<or> snapshot_complete s \<and> calls w' = calls w @ [Rollback]"
proof (cases "snapshot_complete s")
  case False
  with assms show ?thesis
    by (auto simp: fail_operation_def Let_def snapshot_complete_def elim!: then_call_elim dest: save_state_calls save_state_error)
next
  case True
  let ?s = "s \<lparr>os_last_issue := Some issue, os_status := RollingBack, os_current_phase := Some Rollback\<rparr>"
  from True assms have "then_call (save_state lib path ?s w) (\<lambda>_ w. complete_rollback lib (recording drv) plan path ?s w) = (r, w')"
    by (simp add: fail_operation_def Let_def snapshot_complete_def)
  then show ?thesis
  proof (cases rule: then_call_elim)
    case (stop e)
    with save_state_calls [OF stop(1)] save_state_error [OF stop(1)] show ?thesis by auto
  next
    case (go u w1)
    with save_state_calls [OF go(1)] complete_rollback_calls [OF go(2)] True show ?thesis by simp
  qed
qed

text \<open>
  The calls of a run whose phases still to do are \<open>phases\<close>: some of them in order, then possibly one
  rollback, and that only if at least the first two phases of the plan were completed before the
  one that failed.
\<close>

definition calls_allowed ::
  "nat \<Rightarrow> OperationPhase list \<Rightarrow> OperationPhase list \<Rightarrow> OperationEngineError + OperationState \<Rightarrow> bool" where
  "calls_allowed n phases cs r \<longleftrightarrow>
     (\<exists>k \<le> length phases.
        cs = take k phases \<and> (\<forall>i. r \<noteq> Inl (OperationFailed i True)) \<and> (\<forall>s. r = Inr s \<longrightarrow> k = length phases)
        \<or> 3 \<le> n + k \<and> cs = take k phases @ [Rollback] \<and> (\<forall>s. r \<noteq> Inr s))"

lemma calls_allowed_Cons:
  assumes "calls_allowed (Suc n) phases cs r"
  shows "calls_allowed n (phase # phases) (phase # cs) r"
proof -
  from assms obtain k where "k \<le> length phases" and
    "cs = take k phases \<and> (\<forall>i. r \<noteq> Inl (OperationFailed i True)) \<and> (\<forall>s. r = Inr s \<longrightarrow> k = length phases)
     \<or> 3 \<le> Suc n + k \<and> cs = take k phases @ [Rollback] \<and> (\<forall>s. r \<noteq> Inr s)"
    by (auto simp: calls_allowed_def)
  then show ?thesis unfolding calls_allowed_def by (intro exI [of _ "Suc k"]) auto
qed

lemma complete_rollback_fails: "complete_rollback lib drv plan path s w = (r, w') \<Longrightarrow> r \<noteq> Inr x"
  by (auto simp: complete_rollback_def split: prod.splits elim!: then_call_elim)

lemma fail_operation_fails: "fail_operation lib drv plan path s issue w = (r, w') \<Longrightarrow> r \<noteq> Inr x"
  by (auto simp: fail_operation_def Let_def split: if_splits elim!: then_call_elim dest: complete_rollback_fails)

lemma run_phases_calls:
  fixes w :: "('d \<times> OperationPhase list) op_world"
  assumes "running_ledger lib plan s"
    and "drop (length (os_completed s)) (kind_phases (op_operation plan)) = phases"
    and "run_phases lib (recording drv) plan path phases s w = (r, w')"
  shows "\<exists>cs. calls w' = calls w @ cs \<and> calls_allowed (length (os_completed s)) phases cs r"
  using assms
proof (induction phases arbitrary: s w)
  case Nil
  let ?s = "s \<lparr>os_status := Succeeded, os_current_phase := None\<rparr>"
  from Nil(3) have "then_call (save_state lib path ?s w) (\<lambda>_ w. (Inr ?s, w)) = (r, w')" by (simp add: Let_def)
  then have "calls w' = calls w" and "r \<noteq> Inl (OperationFailed i True)" for i
    by (auto elim!: then_call_elim dest: save_state_calls save_state_error)
  then show ?case by (auto simp: calls_allowed_def intro: exI [of _ "[]"])
next
  case (Cons phase phases)
  let ?s = "s \<lparr>os_current_phase := Some phase\<rparr>" and ?n = "length (os_completed s)"
  note begun = running_begin [OF Cons.prems(1,2)]
  from Cons.prems(3) have "then_call (save_state lib path ?s w) (\<lambda>_ w. case run_checked (recording drv) plan ?s phase w of
        (Inl issue, w) \<Rightarrow> fail_operation lib (recording drv) plan path ?s issue w
      | (Inr rep, w) \<Rightarrow> then_call (save_state lib path (?s \<lparr>os_completed := os_completed ?s @ [rep], os_current_phase := None\<rparr>) w)
          (\<lambda>_ w. run_phases lib (recording drv) plan path phases (?s \<lparr>os_completed := os_completed ?s @ [rep], os_current_phase := None\<rparr>) w))
      = (r, w')" by (simp only: run_phases.simps Let_def)
  then show ?case
  proof (cases rule: then_call_elim)
    case (stop e)
    with save_state_calls [OF stop(1)] save_state_error [OF stop(1)] show ?thesis
      by (auto simp: calls_allowed_def intro!: exI [of _ 0])
  next
    case (go u w1)
    obtain checked w2 where w2: "run_checked (recording drv) plan ?s phase w1 = (checked, w2)" by force
    have c2: "calls w2 = calls w @ [phase]" using run_checked_calls [OF w2] save_state_calls [OF go(1)] by simp
    show ?thesis
    proof (cases checked)
      case (Inl issue)
      with go(2) w2 have f: "fail_operation lib (recording drv) plan path ?s issue w2 = (r, w')" by simp
      from fail_operation_calls [OF f] fail_operation_fails [OF f] c2 snapshot_complete_iff [OF Cons.prems(1)]
      show ?thesis by (auto simp: calls_allowed_def intro!: exI [of _ "Suc 0"])
    next
      case (Inr rep)
      let ?s' = "?s \<lparr>os_completed := os_completed ?s @ [rep], os_current_phase := None\<rparr>"
      note added = running_add [OF begun _ run_checked_report [OF w2 [unfolded Inr]], simplified, OF Cons.prems(2)]
      from Inr go(2) w2 have "then_call (save_state lib path ?s' w2) (\<lambda>_ w. run_phases lib (recording drv) plan path phases ?s' w) = (r, w')"
        by (simp only: prod.case sum.case)
      then show ?thesis
      proof (cases rule: then_call_elim)
        case (stop e)
        with save_state_calls [OF stop(1)] save_state_error [OF stop(1)] c2 show ?thesis
          by (auto simp: calls_allowed_def intro!: exI [of _ "Suc 0"])
      next
        case (go u w3)
        from Cons.IH [of ?s' w3] added go(2) obtain cs where
          "calls w' = calls w3 @ cs" "calls_allowed (Suc ?n) phases cs r" by auto
        with save_state_calls [OF go(1)] c2 calls_allowed_Cons [of ?n phases cs r phase] show ?thesis by auto
      qed
    qed
  qed
qed

section \<open>Undisturbed runs\<close>

text \<open>Without faults of the file system, the only error of the store is a ledger the encoder refuses.\<close>

definition only_encode_faults :: "operation_library \<Rightarrow> OperationEngineError + 'a \<Rightarrow> bool" where
  "only_encode_faults lib r \<longleftrightarrow>
     (\<forall>e. r = Inl (StoreFailure e) \<longrightarrow> (\<exists>s m. ol_state_to_json lib s = Inl m \<and> e = StoreEncode m))"

lemma save_state_quiet:
  assumes "ordinary_path path" "quiet_store (ol_pid lib) path (ow_fs w)"
    and "save_state lib path s w = (r, w')"
  shows "only_encode_faults lib r \<and> (r = Inr () \<longrightarrow> quiet_store (ol_pid lib) path (ow_fs w'))"
proof (cases "ol_state_to_json lib s")
  case (Inr b)
  from store_write_quiet [where to_json = "ol_state_to_json lib", OF assms(1,2) this] assms(3) show ?thesis
    by (auto simp: save_state_def only_encode_faults_def)
next
  case (Inl m)
  with assms show ?thesis
    by (auto simp: save_state_def only_encode_faults_def store_write_def quiet_store_def fs_call_quiet
        split: option.splits)
qed

lemma then_save_quiet:
  assumes "ordinary_path path" "quiet_store (ol_pid lib) path (ow_fs w)"
    and "then_call (save_state lib path s w) f = (r, w')"
    and "\<And>w1. quiet_store (ol_pid lib) path (ow_fs w1) \<Longrightarrow> f () w1 = (r, w') \<Longrightarrow> only_encode_faults lib r"
  shows "only_encode_faults lib r"
  using assms(3)
proof (cases rule: then_call_elim)
  case (stop e')
  with save_state_quiet [OF assms(1-2) stop(1)] show ?thesis by (simp add: only_encode_faults_def)
next
  case (go u w1)
  with save_state_quiet [OF assms(1-2) go(1)] show ?thesis by (intro assms(4) [of w1]) simp_all
qed

lemma complete_rollback_quiet:
  assumes "ordinary_path path" "quiet_store (ol_pid lib) path (ow_fs w)"
    and "complete_rollback lib drv plan path s w = (r, w')"
  shows "only_encode_faults lib r"
proof -
  obtain d s' rolled where "then_call (save_state lib path s' (w \<lparr>ow_driver := d\<rparr>))
      (\<lambda>_ w. (Inl (OperationFailed (op_operation_id plan) rolled), w)) = (r, w')"
    using assms(3) by (auto simp: complete_rollback_def split: prod.splits)
  then show ?thesis by (rule then_save_quiet [OF assms(1), rotated]) (use assms(2) in \<open>auto simp: only_encode_faults_def\<close>)
qed

lemma fail_operation_quiet:
  assumes "ordinary_path path" "quiet_store (ol_pid lib) path (ow_fs w)"
    and "fail_operation lib drv plan path s issue w = (r, w')"
  shows "only_encode_faults lib r"
proof (cases "list_ex (\<lambda>r. pr_phase r = Snapshot) (os_completed s)")
  case False
  note call = assms(3) [unfolded fail_operation_def Let_def]
  with False show ?thesis by (simp, elim then_save_quiet [OF assms(1-2)]) (auto simp: only_encode_faults_def)
next
  case True
  note call = assms(3) [unfolded fail_operation_def Let_def]
  with True show ?thesis by (simp, elim then_save_quiet [OF assms(1-2)]) (rule complete_rollback_quiet [OF assms(1)])
qed

lemma run_checked_fs: "run_checked drv plan s phase w = (c, w') \<Longrightarrow> ow_fs w' = ow_fs w"
  by (auto simp: run_checked_def split: prod.splits)

lemma run_phases_quiet:
  fixes w :: "'d op_world"
  assumes "ordinary_path path" "quiet_store (ol_pid lib) path (ow_fs w)"
    and "run_phases lib drv plan path phases s w = (r, w')"
  shows "only_encode_faults lib r"
  using assms(2,3)
proof (induction phases arbitrary: s w)
  case Nil
  note call = Nil(2) [unfolded run_phases.simps Let_def]
  then show ?case by (rule then_save_quiet [OF assms(1) Nil(1)]) (auto simp: only_encode_faults_def)
next
  case (Cons phase phases)
  note call = Cons.prems(2) [unfolded run_phases.simps Let_def]
  show ?case
  proof (rule then_save_quiet [OF assms(1) Cons.prems(1) call])
    fix w1 :: "'d op_world"
    assume w1: "quiet_store (ol_pid lib) path (ow_fs w1)"
    obtain c w2 where w2: "run_checked drv plan (s \<lparr>os_current_phase := Some phase\<rparr>) phase w1 = (c, w2)" by force
    have q2: "quiet_store (ol_pid lib) path (ow_fs w2)" using w1 run_checked_fs [OF w2] by simp
    assume step: "(case run_checked drv plan (s \<lparr>os_current_phase := Some phase\<rparr>) phase w1 of
        (Inl issue, w) \<Rightarrow> fail_operation lib drv plan path (s \<lparr>os_current_phase := Some phase\<rparr>) issue w
      | (Inr rep, w) \<Rightarrow> then_call (save_state lib path (s \<lparr>os_current_phase := Some phase,
            os_completed := os_completed (s \<lparr>os_current_phase := Some phase\<rparr>) @ [rep], os_current_phase := None\<rparr>) w)
          (\<lambda>_ w. run_phases lib drv plan path phases (s \<lparr>os_current_phase := Some phase,
            os_completed := os_completed (s \<lparr>os_current_phase := Some phase\<rparr>) @ [rep], os_current_phase := None\<rparr>) w)) = (r, w')"
    show "only_encode_faults lib r"
    proof (cases c)
      case (Inl issue)
      note step [unfolded w2 Inl prod.case sum.case]
      then show ?thesis by (rule fail_operation_quiet [OF assms(1) q2])
    next
      case (Inr rep)
      note step [unfolded w2 Inr prod.case sum.case]
      then show ?thesis by (rule then_save_quiet [OF assms(1) q2]) (rule Cons.IH)
    qed
  qed
qed

lemma lock_call_quiet: "fs_faults (ow_fs w) = [] \<Longrightarrow> lock_call op p eff w = (Inr (), w \<lparr>ow_fs := eff (ow_fs w)\<rparr>)"
  by (simp add: lock_call_def next_fault_def)

lemma acquire_lock_quiet:
  assumes "fs_faults (ow_fs w) = []" "\<not> ow_locked w" "path_parent lp \<noteq> None" "\<forall>l. \<exists>b. ol_lock_to_json lib l = Inr b"
  shows "\<exists>c. acquire_lock lib lp i w = (Inr (), w \<lparr>ow_fs := set_file lp (Some c) (ow_fs w)\<rparr>)"
proof -
  define l where "l = \<lparr>lr_schema_version = OPERATION_SCHEMA_VERSION, lr_operation_id = i, lr_pid = ol_pid lib, lr_acquired_at = ol_now lib\<rparr>"
  from assms(4) obtain c where c: "ol_lock_to_json lib l = Inr c" by blast
  have "fs_faults (set_file p x fs) = fs_faults fs" for p x fs by (simp add: set_file_def)
  then have "acquire_lock lib lp i w = (Inr (), w \<lparr>ow_fs := set_file lp (Some c) (ow_fs w)\<rparr>)"
    using assms(1-3) c by (auto simp: acquire_lock_def lock_call_quiet set_file_def simp flip: l_def)
  then show ?thesis by blast
qed

section \<open>Properties of a transaction\<close>

text \<open>
  (C22) A transaction can always be resumed. Start an operation on a state file that is absent or holds
  a ledger the engine wrote for the same plan. Whatever the driver answers and wherever a file
  system call fails, or the process dies, the state file afterwards is absent or holds a sound ledger
  of that plan, and every stored ledger passes the validation with which the next run begins.
\<close>

theorem ledger_always_resumable:
  assumes "usable_store lib sp" and "lp \<noteq> sp" and "sound_store lib plan sp w"
    and "execute_operation lib drv plan sp lp w = (r, w')"
  shows "sound_store lib plan sp w' \<and> (\<forall>s. stored_ledger lib sp w' s \<longrightarrow> validate_for lib s plan = Inr ())"
proof -
  have sound: "sound_store lib plan sp w'" using execute_ended [OF assms] by simp
  then have "sound_ledger lib plan s" if "stored_ledger lib sp w' s" for s
    using that by (auto simp: sound_store_def stored_ledger_def)
  with sound sound_validates show ?thesis by blast
qed

lemma sound_success:
  assumes "sound_ledger lib plan s" "os_status s = Succeeded"
  shows "map pr_phase (os_completed s) = kind_phases (op_operation plan)"
    "total_ms pr_elapsed_ms (os_completed s) \<le> 60000" "total_ms pr_public_interruption_ms (os_completed s) \<le> 5000"
    "list_all (\<lambda>r. pr_elapsed_ms r \<le> timeout_for (op_budgets plan) (pr_phase r)) (os_completed s)"
proof -
  have budgets: "budgets_contract (op_operation plan) (op_budgets plan)"
    using assms(1) by (auto simp: sound_ledger_def dest: plan_sha256_Inr intro: validate_plan_budgets)
  have n: "os_completed s = normal_reports s" and p: "map pr_phase (os_completed s) = kind_phases (op_operation plan)"
    using assms by (auto simp: sound_ledger_def status_sound_def)
  have held: "budgets_held plan (os_completed s)" using assms(1) n by (simp add: sound_ledger_def)
  show "map pr_phase (os_completed s) = kind_phases (op_operation plan)" by (rule p)
  show "total_ms pr_elapsed_ms (os_completed s) \<le> 60000" "total_ms pr_public_interruption_ms (os_completed s) \<le> 5000"
    "list_all (\<lambda>r. pr_elapsed_ms r \<le> timeout_for (op_budgets plan) (pr_phase r)) (os_completed s)"
    using held budgets_small [OF budgets] by (simp_all add: budgets_held_def)
qed


text \<open>
  (C24) Phases run in order and a rollback is justified. An operation without a ledger asks its driver
  for some of the phases of its plan, in the plan's order and each once. A rollback is asked for at
  most once, last, and only after the snapshot was completed and a later phase failed. A
  successful operation ran every phase, and one that reports a rollback had it.
\<close>

theorem phases_in_order_rollback_last:
  fixes w :: "('d \<times> OperationPhase list) op_world"
  assumes "fs_files (ow_fs w) sp = None" and "lp \<noteq> sp" and "ow_driver w = (d, [])"
    and "execute_operation lib (recording drv) plan sp lp w = (r, w')"
  shows "let phases = kind_phases (op_operation plan); cs = snd (ow_driver w') in
    (\<exists>k \<le> length phases. cs = take k phases \<or> 3 \<le> k \<and> cs = take k phases @ [Rollback])
    \<and> (\<forall>s. r = Inr s \<longrightarrow> cs = phases) \<and> (\<forall>i. r = Inl (OperationFailed i True) \<longrightarrow> last cs = Rollback)"
proof -
  have "calls_allowed 0 (kind_phases (op_operation plan)) (calls w') r"
    using assms(4,2)
  proof (cases rule: execute_cases)
    case (early e)
    with assms(3) show ?thesis by (auto simp: calls_allowed_def intro: exI [of _ 0])
  next
    case (continue s w2)
    from continue(1) assms(1) have "new_state lib plan = Inr s" by (auto simp: stored_ledger_def)
    with new_state_sound have s: "running_ledger lib plan s" "os_status s = Running" "os_completed s = []" "normal_phase_count s = 0"
      by (auto simp: running_ledger_def normal_phase_count_def normal_reports_def)
    from continue(4) have "then_call (save_state lib sp s w2)
        (\<lambda>_ w. run_phases lib (recording drv) plan sp (kind_phases (op_operation plan)) s w) = (r, w')"
      by (simp add: continue_operation_def s)
    then show ?thesis
    proof (cases rule: then_call_elim)
      case (stop e)
      with save_state_calls [OF stop(1)] save_state_error [OF stop(1)] continue(3) assms(3) show ?thesis
        by (auto simp: calls_allowed_def intro: exI [of _ 0])
    next
      case (go u w3)
      with run_phases_calls [OF s(1) _ go(2)] save_state_calls [OF go(1)] continue(3) assms(3) s show ?thesis by auto
    qed
  qed
  then show ?thesis by (auto simp: calls_allowed_def Let_def)
qed

text \<open>
  (C2) An undisturbed operation concludes. With the lock free, no ledger yet and no fault of the file
  system, whatever the driver answers the engine returns either the complete succeeded ledger or a
  reported failure whose ledger is stored: rolled back when it says so, otherwise failed before the
  snapshot or with a failed rollback. The one exception is a ledger the JSON encoder refuses.
\<close>

theorem undisturbed_operation_concludes:
  assumes "usable_store lib sp" and "\<forall>l. \<exists>b. ol_lock_to_json lib l = Inr b" and "lp \<noteq> sp" and "path_parent lp \<noteq> None"
    and "quiet_store (ol_pid lib) sp (ow_fs w)" and "\<forall>n. lp \<noteq> butlast sp @ [NormalComp (temp_name (ol_pid lib) n)]"
    and "fs_files (ow_fs w) sp = None" and "\<not> ow_locked w" and "validate_plan plan = Inr ()"
    and "ol_plan_json lib plan = Inr bytes" and "execute_operation lib drv plan sp lp w = (r, w')"
  shows "(\<exists>s. stored_ledger lib sp w' s
      \<and> (r = Inr s \<and> os_status s = Succeeded
         \<or> (\<exists>rolled. r = Inl (OperationFailed (op_operation_id plan) rolled) \<and> failure_recorded s rolled)))
    \<or> (\<exists>s m. ol_state_to_json lib s = Inl m \<and> r = Inl (StoreFailure (StoreEncode m)))"
proof -
  have path: "ordinary_path sp" using assms(1) by (simp add: usable_store_def)
  obtain c where lock: "acquire_lock lib lp (op_operation_id plan) w = (Inr (), w \<lparr>ow_fs := set_file lp (Some c) (ow_fs w)\<rparr>)"
    using acquire_lock_quiet [of w lp lib "op_operation_id plan"] assms(2,4,5,8) by (auto simp: quiet_store_def)
  define w1 where "w1 = w \<lparr>ow_fs := set_file lp (Some c) (ow_fs w)\<rparr>"
  have none: "fs_files (ow_fs w1) sp = None" using assms(3,7) by (simp add: w1_def)
  have q1: "quiet_store (ol_pid lib) sp (ow_fs w1)"
    using assms(5,6) by (auto simp: quiet_store_def w1_def set_file_def)
  obtain s where new: "new_state lib plan = Inr s" using assms(9,10) by (simp add: new_state_def plan_sha256_def)
  have s: "sound_ledger lib plan s" "os_status s = Running" "os_completed s = []" using new_state_sound [OF new] by auto
  have call: "then_call (save_state lib sp s w1) (\<lambda>_ w. run_phases lib drv plan sp (kind_phases (op_operation plan)) s w) = (r, w')"
    using assms(9,11) lock new none s sound_validates [OF s(1)]
    by (simp add: execute_operation_def resume_state_def store_exists_def continue_operation_def
        normal_phase_count_def normal_reports_def w1_def)
  then have faults: "only_encode_faults lib r"
    by (rule then_save_quiet [OF path q1]) (rule run_phases_quiet [OF path])
  have "sound_store lib plan sp w1" using none by (simp add: sound_store_def)
  then have "run_ended lib plan sp r w'"
    by (rule save_then_ended [OF s(1) _ call _ assms(1)])
      (rule run_phases_ended [OF _ _ _ _ assms(1)], use s in \<open>simp_all add: running_ledger_def\<close>)
  with faults show ?thesis
    by (auto simp: run_ended_def only_encode_faults_def split: sum.splits OperationEngineError.splits)
qed

section \<open>A restore, run to completion\<close>

text \<open>
  A restore plan, a driver that completes every phase in 100 milliseconds, and a codec for the
  ledgers of that run.
\<close>

definition sample_plan :: OperationPlan where
  "sample_plan = new_plan ''op-1'' KindRestore ''r-1'' VpsGuardPublic NginxPublic [ListenerInventory]"

definition sample_report :: "OperationPhase \<Rightarrow> PhaseReport" where
  "sample_report p = \<lparr>pr_phase = p, pr_elapsed_ms = 100, pr_public_interruption_ms = 0\<rparr>"

definition sample_driver :: "unit OperationDriver" where
  "sample_driver = \<lparr>drv_run_phase = (\<lambda>_ p _ d. (Inr (sample_report p), d)),
     drv_rollback = (\<lambda>_ _ d. (Inr (sample_report Rollback), d))\<rparr>"

definition sample_ledger :: "nat \<Rightarrow> OperationPhase option \<Rightarrow> OperationStatus \<Rightarrow> OperationState" where
  "sample_ledger n current st =
     \<lparr>os_schema_version = 1, os_operation_id = ''op-1'', os_plan_sha256 = ''plan'', os_status = st,
      os_current_phase = current, os_completed = map sample_report (take n (kind_phases KindRestore)),
      os_last_issue = None, os_rollback_issue = None\<rparr>"

definition sample_ledgers :: "OperationState list" where
  "sample_ledgers =
     concat (map (\<lambda>n. [sample_ledger n None Running, sample_ledger n (Some (kind_phases KindRestore ! n)) Running]) [0..<6])
     @ [sample_ledger 6 None Running, sample_ledger 6 None Succeeded]"

definition sample_encode :: "OperationState \<Rightarrow> string + string" where
  "sample_encode s = (case find (\<lambda>i. sample_ledgers ! i = s) [0..<length sample_ledgers] of
     None \<Rightarrow> Inl ''unknown'' | Some i \<Rightarrow> Inr (replicate i (CHR ''x'')))"

definition sample_decode :: "string \<Rightarrow> string + OperationState" where
  "sample_decode b = (if length b < length sample_ledgers then Inr (sample_ledgers ! length b) else Inl ''unknown'')"

definition sample_operation_library :: operation_library where
  "sample_operation_library =
     \<lparr>ol_plan_json = (\<lambda>_. Inr ''plan''), ol_sha256_hex = id, ol_state_to_json = sample_encode,
      ol_state_of_json = sample_decode, ol_lock_to_json = (\<lambda>l. Inr (lr_operation_id l)),
      ol_lock_of_json = (\<lambda>_. Inl ''unknown''), ol_pid = 7, ol_now = ''now''\<rparr>"

definition sample_world :: "unit op_world" where
  "sample_world = \<lparr>ow_driver = (), ow_fs = \<lparr>fs_files = Map.empty, fs_faults = [], fs_sequence = 1\<rparr>, ow_locked = False\<rparr>"

definition sample_state_path :: path_key where
  "sample_state_path = [RootDir, NormalComp ''state'', NormalComp ''op.json'']"

definition sample_lock_path :: path_key where
  "sample_lock_path = [RootDir, NormalComp ''run'', NormalComp ''op.lock'']"

lemma sample_codec: "faithful_codec sample_operation_library"
  by (auto simp: faithful_codec_def sample_operation_library_def sample_encode_def sample_decode_def find_Some_iff
      split: option.splits)

lemma sample_usable: "usable_store sample_operation_library sample_state_path"
  by (simp add: usable_store_def sample_codec ordinary_path_def sample_state_path_def starts_with_def)

lemma sample_paths: "sample_lock_path \<noteq> sample_state_path"
  by (simp add: sample_lock_path_def sample_state_path_def)

lemma sample_fresh: "sound_store sample_operation_library sample_plan sample_state_path sample_world"
  by (simp add: sound_store_def sample_world_def)

lemma sample_ledger_known:
  "n < 6 \<Longrightarrow> sample_ledger n (Some (kind_phases KindRestore ! n)) Running \<in> set sample_ledgers"
  "n \<le> 6 \<Longrightarrow> sample_ledger n None Running \<in> set sample_ledgers" "sample_ledger 6 None Succeeded \<in> set sample_ledgers"
proof -
  show "n < 6 \<Longrightarrow> sample_ledger n (Some (kind_phases KindRestore ! n)) Running \<in> set sample_ledgers"
    by (auto simp: sample_ledgers_def)
  show "n \<le> 6 \<Longrightarrow> sample_ledger n None Running \<in> set sample_ledgers"
    by (cases "n = 6") (auto simp: sample_ledgers_def)
qed (simp add: sample_ledgers_def)

lemma sample_save:
  assumes "quiet_store 7 sample_state_path (ow_fs w)" and "s \<in> set sample_ledgers"
  shows "\<exists>w'. save_state sample_operation_library sample_state_path s w = (Inr (), w') \<and> quiet_store 7 sample_state_path (ow_fs w')"
proof -
  from assms(2) obtain i where "i < length sample_ledgers" "sample_ledgers ! i = s" by (auto simp: in_set_conv_nth)
  then have "find (\<lambda>i. sample_ledgers ! i = s) [0..<length sample_ledgers] \<noteq> None"
    unfolding find_None_iff by auto
  then obtain b where b: "sample_encode s = Inr b" by (auto simp: sample_encode_def)
  have "ordinary_path sample_state_path" using sample_usable by (simp add: usable_store_def)
  from store_write_quiet [OF this assms(1), of sample_encode s b] b show ?thesis
    by (auto simp: save_state_def sample_operation_library_def)
qed

lemma sample_report_ok:
  assumes "n < 6" and "p = kind_phases KindRestore ! n"
  shows "validate_phase_report sample_plan (sample_ledger n (Some p) Running) p (sample_report p) = Inr ()"
proof -
  from assms(1) consider "n = 0" | "n = 1" | "n = 2" | "n = 3" | "n = 4" | "n = 5" by linarith
  then show ?thesis unfolding assms(2)
    by cases (simp_all add: validate_phase_report_def sample_plan_def new_plan_def budgets_for_kind_def sample_report_def
        sample_ledger_def state_elapsed_ms_def state_interruption_ms_def normal_reports_def outcome_simps
        saturating_add_def MAX_PREFLIGHT_MS_def MAX_PUBLIC_INTERRUPTION_MS_def MAX_RESTORE_MS_def)
qed

lemma sample_run:
  assumes "quiet_store 7 sample_state_path (ow_fs w)" and "n \<le> 6"
  shows "\<exists>w'. run_phases sample_operation_library sample_driver sample_plan sample_state_path (drop n (kind_phases KindRestore))
      (sample_ledger n None Running) w = (Inr (sample_ledger 6 None Succeeded), w')"
  using assms
proof (induction "6 - n" arbitrary: n w)
  case 0
  then have n: "n = 6" by simp
  have "sample_ledger 6 None Running \<lparr>os_status := Succeeded, os_current_phase := None\<rparr> = sample_ledger 6 None Succeeded"
    by (simp add: sample_ledger_def)
  with sample_save [OF 0(2) sample_ledger_known(3)] n show ?case by (auto simp: Let_def)
next
  case (Suc m)
  let ?p = "kind_phases KindRestore ! n"
  from Suc have n: "n < 6" by simp
  have split: "drop n (kind_phases KindRestore) = ?p # drop (Suc n) (kind_phases KindRestore)"
    by (rule Cons_nth_drop_Suc [symmetric]) (use n in simp)
  have take: "take (Suc n) (kind_phases KindRestore) = take n (kind_phases KindRestore) @ [?p]"
    by (rule take_Suc_conv_app_nth) (use n in simp)
  have s1: "sample_ledger n None Running \<lparr>os_current_phase := Some ?p\<rparr> = sample_ledger n (Some ?p) Running"
    and s2: "sample_ledger n (Some ?p) Running \<lparr>os_completed := os_completed (sample_ledger n (Some ?p) Running) @ [sample_report ?p],
      os_current_phase := None\<rparr> = sample_ledger (Suc n) None Running"
    unfolding sample_ledger_def take by simp_all
  obtain w1 where w1: "save_state sample_operation_library sample_state_path (sample_ledger n (Some ?p) Running) w = (Inr (), w1)"
    and q1: "quiet_store 7 sample_state_path (ow_fs w1)"
    using sample_save [OF Suc.prems(1) sample_ledger_known(1) [OF n]] by blast
  have checked: "run_checked sample_driver sample_plan (sample_ledger n (Some ?p) Running) ?p w1 = (Inr (sample_report ?p), w1)"
    using sample_report_ok [OF n refl] by (simp add: run_checked_def sample_driver_def)
  obtain w2 where w2: "save_state sample_operation_library sample_state_path (sample_ledger (Suc n) None Running) w1 = (Inr (), w2)"
    and q2: "quiet_store 7 sample_state_path (ow_fs w2)"
    using sample_save [OF q1 sample_ledger_known(2)] n by (metis Suc_leI)
  show ?case
    unfolding split run_phases.simps Let_def s1 w1 then_call_simps checked prod.case sum.case s2 w2
    by (rule Suc.hyps(1)) (use Suc.hyps(2) q2 n in auto)
qed

lemma sample_success:
  "\<exists>w'. execute_operation sample_operation_library sample_driver sample_plan sample_state_path sample_lock_path sample_world
     = (Inr (sample_ledger 6 None Succeeded), w')"
proof -
  let ?lib = sample_operation_library
  have plan: "validate_plan sample_plan = Inr ()" by code_simp
  have new: "new_state ?lib sample_plan = Inr (sample_ledger 0 None Running)"
    using plan by (simp add: new_state_def plan_sha256_def sample_operation_library_def sample_ledger_def
        OPERATION_SCHEMA_VERSION_def sample_plan_def new_plan_def)
  obtain c where lock: "acquire_lock ?lib sample_lock_path ''op-1'' sample_world
      = (Inr (), sample_world \<lparr>ow_fs := set_file sample_lock_path (Some c) (ow_fs sample_world)\<rparr>)"
    using acquire_lock_quiet [of sample_world sample_lock_path ?lib "''op-1''"]
    by (auto simp: sample_world_def sample_lock_path_def path_parent_def sample_operation_library_def)
  let ?w = "sample_world \<lparr>ow_fs := set_file sample_lock_path (Some c) (ow_fs sample_world)\<rparr>"
  have q: "quiet_store 7 sample_state_path (ow_fs ?w)"
    by (auto simp: quiet_store_def sample_world_def set_file_def sample_state_path_def sample_lock_path_def path_parent_def)
  obtain w1 where w1: "save_state ?lib sample_state_path (sample_ledger 0 None Running) ?w = (Inr (), w1)"
    and q1: "quiet_store 7 sample_state_path (ow_fs w1)"
    using sample_save [OF q sample_ledger_known(2), of 0] by auto
  have "resume_state ?lib sample_plan sample_state_path ?w = (Inr (sample_ledger 0 None Running), ?w)"
    using new sample_paths by (simp add: resume_state_def store_exists_def sample_world_def)
  moreover have "validate_for ?lib (sample_ledger 0 None Running) sample_plan = Inr ()"
    using new_state_sound [OF new] by (simp add: sound_validates)
  moreover have "continue_operation ?lib sample_driver sample_plan sample_state_path (sample_ledger 0 None Running) ?w
      = run_phases ?lib sample_driver sample_plan sample_state_path (drop 0 (kind_phases KindRestore)) (sample_ledger 0 None Running) w1"
  proof -
    have "os_status (sample_ledger 0 None Running) = Running" "normal_phase_count (sample_ledger 0 None Running) = 0"
      "op_operation sample_plan = KindRestore"
      by (simp_all add: sample_ledger_def normal_phase_count_def normal_reports_def sample_plan_def new_plan_def)
    with w1 show ?thesis by (simp only: continue_operation_def OperationStatus.case then_call_simps)
  qed
  moreover have "op_operation_id sample_plan = ''op-1''" by (simp add: sample_plan_def new_plan_def)
  ultimately show ?thesis
    using sample_run [OF q1, of 0] plan lock
    by (simp only: execute_operation_def map_err.simps then_call_simps)
qed

theorem ledger_always_resumable_witness:
  "\<exists>r w'. execute_operation sample_operation_library sample_driver sample_plan sample_state_path sample_lock_path sample_world = (r, w')
     \<and> sound_store sample_operation_library sample_plan sample_state_path w'"
proof -
  obtain w' where "execute_operation sample_operation_library sample_driver sample_plan sample_state_path sample_lock_path sample_world
      = (Inr (sample_ledger 6 None Succeeded), w')" using sample_success by blast
  with ledger_always_resumable [OF sample_usable sample_paths sample_fresh this] show ?thesis by blast
qed


text \<open>A driver whose third phase fails.\<close>

definition failing_driver :: "unit OperationDriver" where
  "failing_driver = \<lparr>drv_run_phase = (\<lambda>_ p _ d.
       (if p = ValidateCandidate then Inl \<lparr>oi_code = ''CANDIDATE'', oi_cause = CauseText ''invalid''\<rparr> else Inr (sample_report p), d)),
     drv_rollback = (\<lambda>_ _ d. (Inr (sample_report Rollback), d))\<rparr>"

theorem phases_in_order_rollback_last_witness:
  "\<exists>r w'. execute_operation sample_operation_library (recording failing_driver) sample_plan sample_state_path sample_lock_path
         \<lparr>ow_driver = ((), []), ow_fs = ow_fs sample_world, ow_locked = False\<rparr> = (r, w')
     \<and> (\<exists>k \<le> length (kind_phases KindRestore). snd (ow_driver w') = take k (kind_phases KindRestore)
         \<or> 3 \<le> k \<and> snd (ow_driver w') = take k (kind_phases KindRestore) @ [Rollback])"
proof -
  let ?w = "\<lparr>ow_driver = ((), []), ow_fs = ow_fs sample_world, ow_locked = False\<rparr> :: (unit \<times> OperationPhase list) op_world"
  obtain r w' where run: "execute_operation sample_operation_library (recording failing_driver) sample_plan sample_state_path
      sample_lock_path ?w = (r, w')" by force
  have "fs_files (ow_fs ?w) sample_state_path = None" by (simp add: sample_world_def)
  from phases_in_order_rollback_last [OF this sample_paths _ run] have
    "\<exists>k \<le> length (kind_phases KindRestore). snd (ow_driver w') = take k (kind_phases KindRestore)
       \<or> 3 \<le> k \<and> snd (ow_driver w') = take k (kind_phases KindRestore) @ [Rollback]"
    by (simp add: Let_def sample_plan_def new_plan_def del: kind_phases.simps)
  with run show ?thesis by blast
qed

theorem undisturbed_operation_concludes_witness:
  "\<exists>r w'. execute_operation sample_operation_library sample_driver sample_plan sample_state_path sample_lock_path sample_world = (r, w')
     \<and> ((\<exists>s. stored_ledger sample_operation_library sample_state_path w' s
           \<and> (r = Inr s \<and> os_status s = Succeeded
              \<or> (\<exists>rolled. r = Inl (OperationFailed (op_operation_id sample_plan) rolled) \<and> failure_recorded s rolled)))
         \<or> (\<exists>s m. ol_state_to_json sample_operation_library s = Inl m \<and> r = Inl (StoreFailure (StoreEncode m))))"
proof -
  obtain r w' where run: "execute_operation sample_operation_library sample_driver sample_plan sample_state_path
      sample_lock_path sample_world = (r, w')" by force
  have "validate_plan sample_plan = Inr ()" by code_simp
  from undisturbed_operation_concludes [OF sample_usable _ sample_paths _ _ _ _ _ this _ run, of "''plan''"] run show ?thesis
    by (auto simp: sample_operation_library_def sample_lock_path_def sample_state_path_def sample_world_def path_parent_def
        quiet_store_def)
qed

end
