(* ===== verification/Edge_Security.thy ===== *)
theory Edge_Security
  imports Config Profiles
begin

text \<open>
  Request framing and response headers of \<open>guard-edge/src/security.rs\<close>. The header maps belong to
  the HTTP library: of a request the model sees what \<open>get_all\<close> returns for a name, and a response
  is an abstract header map with its operations. The framing check is characterised
  on the raw header lines, and the response policy by what it leaves in the map.
\<close>

section \<open>Request framing\<close>

datatype FramingViolation =
  DuplicateHost | DuplicateContentLength | ConflictingLengthSignals | InvalidTransferEncoding

definition trim_ascii :: "string \<Rightarrow> string" where
  "trim_ascii s = rev (dropWhile is_ascii_whitespace (rev (dropWhile is_ascii_whitespace s)))"

record RawFramingHeaders =
  rf_host_count :: nat
  rf_content_length_count :: nat
  rf_transfer_encoding_count :: nat
  rf_invalid_transfer_encoding :: bool

definition no_framing_headers :: RawFramingHeaders where
  "no_framing_headers = \<lparr>rf_host_count = 0, rf_content_length_count = 0, rf_transfer_encoding_count = 0,
     rf_invalid_transfer_encoding = False\<rparr>"

text \<open>The loop over the lines after the request line; the empty line ends it.\<close>

fun raw_framing_lines :: "string list \<Rightarrow> RawFramingHeaders \<Rightarrow> RawFramingHeaders" where
  "raw_framing_lines [] result = result"
| "raw_framing_lines (raw # lines) result =
     (let line = trim_ascii raw in
      if line = [] then result
      else case split_once (CHR '':'') line of
        None \<Rightarrow> raw_framing_lines lines result
      | Some (n, v) \<Rightarrow>
          let name = trim_ascii n; value = trim_ascii v in
          raw_framing_lines lines
            (if eq_ignore_ascii_case name ''host''
             then result \<lparr>rf_host_count := Suc (rf_host_count result)\<rparr>
             else if eq_ignore_ascii_case name ''content-length''
             then result \<lparr>rf_content_length_count := Suc (rf_content_length_count result)\<rparr>
             else if eq_ignore_ascii_case name ''transfer-encoding''
             then result \<lparr>rf_transfer_encoding_count := Suc (rf_transfer_encoding_count result),
                          rf_invalid_transfer_encoding :=
                            rf_invalid_transfer_encoding result \<or> \<not> eq_ignore_ascii_case value ''chunked''\<rparr>
             else result))"

definition parse_raw_framing :: "string \<Rightarrow> RawFramingHeaders" where
  "parse_raw_framing raw =
     (let result = raw_framing_lines (tl (split_on (CHR 0x0A) raw)) no_framing_headers
      in result \<lparr>rf_invalid_transfer_encoding :=
           rf_invalid_transfer_encoding result \<or> rf_transfer_encoding_count result > 1\<rparr>)"

text \<open>
  A parsed request header: the values \<open>get_all\<close> returns for a name, and \<open>to_str\<close> of a value, which
  is absent when the value is not visible ASCII.
\<close>

record RequestHeader =
  rh_get_all :: "string \<Rightarrow> string list"
  rh_to_str :: "string \<Rightarrow> string option"

definition chunked_value :: "RequestHeader \<Rightarrow> string \<Rightarrow> bool" where
  "chunked_value request v = (case rh_to_str request v of
     None \<Rightarrow> False | Some t \<Rightarrow> eq_ignore_ascii_case (trim t) ''chunked'')"

definition validate_request_framing :: "string \<Rightarrow> RequestHeader \<Rightarrow> FramingViolation + unit" where
  "validate_request_framing raw_header request =
     (let raw = parse_raw_framing raw_header;
          content_lengths = max (rf_content_length_count raw) (length (rh_get_all request ''content-length''));
          encodings = rh_get_all request ''transfer-encoding'';
          encoding_count = max (rf_transfer_encoding_count raw) (length encodings);
          invalid_encoding = (encodings \<noteq> [] \<and> (length encodings \<noteq> 1 \<or> \<not> chunked_value request (hd encodings)))
      in checks
        [reject_if (max (rf_host_count raw) (length (rh_get_all request ''host'')) > 1) DuplicateHost,
         reject_if (content_lengths > 1) DuplicateContentLength,
         reject_if (content_lengths > 0 \<and> encoding_count > 0) ConflictingLengthSignals,
         reject_if (rf_invalid_transfer_encoding raw \<or> invalid_encoding) InvalidTransferEncoding])"

definition rejects_method :: "string \<Rightarrow> bool" where
  "rejects_method m \<longleftrightarrow> to_ascii_uppercase m \<in> set [''CONNECT'', ''TRACE'', ''TRACK'']"

section \<open>Response headers\<close>

record ResponseSecurityPolicy =
  rsp_baseline_response_headers :: bool
  rsp_strip_origin_headers :: bool
  rsp_csp :: "(csp_mode \<times> string) option"
  rsp_hsts_max_age_seconds :: u64

definition response_policy_from_config ::
  "security_config \<Rightarrow> inspection_mode \<Rightarrow> application_profile \<Rightarrow> ResponseSecurityPolicy" where
  "response_policy_from_config config inspection profile =
     \<lparr>rsp_baseline_response_headers = sc_baseline_response_headers config,
      rsp_strip_origin_headers = sc_strip_origin_headers config,
      rsp_csp = (if inspection = Profiled \<and> sc_csp_mode config \<noteq> CspOff
                 then Some (sc_csp_mode config, case sc_csp_policy config of
                        Some policy \<Rightarrow> policy | None \<Rightarrow> asp_csp_policy (security_profile profile))
                 else None),
      rsp_hsts_max_age_seconds = sc_hsts_max_age_seconds config\<rparr>"

text \<open>The operations of the header map of a response; an insertion fails on a value it refuses.\<close>

record 'h header_map =
  hm_contains_key :: "'h \<Rightarrow> string \<Rightarrow> bool"
  hm_insert_header :: "string \<Rightarrow> string \<Rightarrow> 'h \<Rightarrow> string + 'h"
  hm_remove_header :: "string \<Rightarrow> 'h \<Rightarrow> 'h"

definition insert_if_absent :: "'h header_map \<Rightarrow> string \<Rightarrow> string \<Rightarrow> 'h \<Rightarrow> string + 'h" where
  "insert_if_absent hm name value response =
     (if hm_contains_key hm response name then Inr response else hm_insert_header hm name value response)"

definition apply_response_security ::
  "'h header_map \<Rightarrow> ResponseSecurityPolicy \<Rightarrow> bool \<Rightarrow> 'h \<Rightarrow> string + 'h" where
  "apply_response_security hm policy is_https response =
     (let response = (if rsp_strip_origin_headers policy
            then hm_remove_header hm ''x-aspnet-version''
                   (hm_remove_header hm ''x-powered-by'' (hm_remove_header hm ''server'' response))
            else response)
      in and_then (if rsp_baseline_response_headers policy
            then and_then (insert_if_absent hm ''x-content-type-options'' ''nosniff'' response)
                   (insert_if_absent hm ''referrer-policy'' ''strict-origin-when-cross-origin'')
            else Inr response) (\<lambda>response.
         and_then (if is_https \<and> rsp_hsts_max_age_seconds policy > 0
            then insert_if_absent hm ''strict-transport-security''
                   (''max-age='' @ show_nat (unat (rsp_hsts_max_age_seconds policy))) response
            else Inr response) (\<lambda>response.
         case rsp_csp policy of
           None \<Rightarrow> Inr response
         | Some (CspReportOnly, csp) \<Rightarrow> insert_if_absent hm ''content-security-policy-report-only'' csp response
         | Some (CspEnforce, csp) \<Rightarrow> insert_if_absent hm ''content-security-policy'' csp response
         | Some (CspOff, _) \<Rightarrow> Inr response)))"

section \<open>What an accepted request looks like\<close>

text \<open>
  The header lines of a raw request: trimmed, up to the first empty line, split at the first colon.
\<close>

definition header_line :: "string \<Rightarrow> (string \<times> string) option" where
  "header_line line = map_option (\<lambda>(n, v). (to_ascii_lowercase (trim_ascii n), to_ascii_lowercase (trim_ascii v)))
     (split_once (CHR '':'') line)"

definition header_lines :: "string list \<Rightarrow> (string \<times> string) list" where
  "header_lines lines = List.map_filter header_line (takeWhile (\<lambda>l. l \<noteq> []) (map trim_ascii lines))"

definition raw_values :: "string \<Rightarrow> string \<Rightarrow> string list" where
  "raw_values raw name = map snd (filter (\<lambda>(n, _). n = name) (header_lines (tl (split_on (CHR 0x0A) raw))))"

lemma header_names_distinct:
  "to_ascii_lowercase ''host'' = ''host''" "to_ascii_lowercase ''content-length'' = ''content-length''"
  "to_ascii_lowercase ''transfer-encoding'' = ''transfer-encoding''" "to_ascii_lowercase ''chunked'' = ''chunked''"
  by code_simp+

lemma header_lines_Cons:
  "header_lines (raw # lines) =
     (if trim_ascii raw = [] then []
      else case header_line (trim_ascii raw) of None \<Rightarrow> header_lines lines | Some h \<Rightarrow> h # header_lines lines)"
  by (simp add: header_lines_def List.map_filter_def split: option.split)

abbreviation named :: "string \<Rightarrow> (string \<times> string) list \<Rightarrow> string list" where
  "named name hs \<equiv> map snd (filter (\<lambda>(n, _). n = name) hs)"

lemma raw_framing_lines_counts:
  "raw_framing_lines lines result =
     result \<lparr>rf_host_count := rf_host_count result + length (named ''host'' (header_lines lines)),
             rf_content_length_count := rf_content_length_count result + length (named ''content-length'' (header_lines lines)),
             rf_transfer_encoding_count :=
               rf_transfer_encoding_count result + length (named ''transfer-encoding'' (header_lines lines)),
             rf_invalid_transfer_encoding := rf_invalid_transfer_encoding result
               \<or> list_ex (\<lambda>v. v \<noteq> ''chunked'') (named ''transfer-encoding'' (header_lines lines))\<rparr>"
proof (induction lines arbitrary: result)
  case Nil
  show ?case by (simp add: header_lines_def List.map_filter_def)
next
  case (Cons raw lines)
  show ?case
  proof (cases "trim_ascii raw = [] \<or> split_once (CHR '':'') (trim_ascii raw) = None")
    case True
    then show ?thesis
      by (cases "trim_ascii raw = []") (simp_all add: header_lines_Cons header_line_def Cons.IH)
  next
    case False
    then obtain n v where "split_once (CHR '':'') (trim_ascii raw) = Some (n, v)" "trim_ascii raw \<noteq> []" by auto
    then show ?thesis
      by (simp add: header_lines_Cons header_line_def Cons.IH eq_ignore_ascii_case_def header_names_distinct)
  qed
qed

lemma parse_raw_framing_counts:
  "rf_host_count (parse_raw_framing raw) = length (raw_values raw ''host'')"
  "rf_content_length_count (parse_raw_framing raw) = length (raw_values raw ''content-length'')"
  "rf_transfer_encoding_count (parse_raw_framing raw) = length (raw_values raw ''transfer-encoding'')"
  "rf_invalid_transfer_encoding (parse_raw_framing raw) \<longleftrightarrow>
     raw_values raw ''transfer-encoding'' \<notin> {[], [''chunked'']}"
proof -
  note counts = raw_framing_lines_counts
  show "rf_host_count (parse_raw_framing raw) = length (raw_values raw ''host'')"
    "rf_content_length_count (parse_raw_framing raw) = length (raw_values raw ''content-length'')"
    "rf_transfer_encoding_count (parse_raw_framing raw) = length (raw_values raw ''transfer-encoding'')"
    by (simp_all add: parse_raw_framing_def Let_def counts no_framing_headers_def raw_values_def)
  have "rf_invalid_transfer_encoding (parse_raw_framing raw) \<longleftrightarrow>
      list_ex (\<lambda>v. v \<noteq> ''chunked'') (raw_values raw ''transfer-encoding'') \<or> length (raw_values raw ''transfer-encoding'') > 1"
    by (simp add: parse_raw_framing_def Let_def counts no_framing_headers_def raw_values_def)
  also have "\<dots> \<longleftrightarrow> raw_values raw ''transfer-encoding'' \<notin> {[], [''chunked'']}"
  proof (cases "raw_values raw ''transfer-encoding''")
    case (Cons v vs)
    then show ?thesis by (cases vs) auto
  qed simp
  finally show "rf_invalid_transfer_encoding (parse_raw_framing raw) \<longleftrightarrow>
     raw_values raw ''transfer-encoding'' \<notin> {[], [''chunked'']}" .
qed

text \<open>The contract of the framing check, in both views of the request.\<close>

definition framing_contract :: "string \<times> RequestHeader \<Rightarrow> bool" where
  "framing_contract x = (case x of (raw, request) \<Rightarrow>
     (\<forall>name \<in> {''host'', ''content-length'', ''transfer-encoding''}.
        length (raw_values raw name) \<le> 1 \<and> length (rh_get_all request name) \<le> 1)
     \<and> (raw_values raw ''content-length'' = [] \<and> rh_get_all request ''content-length'' = []
        \<or> raw_values raw ''transfer-encoding'' = [] \<and> rh_get_all request ''transfer-encoding'' = [])
     \<and> (\<forall>v \<in> set (raw_values raw ''transfer-encoding''). v = ''chunked'')
     \<and> (\<forall>v \<in> set (rh_get_all request ''transfer-encoding''). chunked_value request v))"

lemma single_value: "xs \<in> {[], [a]} \<longleftrightarrow> length xs \<le> 1 \<and> (\<forall>v \<in> set xs. v = a)"
  by (cases xs; cases "tl xs") auto

lemma single_checked: "xs = [] \<or> length xs = Suc 0 \<and> P (hd xs) \<longleftrightarrow> length xs \<le> Suc 0 \<and> (\<forall>v \<in> set xs. P v)"
  by (cases xs; cases "tl xs") auto

interpretation framing_check: validated "\<lambda>(raw, request). validate_request_framing raw request" framing_contract
proof
  fix x :: "string \<times> RequestHeader"
  obtain raw request where x: "x = (raw, request)" by force
  show "(\<lambda>(raw, request). validate_request_framing raw request) x = Inr () \<longleftrightarrow> framing_contract x"
    using single_value [of "raw_values raw ''transfer-encoding''" "''chunked''"]
      single_checked [of "rh_get_all request ''transfer-encoding''" "chunked_value request"]
    by (auto simp: x validate_request_framing_def Let_def outcome_simps parse_raw_framing_counts framing_contract_def not_less)
qed


section \<open>What the response policy leaves\<close>

text \<open>
  The documented behaviour of the header map: insertion and removal of one name do what they say and
  leave the other names alone.
\<close>

definition header_map_laws :: "'h header_map \<Rightarrow> bool" where
  "header_map_laws hm \<longleftrightarrow>
     (\<forall>n v h h' m. hm_insert_header hm n v h = Inr h' \<longrightarrow>
        (hm_contains_key hm h' m \<longleftrightarrow> m = n \<or> hm_contains_key hm h m))
     \<and> (\<forall>n h m. hm_contains_key hm (hm_remove_header hm n h) m \<longleftrightarrow> m \<noteq> n \<and> hm_contains_key hm h m)"

lemma insert_if_absent_keys:
  assumes "header_map_laws hm" and "insert_if_absent hm n v h = Inr h'"
  shows "hm_contains_key hm h' m \<longleftrightarrow> m = n \<or> hm_contains_key hm h m"
  using assms by (auto simp: insert_if_absent_def header_map_laws_def split: if_splits)

lemma remove_header_keys:
  "header_map_laws hm \<Longrightarrow> hm_contains_key hm (hm_remove_header hm n h) m \<longleftrightarrow> m \<noteq> n \<and> hm_contains_key hm h m"
  by (auto simp: header_map_laws_def)

definition stripped_headers :: "string set" where
  "stripped_headers = {''server'', ''x-powered-by'', ''x-aspnet-version''}"

definition added_headers :: "ResponseSecurityPolicy \<Rightarrow> bool \<Rightarrow> string set" where
  "added_headers policy is_https =
     (if rsp_baseline_response_headers policy then {''x-content-type-options'', ''referrer-policy''} else {})
     \<union> (if is_https \<and> rsp_hsts_max_age_seconds policy > 0 then {''strict-transport-security''} else {})
     \<union> (case rsp_csp policy of
          Some (CspReportOnly, _) \<Rightarrow> {''content-security-policy-report-only''}
        | Some (CspEnforce, _) \<Rightarrow> {''content-security-policy''} | _ \<Rightarrow> {})"

lemma response_security_keys:
  assumes laws: "header_map_laws hm" and "apply_response_security hm policy is_https h = Inr h'"
  shows "hm_contains_key hm h' m \<longleftrightarrow>
    m \<in> added_headers policy is_https
    \<or> hm_contains_key hm h m \<and> \<not> (rsp_strip_origin_headers policy \<and> m \<in> stripped_headers)"
proof -
  define h0 where "h0 = (if rsp_strip_origin_headers policy
      then hm_remove_header hm ''x-aspnet-version'' (hm_remove_header hm ''x-powered-by'' (hm_remove_header hm ''server'' h))
      else h)"
  have k0: "hm_contains_key hm h0 m \<longleftrightarrow> hm_contains_key hm h m \<and> \<not> (rsp_strip_origin_headers policy \<and> m \<in> stripped_headers)" for m
    by (auto simp: h0_def remove_header_keys [OF laws] stripped_headers_def)
  from assms(2) obtain h1 h2 where
    h1: "(if rsp_baseline_response_headers policy
        then and_then (insert_if_absent hm ''x-content-type-options'' ''nosniff'' h0)
               (insert_if_absent hm ''referrer-policy'' ''strict-origin-when-cross-origin'')
        else Inr h0) = Inr h1"
    and h2: "(if is_https \<and> rsp_hsts_max_age_seconds policy > 0
        then insert_if_absent hm ''strict-transport-security''
               (''max-age='' @ show_nat (unat (rsp_hsts_max_age_seconds policy))) h1
        else Inr h1) = Inr h2"
    and h3: "(case rsp_csp policy of
           None \<Rightarrow> Inr h2
         | Some (CspReportOnly, csp) \<Rightarrow> insert_if_absent hm ''content-security-policy-report-only'' csp h2
         | Some (CspEnforce, csp) \<Rightarrow> insert_if_absent hm ''content-security-policy'' csp h2
         | Some (CspOff, _) \<Rightarrow> Inr h2) = Inr h'"
    unfolding apply_response_security_def Let_def and_then_Inr_iff h0_def by blast
  note keys = insert_if_absent_keys [OF laws]
  have k1: "hm_contains_key hm h1 m \<longleftrightarrow> hm_contains_key hm h0 m
      \<or> rsp_baseline_response_headers policy \<and> m \<in> {''x-content-type-options'', ''referrer-policy''}" for m
    using h1 by (auto simp: and_then_Inr_iff keys split: if_splits)
  have k2: "hm_contains_key hm h2 m \<longleftrightarrow> hm_contains_key hm h1 m
      \<or> is_https \<and> rsp_hsts_max_age_seconds policy > 0 \<and> m = ''strict-transport-security''" for m
    using h2 by (auto simp: keys split: if_splits)
  have k3: "hm_contains_key hm h' m \<longleftrightarrow> hm_contains_key hm h2 m
      \<or> m \<in> (case rsp_csp policy of Some (CspReportOnly, _) \<Rightarrow> {''content-security-policy-report-only''}
        | Some (CspEnforce, _) \<Rightarrow> {''content-security-policy''} | _ \<Rightarrow> {})"
    using h3 by (auto simp: keys split: option.splits csp_mode.splits)
  show ?thesis unfolding k3 k2 k1 k0 added_headers_def by auto
qed

end
