(* ===== verification/Edge_Context.thy ===== *)
theory Edge_Context
  imports Rate_Limit Crawler
begin

text \<open>
  The request context of \<open>guard-edge/src/context.rs\<close>: the per-request record, the gauge of requests
  in flight, and the compare-and-swap loop that acquires a permit for the origin. The loop is
  modelled one atomic access at a time, for any number of requests interleaved in any order, with
  the spurious failures that \<open>compare_exchange_weak\<close> allows. The theorems show that the counter is
  exactly the number of permits held and never exceeds the limit.
\<close>

section \<open>The context\<close>

datatype UpstreamKind = Application | Management

record RequestContext =
  rc_request_id :: string
  rc_method :: string
  rc_host :: "string option"
  rc_direct_peer :: "ip_addr option"
  rc_client_ip :: "ip_addr option"
  rc_forwarded_headers_trusted :: bool
  rc_request_body_bytes_seen :: u64
  rc_response_body_bytes_seen :: u64
  rc_response_status :: u16
  rc_upstream_connection_reused :: "bool option"
  rc_telemetry_emitted :: bool
  rc_bot_class :: bot_class
  rc_bot_provider :: "crawler_provider option"
  rc_bot_verified :: bool
  rc_session_continuity :: bool
  rc_bot_reason :: bot_reason
  rc_user_agent_family :: user_agent_family
  rc_route_class :: route_class
  rc_authentication_route :: bool
  rc_normalized_route :: string
  rc_route_cost :: u8
  rc_policy_version :: u64
  rc_upstream_kind :: UpstreamKind
  rc_tracked :: bool
  rc_origin_permit :: bool

text \<open>
  The last two fields stand for the optional references to the shared counters: whether the context
  counts in the gauge, and whether it holds an origin permit.
\<close>

definition new_context :: RequestContext where
  "new_context =
     \<lparr>rc_request_id = [], rc_method = [], rc_host = None, rc_direct_peer = None, rc_client_ip = None,
      rc_forwarded_headers_trusted = False, rc_request_body_bytes_seen = 0, rc_response_body_bytes_seen = 0,
      rc_response_status = 0, rc_upstream_connection_reused = None, rc_telemetry_emitted = False,
      rc_bot_class = ClassUndeclared, rc_bot_provider = None, rc_bot_verified = False,
      rc_session_continuity = False, rc_bot_reason = NotDeclared, rc_user_agent_family = UaMissing,
      rc_route_class = General, rc_authentication_route = False, rc_normalized_route = ''/'', rc_route_cost = 1,
      rc_policy_version = 0, rc_upstream_kind = Application, rc_tracked = False, rc_origin_permit = False\<rparr>"

section \<open>One request after the other\<close>

text \<open>The counters of the edge, and the operations on them when no other request runs in between.\<close>

record edge_gauges =
  eg_in_flight :: u64
  eg_origin_in_flight :: u64

definition tracked_context :: "edge_gauges \<Rightarrow> RequestContext \<times> edge_gauges" where
  "tracked_context g = (new_context \<lparr>rc_tracked := True\<rparr>, g \<lparr>eg_in_flight := eg_in_flight g + 1\<rparr>)"

definition in_flight_requests :: "RequestContext \<Rightarrow> edge_gauges \<Rightarrow> u64" where
  "in_flight_requests c g = (if rc_tracked c then eg_in_flight g else 0)"

definition try_acquire_origin_capacity ::
  "u64 \<Rightarrow> RequestContext \<Rightarrow> edge_gauges \<Rightarrow> bool \<times> RequestContext \<times> edge_gauges" where
  "try_acquire_origin_capacity limit c g =
     (if rc_origin_permit c then (True, c, g)
      else if eg_origin_in_flight g \<ge> limit then (False, c, g)
      else (True, c \<lparr>rc_origin_permit := True\<rparr>, g \<lparr>eg_origin_in_flight := eg_origin_in_flight g + 1\<rparr>))"

definition drop_context :: "RequestContext \<Rightarrow> edge_gauges \<Rightarrow> edge_gauges" where
  "drop_context c g =
     (let g = (if rc_tracked c then g \<lparr>eg_in_flight := eg_in_flight g - 1\<rparr> else g)
      in if rc_origin_permit c then g \<lparr>eg_origin_in_flight := eg_origin_in_flight g - 1\<rparr> else g)"

section \<open>Requests interleaved\<close>

text \<open>
  Where a request is: before the attempt, in the loop with the value it last saw, holding a permit,
  refused, or dropped.
\<close>

datatype permit_state = Waiting | Looping u64 | Holding | Refused | Dropped

record capacity =
  cp_counter :: u64
  cp_requests :: "permit_state list"

definition set_request :: "nat \<Rightarrow> permit_state \<Rightarrow> capacity \<Rightarrow> capacity" where
  "set_request i p s = s \<lparr>cp_requests := (cp_requests s)[i := p]\<rparr>"

text \<open>One atomic step of request \<open>i\<close>, or the arrival of a new one.\<close>

inductive capacity_step :: "u64 \<Rightarrow> capacity \<Rightarrow> capacity \<Rightarrow> bool" for limit :: u64 where
  arrive: "capacity_step limit s (s \<lparr>cp_requests := cp_requests s @ [Waiting]\<rparr>)"
| load: "i < length (cp_requests s) \<Longrightarrow> cp_requests s ! i = Waiting
    \<Longrightarrow> capacity_step limit s (set_request i (Looping (cp_counter s)) s)"
| refuse: "i < length (cp_requests s) \<Longrightarrow> cp_requests s ! i = Looping c \<Longrightarrow> c \<ge> limit
    \<Longrightarrow> capacity_step limit s (set_request i Refused s)"
| swap: "i < length (cp_requests s) \<Longrightarrow> cp_requests s ! i = Looping c \<Longrightarrow> c < limit \<Longrightarrow> cp_counter s = c
    \<Longrightarrow> capacity_step limit s (set_request i Holding (s \<lparr>cp_counter := c + 1\<rparr>))"
| retry: "i < length (cp_requests s) \<Longrightarrow> cp_requests s ! i = Looping c \<Longrightarrow> c < limit
    \<Longrightarrow> capacity_step limit s (set_request i (Looping (cp_counter s)) s)"
| release: "i < length (cp_requests s) \<Longrightarrow> cp_requests s ! i = Holding
    \<Longrightarrow> capacity_step limit s (set_request i Dropped (s \<lparr>cp_counter := cp_counter s - 1\<rparr>))"
| leave: "i < length (cp_requests s) \<Longrightarrow> cp_requests s ! i \<in> {Waiting, Refused}
    \<Longrightarrow> capacity_step limit s (set_request i Dropped s)"

code_pred capacity_step .

inductive_cases capacity_stepE: "capacity_step limit s s'"

definition idle_capacity :: capacity where
  "idle_capacity = \<lparr>cp_counter = 0, cp_requests = []\<rparr>"

inductive capacity_reachable :: "u64 \<Rightarrow> capacity \<Rightarrow> bool" for limit :: u64 where
  start: "capacity_reachable limit idle_capacity"
| step: "capacity_reachable limit s \<Longrightarrow> capacity_step limit s s' \<Longrightarrow> capacity_reachable limit s'"

definition permits :: "capacity \<Rightarrow> nat" where
  "permits s = length (filter (\<lambda>p. p = Holding) (cp_requests s))"

definition capacity_ok :: "u64 \<Rightarrow> capacity \<Rightarrow> bool" where
  "capacity_ok limit s \<longleftrightarrow> unat (cp_counter s) = permits s \<and> permits s \<le> unat limit"

lemma count_update:
  assumes "i < length xs"
  shows "length (filter P (xs[i := y])) + (if P (xs ! i) then 1 else 0) = length (filter P xs) + (if P y then 1 else 0)"
proof -
  have "length (filter P xs) = length (filter P (take i xs @ xs ! i # drop (Suc i) xs))"
    using id_take_nth_drop [OF assms] by (rule arg_cong)
  moreover have "xs[i := y] = take i xs @ y # drop (Suc i) xs" using assms by (rule upd_conv_take_nth_drop)
  ultimately show ?thesis by simp
qed

lemma permits_set_request:
  assumes "i < length (cp_requests s)"
  shows "permits (set_request i p s) + (if cp_requests s ! i = Holding then 1 else 0)
    = permits s + (if p = Holding then 1 else 0)"
  using count_update [OF assms, of "\<lambda>p. p = Holding"] by (simp add: permits_def set_request_def)

lemma capacity_step_ok: "capacity_step limit s s' \<Longrightarrow> capacity_ok limit s \<Longrightarrow> capacity_ok limit s'"
proof (induction rule: capacity_step.induct)
  case (swap i s c)
  have p: "permits (set_request i Holding (s \<lparr>cp_counter := c + 1\<rparr>)) = Suc (permits s)"
    using permits_set_request [of i "s \<lparr>cp_counter := c + 1\<rparr>" Holding] swap by (simp add: permits_def)
  have "unat c < unat limit" using swap by (simp add: word_less_nat_alt)
  then have "unat c + 1 < 2 ^ LENGTH(64)" using unat_less_pow [of limit] by simp
  then have "unat (c + 1) = Suc (unat c)" by (simp add: unat_word_ariths)
  with p swap \<open>unat c < unat limit\<close> show ?case by (simp add: capacity_ok_def set_request_def)
next
  case (release i s)
  have p: "Suc (permits (set_request i Dropped (s \<lparr>cp_counter := cp_counter s - 1\<rparr>))) = permits s"
    using permits_set_request [of i "s \<lparr>cp_counter := cp_counter s - 1\<rparr>" Dropped] release by (simp add: permits_def)
  with release have "0 < unat (cp_counter s)" by (simp add: capacity_ok_def)
  then have "1 \<le> cp_counter s" by (simp add: word_le_nat_alt)
  then have "unat (cp_counter s - 1) = unat (cp_counter s) - 1" by (simp add: unat_sub)
  with p release show ?case by (simp add: capacity_ok_def set_request_def)
next
  case (arrive s)
  then show ?case by (simp add: capacity_ok_def permits_def)
next
  case (load i s)
  then show ?case using permits_set_request [of i s "Looping (cp_counter s)"] by (simp add: capacity_ok_def set_request_def)
next
  case (refuse i s c)
  then show ?case using permits_set_request [of i s Refused] by (simp add: capacity_ok_def set_request_def)
next
  case (retry i s c)
  then show ?case using permits_set_request [of i s "Looping (cp_counter s)"] by (simp add: capacity_ok_def set_request_def)
next
  case (leave i s)
  then show ?case using permits_set_request [of i s Dropped] by (auto simp: capacity_ok_def set_request_def)
qed

lemma capacity_reachable_ok: "capacity_reachable limit s \<Longrightarrow> capacity_ok limit s"
  by (induction rule: capacity_reachable.induct)
    (auto simp: capacity_ok_def permits_def idle_capacity_def dest: capacity_step_ok [unfolded capacity_ok_def permits_def])

text \<open>
  (C11) The origin is never over-committed. However requests arrive, load the counter, retry a failed
  exchange, are refused or end, in any interleaving of their atomic accesses, the counter equals
  the number of requests that hold a permit and that number never exceeds the limit. When every
  request has ended the counter is back at zero.
\<close>

theorem origin_permits_bounded:
  assumes "capacity_reachable limit s"
  shows "unat (cp_counter s) = permits s \<and> permits s \<le> unat limit
    \<and> (list_all (\<lambda>p. p = Dropped) (cp_requests s) \<longrightarrow> cp_counter s = 0)"
proof -
  have ok: "unat (cp_counter s) = permits s" "permits s \<le> unat limit"
    using capacity_reachable_ok [OF assms] by (simp_all add: capacity_ok_def)
  have "permits s = 0" if "list_all (\<lambda>p. p = Dropped) (cp_requests s)"
    using that by (auto simp: permits_def list_all_iff filter_empty_conv)
  with ok show ?thesis by (auto simp: unat_eq_zero)
qed

lemma reach_step:
  "capacity_reachable limit s \<Longrightarrow> capacity_step limit s s' \<Longrightarrow> s' = t \<Longrightarrow> capacity_reachable limit t"
  using capacity_reachable.step by blast

text \<open>Two requests race for one permit: the second load precedes the first exchange.\<close>

theorem origin_permits_bounded_witness:
  "capacity_reachable 1 \<lparr>cp_counter = 1, cp_requests = [Holding, Looping 1]\<rparr>
   \<and> permits \<lparr>cp_counter = 1, cp_requests = [Holding, Looping 1]\<rparr> \<le> unat (1 :: u64)"
proof
  let ?s = "\<lambda>c rs. \<lparr>cp_counter = c, cp_requests = rs\<rparr> :: capacity"
  note [simp] = set_request_def idle_capacity_def
  have "capacity_reachable 1 (?s 0 [])" using capacity_reachable.start [of 1] by simp
  then have "capacity_reachable 1 (?s 0 [Waiting])" by (rule reach_step [OF _ arrive]) simp
  then have "capacity_reachable 1 (?s 0 [Waiting, Waiting])" by (rule reach_step [OF _ arrive]) simp
  then have "capacity_reachable 1 (?s 0 [Looping 0, Waiting])" by (rule reach_step [OF _ load [of 0]]) simp_all
  then have "capacity_reachable 1 (?s 0 [Looping 0, Looping 0])" by (rule reach_step [OF _ load [of 1]]) simp_all
  then have "capacity_reachable 1 (?s 1 [Holding, Looping 0])" by (rule reach_step [OF _ swap [of 0 _ 0]]) simp_all
  then show r: "capacity_reachable 1 (?s 1 [Holding, Looping 1])" by (rule reach_step [OF _ retry [of 1 _ 0]]) simp_all
  show "permits (?s 1 [Holding, Looping 1]) \<le> unat (1 :: u64)" using origin_permits_bounded [OF r] by simp
qed

text \<open>
  The sequential operations are runs of the interleaved ones: an attempt that meets no other request
  is a load followed by an exchange or a refusal, and dropping a holder is a release.
\<close>

lemma try_acquire_refines:
  assumes "i < length (cp_requests s)" and "cp_requests s ! i = Waiting"
    and "\<not> rc_origin_permit c" and "eg_origin_in_flight g = cp_counter s"
    and "try_acquire_origin_capacity limit c g = (ok, c', g')"
  shows "\<exists>s1 s2. capacity_step limit s s1 \<and> capacity_step limit s1 s2 \<and> cp_counter s2 = eg_origin_in_flight g'
    \<and> cp_requests s2 ! i = (if ok then Holding else Refused) \<and> rc_origin_permit c' = ok"
proof -
  let ?s1 = "set_request i (Looping (cp_counter s)) s"
  have s1: "capacity_step limit s ?s1" by (rule load [OF assms(1,2)])
  have i: "i < length (cp_requests ?s1)" "cp_requests ?s1 ! i = Looping (cp_counter s)" "cp_counter ?s1 = cp_counter s"
    using assms(1) by (simp_all add: set_request_def)
  show ?thesis
  proof (cases "cp_counter s \<ge> limit")
    case True
    let ?s2 = "set_request i Refused ?s1"
    have s2: "capacity_step limit ?s1 ?s2" by (rule refuse [OF i(1,2) True])
    have "cp_counter ?s2 = eg_origin_in_flight g' \<and> cp_requests ?s2 ! i = (if ok then Holding else Refused) \<and> rc_origin_permit c' = ok"
      using True assms by (auto simp: try_acquire_origin_capacity_def set_request_def)
    with s1 s2 show ?thesis by blast
  next
    case False
    let ?s2 = "set_request i Holding (?s1 \<lparr>cp_counter := cp_counter s + 1\<rparr>)"
    have s2: "capacity_step limit ?s1 ?s2" by (rule swap [OF i(1,2) _ i(3)]) (use False in simp)
    have "cp_counter ?s2 = eg_origin_in_flight g' \<and> cp_requests ?s2 ! i = (if ok then Holding else Refused) \<and> rc_origin_permit c' = ok"
      using False assms by (auto simp: try_acquire_origin_capacity_def set_request_def)
    with s1 s2 show ?thesis by blast
  qed
qed

end
