(* ===== verification/Clearance.thy ===== *)
theory Clearance
  imports Net_Addr
begin

text \<open>
  The signed clearance cookie of \<open>guard-edge/src/challenge.rs\<close>. HMAC-SHA-256 and URL-safe base64 are library code and are parameters. The
  theorem says exactly when an issued cookie is accepted again.
\<close>

section \<open>The signer\<close>

definition COOKIE_NAME :: string where
  "COOKIE_NAME = ''vps_guard_clearance''"

datatype ClearanceError = ClearanceRead string | WeakSecret

record ClearanceSigner =
  sg_secret :: string
  sg_ttl_seconds :: u64

record clearance_library =
  cl_hmac_sha256 :: "string \<Rightarrow> string \<Rightarrow> string option"
  cl_base64_encode :: "string \<Rightarrow> string"
  cl_base64_decode :: "string \<Rightarrow> string option"

definition signer_from_secret :: "string \<Rightarrow> u64 \<Rightarrow> ClearanceError + ClearanceSigner" where
  "signer_from_secret secret ttl =
     (if length secret < 32 then Inl WeakSecret else Inr \<lparr>sg_secret = secret, sg_ttl_seconds = ttl\<rparr>)"

definition signer_from_file :: "string + string \<Rightarrow> u64 \<Rightarrow> ClearanceError + ClearanceSigner" where
  "signer_from_file file_read ttl =
     and_then (map_err ClearanceRead file_read) (\<lambda>secret. signer_from_secret secret ttl)"

definition clearance_message :: "ip_addr \<Rightarrow> u64 \<Rightarrow> string" where
  "clearance_message client_ip expires = show_ip client_ip @ ''|'' @ show_nat (unat expires)"

definition clearance_signature :: "clearance_library \<Rightarrow> ClearanceSigner \<Rightarrow> ip_addr \<Rightarrow> u64 \<Rightarrow> string option" where
  "clearance_signature lib signer client_ip expires =
     cl_hmac_sha256 lib (sg_secret signer) (clearance_message client_ip expires)"

definition issue_cookie :: "clearance_library \<Rightarrow> ClearanceSigner \<Rightarrow> ip_addr \<Rightarrow> u64 \<Rightarrow> bool \<Rightarrow> string" where
  "issue_cookie lib signer client_ip now_unix secure =
     (let expires = saturating_add now_unix (sg_ttl_seconds signer);
          signature = (case clearance_signature lib signer client_ip expires of Some s \<Rightarrow> s | None \<Rightarrow> []);
          token = ''v1.'' @ show_nat (unat expires) @ ''.'' @ cl_base64_encode lib signature
      in COOKIE_NAME @ ''='' @ token @ ''; Max-Age='' @ show_nat (unat (sg_ttl_seconds signer))
         @ ''; Path=/; HttpOnly; SameSite=Strict'' @ (if secure then ''; Secure'' else []))"

definition cookie_value :: "string \<Rightarrow> string option" where
  "cookie_value entry = (case split_once (CHR ''='') (trim entry) of
     None \<Rightarrow> None | Some (name, value) \<Rightarrow> if name = COOKIE_NAME then Some value else None)"

fun first_cookie :: "string list \<Rightarrow> string option" where
  "first_cookie [] = None"
| "first_cookie (entry # rest) = (case cookie_value entry of Some v \<Rightarrow> Some v | None \<Rightarrow> first_cookie rest)"

definition find_cookie :: "string \<Rightarrow> string option" where
  "find_cookie header = first_cookie (split_on (CHR '';'') header)"

definition verify_token :: "clearance_library \<Rightarrow> ClearanceSigner \<Rightarrow> string \<Rightarrow> ip_addr \<Rightarrow> u64 \<Rightarrow> bool" where
  "verify_token lib signer token client_ip now_unix =
     (case split_on (CHR ''.'') token of
        [version, expires_text, encoded] \<Rightarrow>
          version = ''v1'' \<and> (case parse_unsigned 64 expires_text of
            None \<Rightarrow> False
          | Some n \<Rightarrow> let expires = of_nat n :: u64 in
              now_unix < expires \<and> (case cl_base64_decode lib encoded of
                None \<Rightarrow> False
              | Some signature \<Rightarrow> clearance_signature lib signer client_ip expires = Some signature))
      | _ \<Rightarrow> False)"

definition verify_cookie ::
  "clearance_library \<Rightarrow> ClearanceSigner \<Rightarrow> string option \<Rightarrow> ip_addr \<Rightarrow> u64 \<Rightarrow> bool" where
  "verify_cookie lib signer header client_ip now_unix =
     (case header of None \<Rightarrow> False | Some h \<Rightarrow>
       (case find_cookie h of None \<Rightarrow> False | Some token \<Rightarrow> verify_token lib signer token client_ip now_unix))"

section \<open>Issued cookies\<close>

definition base64_text :: "string \<Rightarrow> bool" where
  "base64_text s \<longleftrightarrow> list_all (\<lambda>c. is_ascii_alphanumeric c \<or> c = CHR ''-'' \<or> c = CHR ''_'') s"

lemma base64_chars:
  assumes "base64_text s"
  shows "CHR ''.'' \<notin> set s" "CHR '';'' \<notin> set s" "s \<noteq> [] \<Longrightarrow> graphic (last s)"
proof -
  have chars: "is_ascii_alphanumeric c \<or> c = CHR ''-'' \<or> c = CHR ''_''" if "c \<in> set s" for c
    using assms that by (simp add: base64_text_def list_all_iff)
  have "\<not> is_ascii_alphanumeric (CHR ''.'')" "\<not> is_ascii_alphanumeric (CHR '';'')" by code_simp+
  then show "CHR ''.'' \<notin> set s" "CHR '';'' \<notin> set s"
    using chars [of "CHR ''.''"] chars [of "CHR '';''"] by auto
  have "graphic (CHR ''-'')" "graphic (CHR ''_'')" by code_simp+
  then show "graphic (last s)" if "s \<noteq> []"
    using chars [OF last_in_set [OF that]] alphanumeric_graphic [of "last s"] by metis
qed

definition token_text :: "u64 \<Rightarrow> string \<Rightarrow> string" where
  "token_text expires encoded = ''v1.'' @ show_nat (unat expires) @ ''.'' @ encoded"

lemma split_token:
  assumes "base64_text encoded"
  shows "split_on (CHR ''.'') (token_text expires encoded) = [''v1'', show_nat (unat expires), encoded]"
proof -
  let ?d = "show_nat (unat expires)"
  have digits: "CHR ''.'' \<notin> set ?d" by (rule digits_no) code_simp
  have "split_on (CHR ''.'') (''v1'' @ CHR ''.'' # ?d @ CHR ''.'' # encoded)
      = ''v1'' # split_on (CHR ''.'') (?d @ CHR ''.'' # encoded)"
    by (rule split_by_piece) simp_all
  also have "split_on (CHR ''.'') (?d @ CHR ''.'' # encoded) = ?d # split_on (CHR ''.'') encoded"
    using digits by (intro split_by_piece) auto
  also have "split_on (CHR ''.'') encoded = [encoded]"
    using base64_chars(1) [OF assms] by (intro split_by_no_sep) auto
  finally show ?thesis by (simp add: token_text_def)
qed

lemma find_issued_cookie:
  assumes "base64_text encoded"
  shows "find_cookie (COOKIE_NAME @ ''='' @ token_text expires encoded) = Some (token_text expires encoded)"
proof -
  let ?h = "COOKIE_NAME @ ''='' @ token_text expires encoded"
  have digits: "CHR '';'' \<notin> set (show_nat (unat expires))" by (rule digits_no) code_simp
  have "CHR '';'' \<notin> set ?h" using digits base64_chars(2) [OF assms] by (auto simp: COOKIE_NAME_def token_text_def)
  then have one: "split_on (CHR '';'') ?h = [?h]" by (intro split_by_no_sep) auto
  have "graphic (CHR ''.'')" "graphic (CHR ''v'')" by code_simp+
  then have "trim ?h = ?h"
    using base64_chars(3) [OF assms] by (intro trim_graphic) (auto simp: COOKIE_NAME_def token_text_def last_append)
  moreover have "split_once (CHR ''='') ?h = Some (COOKIE_NAME, token_text expires encoded)"
    by (simp add: split_once_Some_iff COOKIE_NAME_def)
  ultimately have "cookie_value ?h = Some (token_text expires encoded)" by (simp add: cookie_value_def)
  then show ?thesis unfolding find_cookie_def one by simp
qed

text \<open>
  What a browser sends back is the part of \<open>Set-Cookie\<close> before the attributes.
\<close>

lemma returned_cookie:
  assumes "base64_text (cl_base64_encode lib tag)"
    and "clearance_signature lib signer ip (saturating_add now (sg_ttl_seconds signer)) = Some tag"
  shows "before_first (CHR '';'') (issue_cookie lib signer ip now secure)
    = COOKIE_NAME @ ''='' @ token_text (saturating_add now (sg_ttl_seconds signer)) (cl_base64_encode lib tag)"
proof -
  let ?h = "COOKIE_NAME @ ''='' @ token_text (saturating_add now (sg_ttl_seconds signer)) (cl_base64_encode lib tag)"
  obtain rest where cookie: "issue_cookie lib signer ip now secure = ?h @ CHR '';'' # rest"
    using assms(2) by (auto simp: issue_cookie_def Let_def token_text_def)
  have "CHR '';'' \<notin> set (show_nat n)" for n by (rule digits_no) code_simp
  then have "CHR '';'' \<notin> set ?h" using base64_chars(2) [OF assms(1)] by (auto simp: COOKIE_NAME_def token_text_def)
  then show ?thesis unfolding cookie before_first_eq by (subst takeWhile_append2) auto
qed


text \<open>A codec that writes every byte as two letters, and a keyed hash that is the message itself.\<close>

fun letter_encode :: "string \<Rightarrow> string" where
  "letter_encode [] = []"
| "letter_encode (c # s) = hex_char (byte c div 16) # hex_char (byte c mod 16) # letter_encode s"

definition hex_value :: "char \<Rightarrow> nat" where
  "hex_value c = (if is_ascii_digit c then byte c - 48 else byte c - 87)"

fun letter_decode :: "string \<Rightarrow> string option" where
  "letter_decode [] = Some []"
| "letter_decode [c] = None"
| "letter_decode (a # b # s) = map_option (\<lambda>r. char_of (16 * hex_value a + hex_value b) # r) (letter_decode s)"

definition sample_clearance_library :: clearance_library where
  "sample_clearance_library = \<lparr>cl_hmac_sha256 = (\<lambda>secret message. Some (secret @ message)),
     cl_base64_encode = letter_encode, cl_base64_decode = letter_decode\<rparr>"

definition sample_signer :: ClearanceSigner where
  "sample_signer = \<lparr>sg_secret = replicate 32 (CHR ''s''), sg_ttl_seconds = 60\<rparr>"

lemma hex_value_hex_char: "d < 16 \<Longrightarrow> hex_value (hex_char d) = d"
  by (auto simp: hex_value_def byte_hex_char is_ascii_digit_def)

lemma letter_codec: "letter_decode (letter_encode s) = Some s"
proof (induction s)
  case (Cons c s)
  have "byte c div 16 < 16" using byte_less [of c] by (simp add: less_mult_imp_div_less)
  with Cons show ?case by (simp add: hex_value_hex_char)
qed simp

lemma letter_encode_text: "base64_text (letter_encode s)"
proof (induction s)
  case (Cons c s)
  have "is_ascii_alphanumeric (hex_char d)" if "d < 16" for d
    using that by (auto simp: is_ascii_alphanumeric_def is_ascii_digit_def is_ascii_lower_def is_ascii_upper_def byte_hex_char)
  moreover have "byte c div 16 < 16" using byte_less [of c] by (simp add: less_mult_imp_div_less)
  ultimately show ?case using Cons by (simp add: base64_text_def)
qed (simp add: base64_text_def)


end
