(* ===== verification/Telemetry.thy ===== *)
theory Telemetry
  imports Edge_Context
begin

text \<open>
  The telemetry sink of \<open>guard-edge/src/telemetry.rs\<close>. The operations are given as functions of one
  caller; a step relation then takes them apart into their atomic accesses, for any number of
  requests and the reconnect thread interleaved. The theorems show that every request is counted
  exactly once as sent or dropped, and that no request ever waits for the sink.
\<close>

section \<open>Data\<close>

definition MAX_DATAGRAM_BYTES :: nat where
  "MAX_DATAGRAM_BYTES = 4096"

datatype DecisionKind = KindAllow | KindThrottle | KindChallenge | KindDeny

record RequestTelemetry =
  rt_schema_version :: u32
  rt_request_id :: string
  rt_method :: string
  rt_route_class :: route_class
  rt_normalized_route :: string
  rt_route_cost :: u8
  rt_status :: u16
  rt_latency_micros :: u64
  rt_client_ip :: "ip_addr option"
  rt_request_body_bytes :: u64
  rt_response_body_bytes :: u64
  rt_upstream_connection_reused :: "bool option"
  rt_decision :: DecisionKind
  rt_policy_version :: u64
  rt_bot_class :: bot_class
  rt_bot_provider :: "crawler_provider option"
  rt_bot_verified :: bool
  rt_session_continuity :: bool
  rt_bot_reason :: bot_reason
  rt_user_agent_family :: user_agent_family
  rt_in_flight_requests :: u64
  rt_edge_telemetry_emitted :: u64
  rt_edge_telemetry_dropped :: u64
  rt_edge_telemetry_reconnected :: u64
  rt_occurred_at_unix_ms :: u64

datatype io_error_kind = WouldBlock | NotFound | ConnectionRefused | ConnectionReset | BrokenPipe | OtherError

text \<open>
  The socket is either connected or absent; the datagrams the kernel accepted are kept in order.
\<close>

record TelemetryInner =
  tm_path :: string
  tm_socket :: bool
  tm_available :: bool
  tm_dropped :: u64
  tm_emitted :: u64
  tm_reconnected :: u64
  tm_delivered :: "string list"

section \<open>The operations of one caller\<close>

text \<open>What the calls of the operating system answer: creating, configuring and connecting a socket.\<close>

record socket_calls =
  sk_unbound :: bool
  sk_nonblocking :: bool
  sk_connected :: bool

definition connect_socket :: "socket_calls \<Rightarrow> bool" where
  "connect_socket k \<longleftrightarrow> sk_unbound k \<and> sk_nonblocking k \<and> sk_connected k"

definition connect_sink :: "string \<Rightarrow> socket_calls \<Rightarrow> TelemetryInner" where
  "connect_sink path k =
     \<lparr>tm_path = path, tm_socket = connect_socket k, tm_available = connect_socket k,
      tm_dropped = 0, tm_emitted = 0, tm_reconnected = 0, tm_delivered = []\<rparr>"

definition drop_one :: "TelemetryInner \<Rightarrow> TelemetryInner" where
  "drop_one s = s \<lparr>tm_dropped := tm_dropped s + 1\<rparr>"

definition deliver :: "string \<Rightarrow> TelemetryInner \<Rightarrow> TelemetryInner" where
  "deliver payload s = s \<lparr>tm_emitted := tm_emitted s + 1, tm_delivered := tm_delivered s @ [payload]\<rparr>"

definition disconnect :: "TelemetryInner \<Rightarrow> TelemetryInner" where
  "disconnect s = s \<lparr>tm_socket := False, tm_available := False\<rparr>"

definition receiver_gone :: "io_error_kind \<Rightarrow> bool" where
  "receiver_gone e \<longleftrightarrow> e \<in> set [NotFound, ConnectionRefused, ConnectionReset, BrokenPipe]"

definition send_datagram :: "io_error_kind + unit \<Rightarrow> string \<Rightarrow> TelemetryInner \<Rightarrow> TelemetryInner" where
  "send_datagram sent payload s =
     (case sent of
        Inr _ \<Rightarrow> deliver payload s
      | Inl WouldBlock \<Rightarrow> drop_one s
      | Inl e \<Rightarrow> if receiver_gone e then disconnect (drop_one s) else drop_one s)"

definition emit ::
  "(RequestTelemetry \<Rightarrow> string option) \<Rightarrow> bool \<Rightarrow> io_error_kind + unit \<Rightarrow> RequestTelemetry \<Rightarrow> TelemetryInner \<Rightarrow> TelemetryInner" where
  "emit to_vec lock_free sent telemetry s =
     (case to_vec telemetry of
        None \<Rightarrow> drop_one s
      | Some payload \<Rightarrow>
          if length payload > MAX_DATAGRAM_BYTES then drop_one s
          else if \<not> lock_free then drop_one s
          else if \<not> tm_socket s then drop_one s
          else send_datagram sent payload s)"

definition emit_lazy ::
  "(RequestTelemetry \<Rightarrow> string option) \<Rightarrow> bool \<Rightarrow> io_error_kind + unit \<Rightarrow> RequestTelemetry \<Rightarrow> TelemetryInner \<Rightarrow> TelemetryInner" where
  "emit_lazy to_vec lock_free sent telemetry s =
     (if \<not> tm_available s then drop_one s else emit to_vec lock_free sent telemetry s)"

definition reconnect :: "bool \<Rightarrow> socket_calls \<Rightarrow> TelemetryInner \<Rightarrow> TelemetryInner" where
  "reconnect lock_free k s =
     (if lock_free \<and> \<not> tm_socket s \<and> connect_socket k
      then s \<lparr>tm_socket := True, tm_available := True, tm_reconnected := tm_reconnected s + 1\<rparr>
      else s)"

section \<open>Callers interleaved\<close>

text \<open>
  Where a caller of \<open>emit_lazy\<close> is: called, past the availability flag, holding the lock with its
  payload, holding the lock after a fatal error, or returned.
\<close>

datatype emitter = Called RequestTelemetry | Emitting RequestTelemetry | Sending string | Clearing | Returned

record sink_world =
  sw_sink :: TelemetryInner
  sw_locked :: bool
  sw_reconnecting :: bool
  sw_emitters :: "emitter list"

definition move :: "nat \<Rightarrow> emitter \<Rightarrow> bool \<Rightarrow> TelemetryInner \<Rightarrow> sink_world \<Rightarrow> sink_world" where
  "move i e locked s w = w \<lparr>sw_sink := s, sw_locked := locked, sw_emitters := (sw_emitters w)[i := e]\<rparr>"

definition sendable :: "(RequestTelemetry \<Rightarrow> string option) \<Rightarrow> RequestTelemetry \<Rightarrow> string option" where
  "sendable to_vec t = (case to_vec t of
     Some payload \<Rightarrow> if length payload > MAX_DATAGRAM_BYTES then None else Some payload | None \<Rightarrow> None)"

definition emitter_at :: "sink_world \<Rightarrow> nat \<Rightarrow> emitter \<Rightarrow> bool" where
  "emitter_at w i e \<longleftrightarrow> i < length (sw_emitters w) \<and> sw_emitters w ! i = e"

inductive sink_step :: "(RequestTelemetry \<Rightarrow> string option) \<Rightarrow> sink_world \<Rightarrow> sink_world \<Rightarrow> bool"
  for to_vec :: "RequestTelemetry \<Rightarrow> string option" where
  call: "sink_step to_vec w (w \<lparr>sw_emitters := sw_emitters w @ [Called t]\<rparr>)"
| unavailable: "emitter_at w i (Called t) \<Longrightarrow> \<not> tm_available (sw_sink w)
    \<Longrightarrow> sink_step to_vec w (move i Returned (sw_locked w) (drop_one (sw_sink w)) w)"
| go: "emitter_at w i (Called t) \<Longrightarrow> tm_available (sw_sink w)
    \<Longrightarrow> sink_step to_vec w (move i (Emitting t) (sw_locked w) (sw_sink w) w)"
| discard: "emitter_at w i (Emitting t) \<Longrightarrow> sendable to_vec t = None
    \<Longrightarrow> sink_step to_vec w (move i Returned (sw_locked w) (drop_one (sw_sink w)) w)"
| busy: "emitter_at w i (Emitting t) \<Longrightarrow> sendable to_vec t = Some payload \<Longrightarrow> sw_locked w
    \<Longrightarrow> sink_step to_vec w (move i Returned True (drop_one (sw_sink w)) w)"
| acquire: "emitter_at w i (Emitting t) \<Longrightarrow> sendable to_vec t = Some payload \<Longrightarrow> \<not> sw_locked w
    \<Longrightarrow> sink_step to_vec w (move i (Sending payload) True (sw_sink w) w)"
| closed: "emitter_at w i (Sending payload) \<Longrightarrow> \<not> tm_socket (sw_sink w)
    \<Longrightarrow> sink_step to_vec w (move i Returned False (drop_one (sw_sink w)) w)"
| sent: "emitter_at w i (Sending payload) \<Longrightarrow> tm_socket (sw_sink w)
    \<Longrightarrow> sink_step to_vec w (move i Returned False (deliver payload (sw_sink w)) w)"
| failed: "emitter_at w i (Sending payload) \<Longrightarrow> tm_socket (sw_sink w) \<Longrightarrow> \<not> receiver_gone e
    \<Longrightarrow> sink_step to_vec w (move i Returned False (drop_one (sw_sink w)) w)"
| gone: "emitter_at w i (Sending payload) \<Longrightarrow> tm_socket (sw_sink w) \<Longrightarrow> receiver_gone e
    \<Longrightarrow> sink_step to_vec w (move i Clearing True (drop_one (sw_sink w)) w)"
| clear: "emitter_at w i Clearing \<Longrightarrow> sink_step to_vec w (move i Returned False (disconnect (sw_sink w)) w)"
| reconnect_start: "\<not> sw_locked w \<Longrightarrow> sink_step to_vec w (w \<lparr>sw_locked := True, sw_reconnecting := True\<rparr>)"
| reconnect_end: "sw_reconnecting w
    \<Longrightarrow> sink_step to_vec w (w \<lparr>sw_sink := reconnect True k (sw_sink w), sw_locked := False, sw_reconnecting := False\<rparr>)"

inductive_cases sink_stepE: "sink_step to_vec w w'"

definition started :: "string \<Rightarrow> socket_calls \<Rightarrow> sink_world" where
  "started path k = \<lparr>sw_sink = connect_sink path k, sw_locked = False, sw_reconnecting = False, sw_emitters = []\<rparr>"

section \<open>Accounting\<close>

definition counted :: "emitter \<Rightarrow> bool" where
  "counted e \<longleftrightarrow> e = Clearing \<or> e = Returned"

fun holds_lock :: "emitter \<Rightarrow> bool" where
  "holds_lock (Sending _) = True"
| "holds_lock Clearing = True"
| "holds_lock _ = False"

fun bounded_payload :: "emitter \<Rightarrow> bool" where
  "bounded_payload (Sending payload) = (length payload \<le> MAX_DATAGRAM_BYTES)"
| "bounded_payload _ = True"

definition holders :: "sink_world \<Rightarrow> nat" where
  "holders w = length (filter holds_lock (sw_emitters w)) + (if sw_reconnecting w then 1 else 0)"

definition sink_ok :: "sink_world \<Rightarrow> bool" where
  "sink_ok w \<longleftrightarrow>
     tm_emitted (sw_sink w) = of_nat (length (tm_delivered (sw_sink w)))
     \<and> tm_emitted (sw_sink w) + tm_dropped (sw_sink w) = of_nat (length (filter counted (sw_emitters w)))
     \<and> tm_available (sw_sink w) = tm_socket (sw_sink w)
     \<and> holders w = (if sw_locked w then 1 else 0)
     \<and> list_all (\<lambda>p. length p \<le> MAX_DATAGRAM_BYTES) (tm_delivered (sw_sink w))
     \<and> list_all bounded_payload (sw_emitters w)"

lemma emitter_at_bounds: "emitter_at w i e \<Longrightarrow> i < length (sw_emitters w)" "emitter_at w i e \<Longrightarrow> sw_emitters w ! i = e"
  by (simp_all add: emitter_at_def)

lemma move_simps [simp]:
  "sw_sink (move i e l s w) = s" "sw_locked (move i e l s w) = l"
  "sw_reconnecting (move i e l s w) = sw_reconnecting w"
  "sw_emitters (move i e l s w) = (sw_emitters w)[i := e]"
  by (simp_all add: move_def)

lemma holder_locks: "sink_ok w \<Longrightarrow> emitter_at w i e \<Longrightarrow> holds_lock e \<Longrightarrow> sw_locked w"
proof -
  assume ok: "sink_ok w" and i: "emitter_at w i e" "holds_lock e"
  from i have "e \<in> set (filter holds_lock (sw_emitters w))" by (auto simp: emitter_at_def)
  then have "holders w \<noteq> 0" by (auto simp: holders_def filter_empty_conv)
  with ok show "sw_locked w" by (auto simp: sink_ok_def split: if_splits)
qed

text \<open>What a caller may do to keep the accounts: change one counter exactly when it becomes counted.\<close>

lemma move_ok:
  assumes ok: "sink_ok w" and i: "emitter_at w i e"
    and sink: "tm_emitted s = of_nat (length (tm_delivered s))" "tm_available s = tm_socket s"
      "list_all (\<lambda>p. length p \<le> MAX_DATAGRAM_BYTES) (tm_delivered s)"
    and accounts: "tm_emitted s + tm_dropped s + (if counted e then 1 else 0)
      = tm_emitted (sw_sink w) + tm_dropped (sw_sink w) + (if counted e' then 1 else 0)"
    and payload: "bounded_payload e'"
    and locks: "(if l then 1 else 0) + (if holds_lock e then 1 else 0)
      = (if sw_locked w then 1 else 0) + (if holds_lock e' then 1 else (0 :: nat))"
  shows "sink_ok (move i e' l s w)"
proof -
  note at = emitter_at_bounds [OF i]
  have "of_nat (length (filter counted ((sw_emitters w)[i := e']))) + (if counted e then 1 else 0 :: u64)
      = of_nat (length (filter counted (sw_emitters w))) + (if counted e' then 1 else 0)"
    using arg_cong [OF count_update [OF at(1), of counted e'], of "of_nat :: nat \<Rightarrow> u64"] by (simp add: at(2) split: if_splits)
  moreover have before: "tm_emitted (sw_sink w) + tm_dropped (sw_sink w) = of_nat (length (filter counted (sw_emitters w)))"
    using ok unfolding sink_ok_def by blast
  ultimately have "tm_emitted s + tm_dropped s + (if counted e then 1 else 0)
      = of_nat (length (filter counted ((sw_emitters w)[i := e']))) + (if counted e then 1 else 0)"
    using accounts by (simp only: before)
  then have "tm_emitted s + tm_dropped s = of_nat (length (filter counted ((sw_emitters w)[i := e'])))"
    by (simp only: add_right_cancel)
  moreover have "holders (move i e' l s w) = (if l then 1 else 0)"
    using count_update [OF at(1), of holds_lock e'] locks ok by (auto simp: sink_ok_def holders_def at(2) split: if_splits)
  moreover have "list_all bounded_payload ((sw_emitters w)[i := e'])"
    using ok payload set_update_subset_insert [of "sw_emitters w" i e'] by (auto simp: sink_ok_def list_all_iff)
  ultimately show ?thesis using sink by (simp add: sink_ok_def)
qed

lemma sink_effects [simp]:
  "tm_emitted (drop_one s) = tm_emitted s" "tm_dropped (drop_one s) = tm_dropped s + 1"
  "tm_delivered (drop_one s) = tm_delivered s" "tm_available (drop_one s) = tm_available s"
  "tm_socket (drop_one s) = tm_socket s"
  "tm_emitted (deliver p s) = tm_emitted s + 1" "tm_dropped (deliver p s) = tm_dropped s"
  "tm_delivered (deliver p s) = tm_delivered s @ [p]" "tm_available (deliver p s) = tm_available s"
  "tm_socket (deliver p s) = tm_socket s"
  "tm_emitted (disconnect s) = tm_emitted s" "tm_dropped (disconnect s) = tm_dropped s"
  "tm_delivered (disconnect s) = tm_delivered s" "\<not> tm_available (disconnect s)" "\<not> tm_socket (disconnect s)"
  by (simp_all add: drop_one_def deliver_def disconnect_def)

lemma sendable_bound: "sendable to_vec t = Some payload \<Longrightarrow> length payload \<le> MAX_DATAGRAM_BYTES"
  by (auto simp: sendable_def split: option.splits if_splits)

lemma emitter_payload: "sink_ok w \<Longrightarrow> emitter_at w i e \<Longrightarrow> bounded_payload e"
  by (auto simp: sink_ok_def emitter_at_def list_all_length)

lemma sink_step_ok: "sink_step to_vec w w' \<Longrightarrow> sink_ok w \<Longrightarrow> sink_ok w'"
proof (induction rule: sink_step.induct)
  case (acquire w i t payload)
  then show ?case using sendable_bound [OF acquire(2)]
    by (intro move_ok [OF acquire(4,1)]) (auto simp: sink_ok_def counted_def)
next
  case (sent w i payload)
  then show ?case using holder_locks [OF sent(3,1)] emitter_payload [OF sent(3,1)]
    by (intro move_ok [OF sent(3,1)]) (auto simp: sink_ok_def counted_def)
next
  case (closed w i payload)
  then show ?case using holder_locks [OF closed(3,1)]
    by (intro move_ok [OF closed(3,1)]) (auto simp: sink_ok_def counted_def)
next
  case (failed w i payload e)
  then show ?case using holder_locks [OF failed(4,1)]
    by (intro move_ok [OF failed(4,1)]) (auto simp: sink_ok_def counted_def)
next
  case (gone w i payload e)
  then show ?case using holder_locks [OF gone(4,1)]
    by (intro move_ok [OF gone(4,1)]) (auto simp: sink_ok_def counted_def)
next
  case (clear w i)
  then show ?case using holder_locks [OF clear(2,1)]
    by (intro move_ok [OF clear(2,1)]) (auto simp: sink_ok_def counted_def)
next
  case (call w t)
  then show ?case by (auto simp: sink_ok_def counted_def holders_def)
next
  case (unavailable w i t)
  then show ?case by (intro move_ok [OF unavailable(3,1)]) (auto simp: sink_ok_def counted_def)
next
  case (go w i t)
  then show ?case by (intro move_ok [OF go(3,1)]) (auto simp: sink_ok_def counted_def)
next
  case (discard w i t)
  then show ?case by (intro move_ok [OF discard(3,1)]) (auto simp: sink_ok_def counted_def)
next
  case (busy w i t payload)
  then show ?case by (intro move_ok [OF busy(4,1)]) (auto simp: sink_ok_def counted_def)
next
  case (reconnect_start w)
  then show ?case by (auto simp: sink_ok_def holders_def)
next
  case (reconnect_end w k)
  then show ?case by (auto simp: sink_ok_def holders_def reconnect_def split: if_splits)
qed

lemma sink_reachable_ok: "(sink_step to_vec)\<^sup>*\<^sup>* (started path k) w \<Longrightarrow> sink_ok w"
proof (induction rule: rtranclp_induct)
  case base
  show ?case by (simp add: started_def connect_sink_def sink_ok_def holders_def)
next
  case (step w w')
  then show ?case using sink_step_ok by blast
qed


section \<open>Nobody waits\<close>

fun remaining :: "emitter \<Rightarrow> nat" where
  "remaining (Called _) = 4"
| "remaining (Emitting _) = 3"
| "remaining (Sending _) = 2"
| "remaining Clearing = 1"
| "remaining Returned = 0"

lemma remaining_move:
  assumes "emitter_at w i e" and "remaining e' \<le> remaining e"
  shows "remaining (sw_emitters (move i e' l s w) ! j) \<le> remaining (sw_emitters w ! j)"
  using assms by (cases "i = j") (auto simp: emitter_at_def nth_list_update)

lemma others_keep_remaining:
  "sink_step to_vec w w' \<Longrightarrow> j < length (sw_emitters w)
   \<Longrightarrow> j < length (sw_emitters w') \<and> remaining (sw_emitters w' ! j) \<le> remaining (sw_emitters w ! j)"
proof (induction rule: sink_step.induct)
  case (call w t)
  then show ?case by (simp add: nth_append)
qed (simp_all add: remaining_move [simplified move_simps])

lemma emitter_can_move:
  assumes "emitter_at w i e" and "e \<noteq> Returned"
  shows "\<exists>w'. sink_step to_vec w w' \<and> remaining (sw_emitters w' ! i) < remaining e"
proof -
  have i: "i < length (sw_emitters w)" using assms(1) by (rule emitter_at_bounds)
  have moved: "\<exists>w'. sink_step to_vec w w' \<and> remaining (sw_emitters w' ! i) < n"
    if "sink_step to_vec w (move i e' l s w)" "remaining e' < n" for e' l s n
    using that i by (intro exI [of _ "move i e' l s w"]) simp
  show ?thesis
  proof (cases e)
    case (Called t)
    with assms(1) show ?thesis using sink_step.unavailable [of w i t to_vec] sink_step.go [of w i t to_vec]
      by (cases "tm_available (sw_sink w)") (auto intro: moved)
  next
    case (Emitting t)
    show ?thesis
    proof (cases "sendable to_vec t")
      case None
      with assms(1) Emitting show ?thesis using sink_step.discard [of w i t to_vec] by (auto intro: moved)
    next
      case (Some payload)
      with assms(1) Emitting show ?thesis
        using sink_step.busy [of w i t to_vec payload] sink_step.acquire [of w i t to_vec payload]
        by (cases "sw_locked w") (auto intro: moved)
    qed
  next
    case (Sending payload)
    with assms(1) show ?thesis using sink_step.closed [of w i payload to_vec] sink_step.sent [of w i payload to_vec]
      by (cases "tm_socket (sw_sink w)") (auto intro: moved)
  next
    case Clearing
    with assms(1) show ?thesis using sink_step.clear [of w i to_vec] moved [of Returned _ _ 1] by auto
  qed (use assms(2) in simp)
qed


section \<open>The steps of one caller are \<open>emit_lazy\<close>\<close>

lemma one_more: "sink_step to_vec w w' \<Longrightarrow> (sink_step to_vec)\<^sup>*\<^sup>* w' v \<Longrightarrow> (sink_step to_vec)\<^sup>*\<^sup>* w v"
  by (rule converse_rtranclp_into_rtranclp)

lemma move_again: "move i e' l' s' (move i e l s w) = move i e' l' s' w"
  by (simp add: move_def)

lemma emitter_at_moved: "emitter_at w i e \<Longrightarrow> emitter_at (move i e' l s w) i e'"
  by (simp add: emitter_at_def)

lemma send_steps:
  assumes "emitter_at w i (Sending payload)" and "tm_socket (sw_sink w)"
  shows "(sink_step to_vec)\<^sup>*\<^sup>* w (move i Returned False (send_datagram outcome payload (sw_sink w)) w)"
proof (cases outcome)
  case (Inr u)
  then show ?thesis using sink_step.sent [OF assms] by (simp add: send_datagram_def r_into_rtranclp)
next
  case (Inl e)
  show ?thesis
  proof (cases "receiver_gone e")
    case False
    have "send_datagram outcome payload (sw_sink w) = drop_one (sw_sink w)"
      using Inl False by (cases e) (simp_all add: send_datagram_def receiver_gone_def)
    then show ?thesis using sink_step.failed [OF assms False] by (simp add: r_into_rtranclp)
  next
    case True
    let ?v = "move i Clearing True (drop_one (sw_sink w)) w"
    have "send_datagram outcome payload (sw_sink w) = disconnect (drop_one (sw_sink w))"
      using Inl True by (cases e) (simp_all add: send_datagram_def receiver_gone_def)
    moreover have "sink_step to_vec ?v (move i Returned False (disconnect (sw_sink ?v)) ?v)"
      by (intro sink_step.clear emitter_at_moved [OF assms(1)])
    ultimately have "sink_step to_vec ?v (move i Returned False (send_datagram outcome payload (sw_sink w)) w)"
      by (simp add: move_again)
    with sink_step.gone [OF assms True] show ?thesis by (meson one_more r_into_rtranclp)
  qed
qed

lemma emit_lazy_steps:
  assumes at: "emitter_at w i (Called t)"
  shows "(sink_step to_vec)\<^sup>*\<^sup>* w
    (move i Returned (sw_locked w) (emit_lazy to_vec (\<not> sw_locked w) outcome t (sw_sink w)) w)"
proof (cases "tm_available (sw_sink w)")
  case False
  with at show ?thesis using sink_step.unavailable [OF at] by (auto simp: emit_lazy_def)
next
  case True
  let ?v = "move i (Emitting t) (sw_locked w) (sw_sink w) w"
  have here: "emitter_at ?v i (Emitting t)" using at by (rule emitter_at_moved)
  have "(sink_step to_vec)\<^sup>*\<^sup>* ?v (move i Returned (sw_locked w) (emit to_vec (\<not> sw_locked w) outcome t (sw_sink w)) w)"
  proof (cases "sendable to_vec t")
    case None
    then have "emit to_vec (\<not> sw_locked w) outcome t (sw_sink w) = drop_one (sw_sink w)"
      by (auto simp: emit_def sendable_def split: option.splits if_splits)
    then show ?thesis using sink_step.discard [OF here None] by (simp add: move_again r_into_rtranclp)
  next
    case (Some payload)
    then have emit: "emit to_vec (\<not> sw_locked w) outcome t (sw_sink w)
        = (if sw_locked w \<or> \<not> tm_socket (sw_sink w) then drop_one (sw_sink w) else send_datagram outcome payload (sw_sink w))"
      by (auto simp: emit_def sendable_def split: option.splits if_splits)
    show ?thesis
    proof (cases "sw_locked w")
      case True
      with emit show ?thesis using sink_step.busy [OF here Some] by (simp add: move_again r_into_rtranclp)
    next
      case False
      let ?u = "move i (Sending payload) True (sw_sink w) w"
      have "sink_step to_vec ?v ?u" using sink_step.acquire [OF here Some] False by (simp add: move_again)
      moreover have "emitter_at ?u i (Sending payload)" using at by (rule emitter_at_moved)
      then have "(sink_step to_vec)\<^sup>*\<^sup>* ?u (move i Returned False (emit to_vec (\<not> sw_locked w) outcome t (sw_sink w)) w)"
        using send_steps [of ?u i payload to_vec outcome] sink_step.closed [of ?u i payload to_vec] False emit
        by (cases "tm_socket (sw_sink w)") (simp_all add: move_again r_into_rtranclp)
      ultimately have "(sink_step to_vec)\<^sup>*\<^sup>* ?v (move i Returned False (emit to_vec (\<not> sw_locked w) outcome t (sw_sink w)) w)"
        by (rule one_more)
      with False show ?thesis by simp
    qed
  qed
  then have "(sink_step to_vec)\<^sup>*\<^sup>* w (move i Returned (sw_locked w) (emit to_vec (\<not> sw_locked w) outcome t (sw_sink w)) w)"
    by (rule one_more [OF sink_step.go [OF at True]])
  with True show ?thesis by (simp add: emit_lazy_def)
qed

definition sample_event :: RequestTelemetry where
  "sample_event =
     \<lparr>rt_schema_version = 1, rt_request_id = ''r'', rt_method = ''GET'', rt_route_class = General, rt_normalized_route = ''/'',
      rt_route_cost = 1, rt_status = 200, rt_latency_micros = 10, rt_client_ip = None, rt_request_body_bytes = 0,
      rt_response_body_bytes = 0, rt_upstream_connection_reused = None, rt_decision = KindAllow, rt_policy_version = 0,
      rt_bot_class = ClassUndeclared, rt_bot_provider = None, rt_bot_verified = False, rt_session_continuity = False,
      rt_bot_reason = NotDeclared, rt_user_agent_family = UaMissing, rt_in_flight_requests = 1,
      rt_edge_telemetry_emitted = 0, rt_edge_telemetry_dropped = 0, rt_edge_telemetry_reconnected = 0,
      rt_occurred_at_unix_ms = 0\<rparr>"

definition sample_sink :: sink_world where
  "sample_sink = started ''/run/edge.sock'' \<lparr>sk_unbound = True, sk_nonblocking = True, sk_connected = True\<rparr>"

definition sample_called :: sink_world where
  "sample_called = sample_sink \<lparr>sw_emitters := [Called sample_event]\<rparr>"

definition sample_sent :: sink_world where
  "sample_sent = move 0 Returned False
     (emit_lazy (\<lambda>t. Some (rt_method t)) True (Inr ()) sample_event (sw_sink sample_called)) sample_called"

lemma sample_sent_reachable: "(sink_step (\<lambda>t. Some (rt_method t)))\<^sup>*\<^sup>* sample_sink sample_sent"
proof -
  have "sink_step (\<lambda>t. Some (rt_method t)) sample_sink sample_called"
    using sink_step.call [of "\<lambda>t. Some (rt_method t)" sample_sink sample_event]
    by (simp add: sample_called_def sample_sink_def started_def)
  moreover have "emitter_at sample_called 0 (Called sample_event)" by (simp add: sample_called_def emitter_at_def)
  then have "(sink_step (\<lambda>t. Some (rt_method t)))\<^sup>*\<^sup>* sample_called sample_sent"
    using emit_lazy_steps [of sample_called 0 sample_event "\<lambda>t. Some (rt_method t)" "Inr ()"]
    by (simp add: sample_sent_def sample_called_def sample_sink_def started_def)
  ultimately show ?thesis by (rule one_more)
qed



end
