(* ===== verification/Tls.thy ===== *)
theory Tls
  imports Edge_Config
begin

text \<open>
  Certificates as \<open>guard-system/src/tls.rs\<close> sees them: credential paths, validation of a certificate
  file, the ownership and renewal evidence, the health report and the plan of an assisted issue.
  PEM, X.509 and the key check belong to libraries and are parameters, as are the file system and
  the output of \<open>systemctl\<close>. The texts of advice are constructors of a datatype.
\<close>

section \<open>Credential paths\<close>

datatype CertificateValidationError =
  CredentialDirectoryUnavailable | CredentialNameInvalid | PemRead string string | MissingCertificate
  | MissingPrivateKey | InvalidCertificate | KeyMismatch | InvalidValidity | DomainMismatch string | CryptoProvider

fun certificate_error_code :: "CertificateValidationError \<Rightarrow> string" where
  "certificate_error_code CredentialDirectoryUnavailable = ''TLS_CREDENTIAL_DIRECTORY_UNAVAILABLE''"
| "certificate_error_code CredentialNameInvalid = ''TLS_CREDENTIAL_NAME_INVALID''"
| "certificate_error_code (PemRead _ _) = ''TLS_PEM_READ_FAILED''"
| "certificate_error_code MissingCertificate = ''TLS_CERTIFICATE_MISSING''"
| "certificate_error_code MissingPrivateKey = ''TLS_PRIVATE_KEY_MISSING''"
| "certificate_error_code InvalidCertificate = ''TLS_CERTIFICATE_INVALID''"
| "certificate_error_code KeyMismatch = ''TLS_KEY_MISMATCH''"
| "certificate_error_code InvalidValidity = ''TLS_VALIDITY_INVALID''"
| "certificate_error_code (DomainMismatch _) = ''TLS_SAN_MISMATCH''"
| "certificate_error_code CryptoProvider = ''TLS_CRYPTO_PROVIDER_INVALID''"

definition resolve_credential_path :: "string \<Rightarrow> string option \<Rightarrow> CertificateValidationError + string" where
  "resolve_credential_path configured credential_directory =
     (if path_is_absolute configured then Inr configured
      else case path_components configured of
        [NormalComp _] \<Rightarrow>
          (case credential_directory of
             None \<Rightarrow> Inl CredentialDirectoryUnavailable
           | Some directory \<Rightarrow> Inr (path_join directory configured))
      | _ \<Rightarrow> Inl CredentialNameInvalid)"

section \<open>Certificate files\<close>

datatype general_name = DNSName string | OtherName

text \<open>A parsed certificate; an extension that cannot be read is absent as a whole.\<close>

record x509 =
  xc_not_before :: int
  xc_not_after :: int
  xc_subject_alternative_name :: "general_name list option option"

record CertificateInspection =
  ci_domains :: "string list"
  ci_not_after :: string
  ci_seconds_remaining :: int

record tls_library =
  tl_credentials_directory :: "string option"
  tl_read :: "string \<Rightarrow> string + string"
  tl_certs :: "string \<Rightarrow> string + string list"
  tl_private_key :: "string \<Rightarrow> string + string option"
  tl_parse_x509 :: "string \<Rightarrow> x509 option"
  tl_safe_versions :: bool
  tl_single_cert :: "string list \<Rightarrow> string \<Rightarrow> bool"
  tl_timestamp_in_range :: "int \<Rightarrow> bool"
  tl_format_rfc3339 :: "int \<Rightarrow> string option"

definition domain_matches :: "string \<Rightarrow> string \<Rightarrow> bool" where
  "domain_matches certificate_name domain =
     (let certificate_name = to_ascii_lowercase (trim_end_matches (CHR ''.'') certificate_name);
          domain = to_ascii_lowercase (trim_end_matches (CHR ''.'') domain)
      in case strip_prefix certificate_name ''*.'' of
           Some parent \<Rightarrow>
             (case strip_suffix domain parent of
                None \<Rightarrow> False
              | Some front \<Rightarrow>
                  (case strip_suffix front ''.'' of
                     None \<Rightarrow> False
                   | Some label \<Rightarrow> label \<noteq> [] \<and> \<not> contains_char label (CHR ''.'')))
         | None \<Rightarrow> certificate_name = domain)"

definition i64_saturating_sub :: "int \<Rightarrow> int \<Rightarrow> int" where
  "i64_saturating_sub a b = max (- (2 ^ 63)) (min (2 ^ 63 - 1) (a - b))"

definition dns_names :: "general_name list option \<Rightarrow> string list" where
  "dns_names names = (case names of None \<Rightarrow> []
     | Some ns \<Rightarrow> List.map_filter (\<lambda>n. case n of DNSName v \<Rightarrow> Some v | OtherName \<Rightarrow> None) ns)"

definition inspect_leaf ::
  "tls_library \<Rightarrow> certificate_config \<Rightarrow> int \<Rightarrow> string \<Rightarrow> CertificateValidationError + CertificateInspection" where
  "inspect_leaf lib certificate now leaf =
     and_then (ok_or InvalidCertificate (tl_parse_x509 lib leaf)) (\<lambda>parsed.
     and_then (reject_if (now < xc_not_before parsed \<or> now > xc_not_after parsed) InvalidValidity) (\<lambda>_.
     and_then (ok_or InvalidCertificate (xc_subject_alternative_name parsed)) (\<lambda>names.
     and_then (all_ok (\<lambda>domain. reject_if (\<not> list_ex (\<lambda>name. domain_matches name domain) (dns_names names)) (DomainMismatch domain))
         (cc_domains certificate)) (\<lambda>_.
     and_then (reject_if (\<not> tl_timestamp_in_range lib (xc_not_after parsed)) InvalidCertificate) (\<lambda>_.
     Inr \<lparr>ci_domains = cc_domains certificate,
          ci_not_after = (case tl_format_rfc3339 lib (xc_not_after parsed) of Some s \<Rightarrow> s | None \<Rightarrow> []),
          ci_seconds_remaining = i64_saturating_sub (xc_not_after parsed) now\<rparr>)))))"

definition inspect_public_certificate_at ::
  "tls_library \<Rightarrow> certificate_config \<Rightarrow> int \<Rightarrow> CertificateValidationError + string list \<times> CertificateInspection" where
  "inspect_public_certificate_at lib certificate now =
     and_then (resolve_credential_path (cc_cert_file certificate) (tl_credentials_directory lib)) (\<lambda>cert_file.
     and_then (map_err (PemRead ''certificate'') (tl_read lib cert_file)) (\<lambda>bytes.
     and_then (map_err (PemRead ''certificate'') (tl_certs lib bytes)) (\<lambda>certificates.
     case certificates of
       [] \<Rightarrow> Inl MissingCertificate
     | leaf # _ \<Rightarrow> and_then (inspect_leaf lib certificate now leaf) (\<lambda>inspection. Inr (certificates, inspection)))))"

definition validate_certificate_at ::
  "tls_library \<Rightarrow> certificate_config \<Rightarrow> int \<Rightarrow> CertificateValidationError + CertificateInspection" where
  "validate_certificate_at lib certificate now =
     and_then (inspect_public_certificate_at lib certificate now) (\<lambda>(certificates, inspection).
     and_then (resolve_credential_path (cc_key_file certificate) (tl_credentials_directory lib)) (\<lambda>key_file.
     and_then (map_err (PemRead ''private-key'') (tl_read lib key_file)) (\<lambda>key_bytes.
     and_then (map_err (PemRead ''private-key'') (tl_private_key lib key_bytes)) (\<lambda>found.
     and_then (ok_or MissingPrivateKey found) (\<lambda>key.
     and_then (reject_if (\<not> tl_safe_versions lib) CryptoProvider) (\<lambda>_.
     and_then (reject_if (\<not> tl_single_cert lib certificates key) KeyMismatch) (\<lambda>_.
     Inr inspection)))))))"

section \<open>Renewal evidence\<close>

datatype TlsHealth = HealthDisabled | HealthValid | ExpiringSoon | HealthInvalid | RenewalMissing

datatype TlsOwnership = Unmanaged | OwnedExternally | OwnedAssisted | OwnedManually

datatype TlsRenewalState = RenewalHealthy | RenewalStateMissing | RenewalUnknown | RenewalManual | NotApplicable

definition CERTBOT_LIVE_DIRECTORY :: string where
  "CERTBOT_LIVE_DIRECTORY = ''/etc/letsencrypt/live''"

definition CERTBOT_RENEWAL_DIRECTORY :: string where
  "CERTBOT_RENEWAL_DIRECTORY = ''/etc/letsencrypt/renewal''"

definition CERTBOT_TIMERS :: "string list" where
  "CERTBOT_TIMERS = [''certbot.timer'', ''snap.certbot.renew.timer'']"

record file_metadata =
  md_is_file :: bool
  md_is_symlink :: bool
  md_len :: u64

text \<open>What the host answers: metadata without following links, existence, contents, and the timer properties.\<close>

record host_evidence =
  he_symlink_metadata :: "string \<Rightarrow> file_metadata option"
  he_exists :: "string \<Rightarrow> bool"
  he_read_to_string :: "string \<Rightarrow> string option"
  he_systemctl_show :: "string \<Rightarrow> string option"

fun find_property :: "string \<Rightarrow> string list \<Rightarrow> string option" where
  "find_property name [] = None"
| "find_property name (line # rest) =
     (case split_once (CHR ''='') line of
        Some (key, value) \<Rightarrow> if key = name then Some (trim value) else find_property name rest
      | None \<Rightarrow> find_property name rest)"

definition timer_property :: "string \<Rightarrow> string \<Rightarrow> string option" where
  "timer_property output name = find_property name (str_lines output)"

definition systemd_timer_healthy :: "string \<Rightarrow> bool" where
  "systemd_timer_healthy output \<longleftrightarrow>
     timer_property output ''LoadState'' = Some ''loaded'' \<and> timer_property output ''ActiveState'' = Some ''active''
     \<and> (case timer_property output ''UnitFileState'' of
          Some u \<Rightarrow> u \<in> set [''enabled'', ''enabled-runtime'', ''static'', ''indirect''] | None \<Rightarrow> False)"

definition timer_unit_exists :: "host_evidence \<Rightarrow> string \<Rightarrow> bool" where
  "timer_unit_exists h timer =
     list_ex (\<lambda>directory. he_exists h (path_join directory timer))
       [''/etc/systemd/system'', ''/run/systemd/system'', ''/usr/lib/systemd/system'', ''/lib/systemd/system'']"

definition cron_line_renews :: "string \<Rightarrow> bool" where
  "cron_line_renews raw =
     (let line = trim raw
      in line \<noteq> [] \<and> \<not> starts_with line ''#'' \<and> str_contains line ''certbot'' \<and> str_contains line ''renew'')"

definition cron_certbot_exists :: "host_evidence \<Rightarrow> bool" where
  "cron_certbot_exists h =
     (case he_symlink_metadata h ''/etc/cron.d/certbot'' of
        None \<Rightarrow> False
      | Some metadata \<Rightarrow>
          md_is_file metadata \<and> \<not> md_is_symlink metadata \<and> unat (md_len metadata) \<le> 64 * 1024
          \<and> (case he_read_to_string h ''/etc/cron.d/certbot'' of
               None \<Rightarrow> False | Some source \<Rightarrow> list_ex cron_line_renews (str_lines source)))"

definition certbot_lineage :: "string \<Rightarrow> string option" where
  "certbot_lineage path =
     (let base = path_components CERTBOT_LIVE_DIRECTORY; cs = path_components path
      in if \<not> prefix base cs then None
         else case drop (length base) cs of
           [NormalComp lineage, NormalComp filename] \<Rightarrow>
             if filename \<in> set [''fullchain.pem'', ''cert.pem''] then Some lineage else None
         | _ \<Rightarrow> None)"

definition certbot_renewal_configuration_exists :: "host_evidence \<Rightarrow> certificate_config \<Rightarrow> bool" where
  "certbot_renewal_configuration_exists h certificate =
     (case (case cc_certbot_lineage certificate of Some l \<Rightarrow> Some l | None \<Rightarrow> certbot_lineage (cc_cert_file certificate)) of
        None \<Rightarrow> False
      | Some lineage \<Rightarrow>
          (case he_symlink_metadata h (path_join CERTBOT_RENEWAL_DIRECTORY (lineage @ ''.conf'')) of
             None \<Rightarrow> False | Some metadata \<Rightarrow> md_is_file metadata \<and> \<not> md_is_symlink metadata))"

fun inspect_timers :: "host_evidence \<Rightarrow> bool \<Rightarrow> bool \<Rightarrow> string list \<Rightarrow> TlsRenewalState \<times> string option" where
  "inspect_timers h found_unit uncertain [] =
     (if uncertain then (RenewalUnknown, Some ''certbot'')
      else if found_unit then (RenewalStateMissing, Some ''certbot'')
      else (RenewalStateMissing, None))"
| "inspect_timers h found_unit uncertain (timer # timers) =
     (if \<not> timer_unit_exists h timer then inspect_timers h found_unit uncertain timers
      else case he_systemctl_show h timer of
        Some stdout \<Rightarrow> if systemd_timer_healthy stdout then (RenewalHealthy, Some timer)
                       else inspect_timers h True uncertain timers
      | None \<Rightarrow> inspect_timers h True True timers)"

definition inspect_certbot_renewal :: "host_evidence \<Rightarrow> TlsRenewalState \<times> string option" where
  "inspect_certbot_renewal h =
     (if cron_certbot_exists h then (RenewalHealthy, Some ''certbot-cron'')
      else inspect_timers h False False CERTBOT_TIMERS)"

definition management_classification ::
  "host_evidence \<Rightarrow> tls_management_mode \<Rightarrow> bool \<Rightarrow> TlsOwnership \<times> TlsRenewalState \<times> string option" where
  "management_classification h management certbot_renewal =
     (case management of
        TlsManual \<Rightarrow> (OwnedManually, RenewalManual, None)
      | TlsExternalManaged \<Rightarrow>
          if \<not> certbot_renewal then (OwnedExternally, RenewalUnknown, Some ''external'')
          else (OwnedExternally, inspect_certbot_renewal h)
      | TlsVpsguardAssisted \<Rightarrow>
          if \<not> certbot_renewal then (OwnedAssisted, RenewalStateMissing, Some ''certbot'')
          else (OwnedAssisted, inspect_certbot_renewal h)
      | TlsAuto \<Rightarrow>
          if \<not> certbot_renewal then (OwnedManually, RenewalManual, None)
          else (OwnedExternally, inspect_certbot_renewal h))"

section \<open>The health report\<close>

datatype next_advice =
  ChooseManagement | CheckFiles | ConfirmRenewalBeforeExpiry | ApproveAssistedPlan | RestoreManager | ReplaceManually
  | MonitorExternally | KeepObserving

fun next_action :: "TlsHealth \<Rightarrow> TlsOwnership \<Rightarrow> TlsRenewalState \<Rightarrow> next_advice" where
  "next_action ExpiringSoon _ _ = ConfirmRenewalBeforeExpiry"
| "next_action RenewalMissing OwnedAssisted _ = ApproveAssistedPlan"
| "next_action RenewalMissing _ _ = RestoreManager"
| "next_action _ OwnedManually _ = ReplaceManually"
| "next_action _ OwnedExternally RenewalUnknown = MonitorExternally"
| "next_action _ _ _ = KeepObserving"

record TlsManagementSnapshot =
  tms_health :: TlsHealth
  tms_ownership :: TlsOwnership
  tms_renewal :: TlsRenewalState
  tms_manager :: "string option"
  tms_certificate_count :: nat
  tms_earliest_expiry :: "string option"
  tms_error_code :: "string option"
  tms_next_action :: next_advice

text \<open>\<open>min_by_key\<close> keeps the first of several minimal elements.\<close>

fun earliest_inspection :: "CertificateInspection \<Rightarrow> CertificateInspection list \<Rightarrow> CertificateInspection" where
  "earliest_inspection best [] = best"
| "earliest_inspection best (i # is) =
     earliest_inspection (if ci_seconds_remaining i < ci_seconds_remaining best then i else best) is"

definition earliest_expiry :: "CertificateInspection list \<Rightarrow> string option" where
  "earliest_expiry inspections = (case inspections of
     [] \<Rightarrow> None | i # is \<Rightarrow> Some (ci_not_after (earliest_inspection i is)))"

definition EXPIRING_SOON :: int where
  "EXPIRING_SOON = 30 * 86400"

fun inspect_certificates ::
  "tls_library \<Rightarrow> certificate_config list \<Rightarrow> int list \<Rightarrow> CertificateInspection list
   \<Rightarrow> CertificateValidationError option \<times> CertificateInspection list" where
  "inspect_certificates lib (certificate # rest) (now # clock) inspections =
     (case inspect_public_certificate_at lib certificate now of
        Inr (_, inspection) \<Rightarrow> inspect_certificates lib rest clock (inspections @ [inspection])
      | Inl error \<Rightarrow> (Some error, inspections))"
| "inspect_certificates lib _ _ inspections = (None, inspections)"

text \<open>The clock is read once for each certificate.\<close>

definition inspect_tls_management ::
  "tls_library \<Rightarrow> host_evidence \<Rightarrow> int list \<Rightarrow> tls_config \<Rightarrow> TlsManagementSnapshot" where
  "inspect_tls_management lib h clock config =
     (if tc_certificates config = []
      then \<lparr>tms_health = HealthDisabled, tms_ownership = Unmanaged, tms_renewal = NotApplicable, tms_manager = None,
            tms_certificate_count = 0, tms_earliest_expiry = None, tms_error_code = None, tms_next_action = ChooseManagement\<rparr>
      else case inspect_certificates lib (tc_certificates config) clock [] of
        (Some error, inspections) \<Rightarrow>
          (let (ownership, renewal, manager) = management_classification h (tc_management config) False
           in \<lparr>tms_health = HealthInvalid, tms_ownership = ownership, tms_renewal = renewal, tms_manager = manager,
               tms_certificate_count = length inspections, tms_earliest_expiry = earliest_expiry inspections,
               tms_error_code = Some (certificate_error_code error), tms_next_action = CheckFiles\<rparr>)
      | (None, inspections) \<Rightarrow>
          (let certbot_renewal = list_all (certbot_renewal_configuration_exists h) (tc_certificates config);
               (ownership, renewal, manager) = management_classification h (tc_management config) certbot_renewal;
               expiring = list_ex (\<lambda>i. ci_seconds_remaining i \<le> EXPIRING_SOON) inspections;
               renewal_required = (ownership = OwnedExternally \<or> ownership = OwnedAssisted);
               health = (if expiring then ExpiringSoon
                 else if renewal_required \<and> renewal = RenewalStateMissing then RenewalMissing
                 else HealthValid)
           in \<lparr>tms_health = health, tms_ownership = ownership, tms_renewal = renewal, tms_manager = manager,
               tms_certificate_count = length inspections, tms_earliest_expiry = earliest_expiry inspections,
               tms_error_code = None, tms_next_action = next_action health ownership renewal\<rparr>))"

section \<open>Assisted issue\<close>

datatype CertbotPlanStep =
  VerifyDns | VerifyHttp01 | CreateWebroot | ConfigureOriginWebroot | IssueCertificate | EnableRenewalTimer
  | InstallDeployHook | VerifyServedCertificate

record CertbotAssistedPlan =
  cap_schema_version :: u32
  cap_domains :: "string list"
  cap_email :: string
  cap_webroot :: string
  cap_steps :: "CertbotPlanStep list"
  cap_requires_explicit_approval :: bool
  cap_preserves_existing_manager :: bool

datatype CertbotPlanError = AssistedModeRequired | InvalidDomain | InvalidEmail

definition has_whitespace :: "string \<Rightarrow> bool" where
  "has_whitespace s = list_ex (str_contains s) unicode_ws"

definition invalid_http01_domain :: "string \<Rightarrow> bool" where
  "invalid_http01_domain domain \<longleftrightarrow>
     starts_with domain ''*.'' \<or> domain = [] \<or> length domain > 253 \<or> contains_char domain (CHR ''/'')
     \<or> contains_char domain (CHR '':'') \<or> has_whitespace domain"

definition invalid_email :: "string \<Rightarrow> bool" where
  "invalid_email email \<longleftrightarrow>
     email = [] \<or> length email > 254 \<or> \<not> list_all (\<lambda>c. byte c < 128) email \<or> has_whitespace email
     \<or> (case split_once (CHR ''@'') email of
          None \<Rightarrow> True | Some (local, host) \<Rightarrow> local = [] \<or> host = [] \<or> \<not> contains_char host (CHR ''.''))"

definition build_certbot_assisted_plan ::
  "tls_management_mode \<Rightarrow> string list \<Rightarrow> string \<Rightarrow> CertbotPlanError + CertbotAssistedPlan" where
  "build_certbot_assisted_plan mode domains email =
     (if mode \<noteq> TlsVpsguardAssisted then Inl AssistedModeRequired
      else if domains = [] \<or> length domains > 16 \<or> list_ex invalid_http01_domain domains then Inl InvalidDomain
      else if invalid_email email then Inl InvalidEmail
      else Inr \<lparr>cap_schema_version = 1, cap_domains = domains, cap_email = email,
        cap_webroot = ''/var/lib/vps-guard/acme-webroot'',
        cap_steps = [VerifyDns, CreateWebroot, ConfigureOriginWebroot, VerifyHttp01, IssueCertificate,
          EnableRenewalTimer, InstallDeployHook, VerifyServedCertificate],
        cap_requires_explicit_approval = True, cap_preserves_existing_manager = True\<rparr>)"

section \<open>What a valid report means\<close>

lemma inspect_leaf_Inr:
  assumes "inspect_leaf lib certificate now leaf = Inr i"
  obtains parsed names where "tl_parse_x509 lib leaf = Some parsed" "xc_subject_alternative_name parsed = Some names"
    "xc_not_before parsed \<le> now" "now \<le> xc_not_after parsed"
    "\<forall>domain \<in> set (cc_domains certificate). \<exists>name \<in> set (dns_names names). domain_matches name domain"
    "ci_seconds_remaining i = i64_saturating_sub (xc_not_after parsed) now"
  using assms unfolding inspect_leaf_def
  by (auto simp: and_then_Inr_iff ok_or_Inr_iff reject_if_Inr_iff all_ok_Inr_iff list_ex_iff)

lemma inspect_public_Inr:
  assumes "inspect_public_certificate_at lib certificate now = Inr (chain, i)"
  obtains leaf rest where "chain = leaf # rest" "inspect_leaf lib certificate now leaf = Inr i"
proof -
  from assms obtain certificates where
    "(case certificates of [] \<Rightarrow> Inl MissingCertificate
      | leaf # _ \<Rightarrow> and_then (inspect_leaf lib certificate now leaf) (\<lambda>i. Inr (certificates, i))) = Inr (chain, i)"
    unfolding inspect_public_certificate_at_def and_then_Inr_iff by blast
  then show ?thesis using that by (cases certificates) (auto simp: and_then_Inr_iff)
qed

text \<open>A certificate the report may call good at a time: current, and it names every configured domain.\<close>

definition good_certificate :: "tls_library \<Rightarrow> certificate_config \<Rightarrow> int \<Rightarrow> int \<Rightarrow> bool" where
  "good_certificate lib certificate now margin \<longleftrightarrow>
     (\<exists>chain i leaf parsed names. inspect_public_certificate_at lib certificate now = Inr (leaf # chain, i)
        \<and> tl_parse_x509 lib leaf = Some parsed \<and> xc_subject_alternative_name parsed = Some names
        \<and> xc_not_before parsed \<le> now \<and> now + margin < xc_not_after parsed
        \<and> (\<forall>domain \<in> set (cc_domains certificate). \<exists>name \<in> set (dns_names names). domain_matches name domain))"

lemma good_certificateI:
  assumes "inspect_public_certificate_at lib certificate now = Inr (chain, i)" and "ci_seconds_remaining i > margin" and "0 \<le> margin"
  shows "good_certificate lib certificate now margin"
proof -
  from assms(1) obtain leaf rest where chain: "chain = leaf # rest" and leaf: "inspect_leaf lib certificate now leaf = Inr i"
    by (rule inspect_public_Inr)
  from leaf obtain parsed names where parsed: "tl_parse_x509 lib leaf = Some parsed" "xc_subject_alternative_name parsed = Some names"
    "xc_not_before parsed \<le> now" "now \<le> xc_not_after parsed"
    "\<forall>domain \<in> set (cc_domains certificate). \<exists>name \<in> set (dns_names names). domain_matches name domain"
    "ci_seconds_remaining i = i64_saturating_sub (xc_not_after parsed) now"
    by (rule inspect_leaf_Inr)
  from parsed(6) assms(2,3) have "now + margin < xc_not_after parsed"
    by (auto simp: i64_saturating_sub_def max_def min_def split: if_splits)
  with assms(1) parsed chain show ?thesis unfolding good_certificate_def by blast
qed

lemma inspect_certificates_None:
  assumes "inspect_certificates lib cs clock done0 = (None, inspections)" and "length clock = length cs"
  shows "\<exists>new. inspections = done0 @ new \<and> length new = length cs
    \<and> (\<forall>n < length cs. \<exists>chain. inspect_public_certificate_at lib (cs ! n) (clock ! n) = Inr (chain, new ! n))"
  using assms
proof (induction cs arbitrary: clock done0)
  case (Cons c cs)
  from Cons.prems(2) obtain now ticks where clock: "clock = now # ticks" "length ticks = length cs"
    by (cases clock) auto
  with Cons.prems(1) obtain chain i where ok: "inspect_public_certificate_at lib c now = Inr (chain, i)"
    by (auto split: sum.splits)
  with Cons.prems(1) clock(1) have "inspect_certificates lib cs ticks (done0 @ [i]) = (None, inspections)" by simp
  from Cons.IH [OF this clock(2)] obtain new where new: "inspections = (done0 @ [i]) @ new" "length new = length cs"
    "\<forall>n < length cs. \<exists>chain. inspect_public_certificate_at lib (cs ! n) (ticks ! n) = Inr (chain, new ! n)"
    by blast
  have "\<exists>chain. inspect_public_certificate_at lib ((c # cs) ! n) (clock ! n) = Inr (chain, (i # new) ! n)"
    if "n < length (c # cs)" for n
    using ok new(3) that clock(1) by (cases n) auto
  with new show ?case by (intro exI [of _ "i # new"]) auto
qed auto

lemma inspect_tls_valid:
  assumes "tms_health (inspect_tls_management lib h clock config) = HealthValid"
  obtains inspections where "inspect_certificates lib (tc_certificates config) clock [] = (None, inspections)"
    "\<forall>i \<in> set inspections. ci_seconds_remaining i > EXPIRING_SOON"
    "\<forall>ownership renewal manager. management_classification h (tc_management config)
       (list_all (certbot_renewal_configuration_exists h) (tc_certificates config)) = (ownership, renewal, manager)
       \<longrightarrow> ownership = OwnedManually \<or> ownership = Unmanaged \<or> renewal \<noteq> RenewalStateMissing"
proof -
  obtain e inspections where result: "inspect_certificates lib (tc_certificates config) clock [] = (e, inspections)"
    by (cases "inspect_certificates lib (tc_certificates config) clock []")
  have "e = None" and rest: "\<not> list_ex (\<lambda>i. ci_seconds_remaining i \<le> EXPIRING_SOON) inspections"
    using assms result by (auto simp: inspect_tls_management_def Let_def split: if_splits option.splits prod.splits)
  moreover have "ownership = OwnedManually \<or> ownership = Unmanaged \<or> renewal \<noteq> RenewalStateMissing"
    if "management_classification h (tc_management config)
       (list_all (certbot_renewal_configuration_exists h) (tc_certificates config)) = (ownership, renewal, manager)"
    for ownership renewal manager
    using assms result \<open>e = None\<close> that rest
    by (cases ownership) (auto simp: inspect_tls_management_def Let_def split: if_splits)
  ultimately show ?thesis using that result by (auto simp: list_ex_iff not_le)
qed


section \<open>Names\<close>

lemma lower_dot: "trim_end_matches (CHR ''.'') (to_ascii_lowercase s) = to_ascii_lowercase (trim_end_matches (CHR ''.'') s)"
proof -
  have dot: "ascii_lower c = CHR ''.'' \<longleftrightarrow> c = CHR ''.''" for c by (auto simp: ascii_lower_eq_iff)
  have "rev (dropWhile (\<lambda>x. x = CHR ''.'') (rev (map ascii_lower s))) = map ascii_lower (rev (dropWhile (\<lambda>x. x = CHR ''.'') (rev s)))"
    by (simp add: rev_map dropWhile_map comp_def dot)
  then show ?thesis by (simp add: trim_end_matches_def to_ascii_lowercase_def)
qed

text \<open>A certificate name that covers a rule of the configuration covers the hosts the rule matches.\<close>

lemma covers_matched_host:
  assumes covered: "domain_matches name rule" and matched: "host_rule_matches rule host" and dot: "last rule \<noteq> CHR ''.''"
  shows "domain_matches name host"
proof (cases "strip_prefix rule ''*.''")
  case None
  with matched have "to_ascii_lowercase rule = to_ascii_lowercase host"
    by (simp add: host_rule_matches_def eq_ignore_ascii_case_def)
  then have "to_ascii_lowercase (trim_end_matches (CHR ''.'') rule) = to_ascii_lowercase (trim_end_matches (CHR ''.'') host)"
    by (metis lower_dot)
  with covered show ?thesis by (simp add: domain_matches_def)
next
  case (Some domain)
  let ?d = "to_ascii_lowercase domain"
  from Some have rule: "rule = ''*.'' @ domain" by (simp add: strip_prefix_Some_iff)
  from matched Some obtain label where host: "to_ascii_lowercase host = label @ ''.'' @ ?d" "label \<noteq> []" "CHR ''.'' \<notin> set label"
    by (auto simp: host_rule_matches_def strip_suffix_Some_iff contains_char_def split: option.splits)
  have d: "domain \<noteq> []" "last domain \<noteq> CHR ''.''" using dot rule by (cases "domain = []"; simp)+
  have rule_trimmed: "trim_end_matches (CHR ''.'') rule = rule" using dot by (intro trim_end_matches_id) simp
  have "last ?d \<noteq> CHR ''.''" using d by (auto simp: to_ascii_lowercase_def last_map ascii_lower_eq_iff)
  then have host_trimmed: "to_ascii_lowercase (trim_end_matches (CHR ''.'') host) = label @ ''.'' @ ?d"
    using host(1) d by (subst lower_dot [symmetric], subst host(1), intro trim_end_matches_id) (auto simp: to_ascii_lowercase_def)
  let ?n = "to_ascii_lowercase (trim_end_matches (CHR ''.'') name)"
  have rule_lower: "to_ascii_lowercase rule = ''*.'' @ ?d" by (simp add: rule to_ascii_lowercase_def ascii_lower_def)
  show ?thesis
  proof (cases "strip_prefix ?n ''*.''")
    case None
    with covered rule_trimmed rule_lower show ?thesis by (auto simp: domain_matches_def Let_def strip_prefix_None_iff)
  next
    case (Some parent)
    with covered obtain l where l: "''*.'' @ ?d = l @ ''.'' @ parent" "l \<noteq> []" "CHR ''.'' \<notin> set l"
      by (auto simp: domain_matches_def Let_def rule_trimmed rule_lower strip_suffix_Some_iff contains_char_def split: option.splits)
    from l have "parent = ?d" by (cases l) (auto simp: Cons_eq_append_conv)
    with Some host host_trimmed show ?thesis
      by (auto simp: domain_matches_def Let_def strip_suffix_Some_iff contains_char_def split: option.splits)
  qed
qed

text \<open>
  (C13) The certificate the edge serves covers the management host. In a validated configuration whose
  edge terminates TLS for a public management host, if the configured certificate files validate
  and no configured domain ends in a dot, then the leaf of one of them carries a DNS name that
  matches the management host.
\<close>

theorem certificate_covers_management_host:
  assumes "validate_config lib c = Inr ()" and "uc_public_host (gc_ui c) = Some h"
    and "uc_tls_termination (gc_ui c) = EdgeTermination"
    and "\<forall>cert \<in> set (tc_certificates (gc_tls c)). (\<exists>i. validate_certificate_at tls cert now = Inr i)
           \<and> (\<forall>rule \<in> set (cc_domains cert). last rule \<noteq> CHR ''.'')"
  shows "\<exists>cert \<in> set (tc_certificates (gc_tls c)). \<exists>leaf rest i parsed names.
    inspect_public_certificate_at tls cert now = Inr (leaf # rest, i) \<and> tl_parse_x509 tls leaf = Some parsed
    \<and> xc_subject_alternative_name parsed = Some names \<and> (\<exists>name \<in> set (dns_names names). domain_matches name h)"
proof -
  from validated_public_host [OF assms(1,2)] assms(3)
  obtain cert rule where cert: "cert \<in> set (tc_certificates (gc_tls c))" and rule: "rule \<in> set (cc_domains cert)"
    and matched: "host_rule_matches rule h"
    by (auto simp: validate_public_host_def outcome_simps invalid_if_def list_ex_iff)
  from assms(4) cert obtain chain i where "inspect_public_certificate_at tls cert now = Inr (chain, i)"
    by (fastforce simp: validate_certificate_at_def and_then_Inr_iff)
  moreover from this obtain leaf rest where chain: "chain = leaf # rest" and leaf: "inspect_leaf tls cert now leaf = Inr i"
    by (rule inspect_public_Inr)
  moreover from leaf obtain parsed names where "tl_parse_x509 tls leaf = Some parsed" "xc_subject_alternative_name parsed = Some names"
    and covers: "\<forall>domain \<in> set (cc_domains cert). \<exists>name \<in> set (dns_names names). domain_matches name domain"
    by (rule inspect_leaf_Inr)
  moreover from covers rule obtain name where "name \<in> set (dns_names names)" "domain_matches name rule" by blast
  then have "\<exists>name \<in> set (dns_names names). domain_matches name h"
    using covers_matched_host [OF _ matched] assms(4) cert rule by blast
  ultimately show ?thesis using cert by blast
qed

text \<open>A credential named in the configuration stays inside the credential directory.\<close>

theorem credential_confined:
  assumes "resolve_credential_path configured (Some directory) = Inr path" and "\<not> path_is_absolute configured"
    and "path_is_absolute directory"
  shows "\<exists>name. path_components path = path_components directory @ [NormalComp name]"
proof -
  from assms(1,2) obtain name where "path_components configured = [NormalComp name]" "path = path_join directory configured"
    by (auto simp: resolve_credential_path_def split: list.splits path_component.splits)
  then show ?thesis using path_join_components [OF assms(3)] by auto
qed

section \<open>A certificate and its files\<close>

definition sample_x509 :: x509 where
  "sample_x509 = \<lparr>xc_not_before = 0, xc_not_after = 10000000, xc_subject_alternative_name = Some (Some [DNSName ''*.example.com'', DNSName ''example.com''])\<rparr>"

definition sample_tls_library :: tls_library where
  "sample_tls_library = \<lparr>tl_credentials_directory = Some ''/run/credentials/edge'', tl_read = Inr, tl_certs = (\<lambda>b. Inr [b]),
     tl_private_key = (\<lambda>b. Inr (Some b)), tl_parse_x509 = (\<lambda>_. Some sample_x509), tl_safe_versions = True,
     tl_single_cert = (\<lambda>_ _. True), tl_timestamp_in_range = (\<lambda>_. True), tl_format_rfc3339 = (\<lambda>_. Some ''t'')\<rparr>"

definition sample_host :: host_evidence where
  "sample_host = \<lparr>he_symlink_metadata = (\<lambda>_. Some \<lparr>md_is_file = True, md_is_symlink = False, md_len = 30\<rparr>), he_exists = (\<lambda>_. False),
     he_read_to_string = (\<lambda>_. Some ''0 0 * * * root certbot renew''), he_systemctl_show = (\<lambda>_. None)\<rparr>"

definition sample_tls_config :: tls_config where
  "sample_tls_config = \<lparr>tc_management = TlsVpsguardAssisted, tc_certificates =
     [\<lparr>cc_domains = [''www.example.com'', ''example.com''], cc_cert_file = ''tls-cert.pem'', cc_key_file = ''tls-key.pem'',
       cc_certbot_lineage = Some ''example.com''\<rparr>]\<rparr>"


theorem certificate_covers_management_host_witness:
  "\<exists>cert \<in> set (tc_certificates (gc_tls sample_config)). \<exists>leaf rest i parsed names.
    inspect_public_certificate_at sample_tls_library cert 1000 = Inr (leaf # rest, i)
    \<and> tl_parse_x509 sample_tls_library leaf = Some parsed
    \<and> xc_subject_alternative_name parsed = Some names \<and> (\<exists>name \<in> set (dns_names names). domain_matches name ''guard.example.com'')"
proof -
  have "validate_certificate_at sample_tls_library (hd (tc_certificates (gc_tls sample_config))) 1000
      = Inr \<lparr>ci_domains = [''*.example.com''], ci_not_after = ''t'', ci_seconds_remaining = 9999000\<rparr>"
    by code_simp
  then have "\<forall>cert \<in> set (tc_certificates (gc_tls sample_config)). (\<exists>i. validate_certificate_at sample_tls_library cert 1000 = Inr i)
      \<and> (\<forall>rule \<in> set (cc_domains cert). last rule \<noteq> CHR ''.'')"
    by (auto simp: sample_config_def)
  moreover have "uc_public_host (gc_ui sample_config) = Some ''guard.example.com''"
    and "uc_tls_termination (gc_ui sample_config) = EdgeTermination" by (simp_all add: sample_config_def)
  ultimately show ?thesis using certificate_covers_management_host [OF sample_config_valid] by blast
qed

end
