(* ===== verification/Edge_Runtime.thy ===== *)
theory Edge_Runtime
  imports Tls Policy_Runtime Edge_Security Edge_Context
begin

text \<open>
  The runtime settings of \<open>guard-edge/src/runtime.rs\<close>: the translation of a validated configuration
  into what the request path reads, and the decisions taken from it, which upstream a host selects,
  which class, limit and body size a route has. The crawler network file is read through a library
  record. Durations are their milliseconds.
\<close>

section \<open>Data\<close>

record RuntimeTlsConfig =
  rtc_listen_addr :: string
  rtc_cert_file :: string
  rtc_key_file :: string
  rtc_domains :: "string list"

record RuntimeManagementConfig =
  rmc_host :: string
  rmc_origin_host :: string
  rmc_origin_port :: u16
  rmc_login_rate_limit_rpm :: u32

datatype RouteClassSource =
  CoreDefault | SourceApplicationProfile | SiteStrictOverride | SiteUploadOverride | SourceManagementAuth

record EffectiveRouteProfile =
  erp_route_class :: route_class
  erp_normalized_route :: string
  erp_base_cost :: u8
  erp_source :: RouteClassSource
  erp_authentication_route :: bool

record 'net EdgeRuntimeConfig =
  er_listen_addr :: string
  er_worker_threads :: "nat option"
  er_tls :: "RuntimeTlsConfig option"
  er_management :: "RuntimeManagementConfig option"
  er_origin_host :: string
  er_origin_port :: u16
  er_origin_tls :: bool
  er_origin_sni :: string
  er_allowed_hosts :: "string list"
  er_canonical_host :: "string option"
  er_trusted_proxy_cidrs :: "'net list"
  er_max_body_bytes :: u64
  er_upload_max_body_bytes :: u64
  er_upload_path_prefixes :: "string list"
  er_strict_path_prefixes :: "string list"
  er_upstream_connect_timeout :: u64
  er_upstream_read_timeout :: u64
  er_upload_upstream_read_timeout :: u64
  er_max_tracked_clients :: nat
  er_max_in_flight_requests :: u64
  er_downstream_io_timeout :: u64
  er_downstream_min_send_rate_bps :: nat
  er_keepalive_request_limit :: u32
  er_prefix_rate_limit_multiplier :: u32
  er_route_rate_limit_multiplier :: u32
  er_global_rate_limit_multiplier :: u32
  er_rate_limit_rpm :: "u32 option"
  er_strict_rate_limit_rpm :: "u32 option"
  er_upload_rate_limit_rpm :: "u32 option"
  er_telemetry_socket :: string
  er_policy_path :: string
  er_policy_reload_interval :: u64
  er_challenge_secret_file :: "string option"
  er_clearance_ttl_seconds :: u64
  er_application_profile :: application_profile
  er_response_security :: ResponseSecurityPolicy
  er_auth_rate_limit_rpm :: u32
  er_inspection_mode :: inspection_mode
  er_detection_mode :: detection_mode
  er_bot_policy :: "'net bot_policy_config"

datatype RuntimeConfigError =
  MissingOriginSni | MultipleCertificates nat | TlsCredential CertificateValidationError
  | CrawlerNetworksRead string | CrawlerNetworksParse string | CrawlerNetworksInvalid string

record 'net runtime_library =
  rtl_credentials_directory :: "string option"
  rtl_read_to_string :: "string \<Rightarrow> string + string"
  rtl_parse_networks :: "string \<Rightarrow> string + 'net pinned_crawler_networks"

section \<open>From the configuration\<close>

definition show_socket_addr :: "socket_addr \<Rightarrow> string" where
  "show_socket_addr a = (case sa_ip a of
     V4 ip \<Rightarrow> show_ipv4 ip @ '':'' @ show_nat (unat (sa_port a))
   | V6 ip \<Rightarrow> ''['' @ show_ipv6 ip @ (if sa_scope_id a = 0 then [] else ''%'' @ show_nat (unat (sa_scope_id a)))
              @ '']:'' @ show_nat (unat (sa_port a)))"

definition runtime_origin_sni :: "origin_config \<Rightarrow> RuntimeConfigError + string" where
  "runtime_origin_sni origin = (case (oc_sni origin, oc_protocol origin = OriginHttps) of
     (Some sni, _) \<Rightarrow> Inr sni
   | (None, False) \<Rightarrow> Inr []
   | (None, True) \<Rightarrow> Inl MissingOriginSni)"

definition runtime_tls ::
  "'net runtime_library \<Rightarrow> 'net guard_config \<Rightarrow> RuntimeConfigError + RuntimeTlsConfig option" where
  "runtime_tls lib config = (case ec_https_bind (gc_edge config) of
     None \<Rightarrow> Inr None
   | Some listen_addr \<Rightarrow>
       (case tc_certificates (gc_tls config) of
          [certificate] \<Rightarrow>
            and_then (map_err TlsCredential (resolve_credential_path (cc_cert_file certificate) (rtl_credentials_directory lib))) (\<lambda>cert_file.
            and_then (map_err TlsCredential (resolve_credential_path (cc_key_file certificate) (rtl_credentials_directory lib))) (\<lambda>key_file.
            Inr (Some \<lparr>rtc_listen_addr = show_socket_addr listen_addr, rtc_cert_file = cert_file,
                       rtc_key_file = key_file, rtc_domains = cc_domains certificate\<rparr>)))
        | certificates \<Rightarrow> Inl (MultipleCertificates (length certificates))))"

definition runtime_management :: "ui_config \<Rightarrow> RuntimeManagementConfig option" where
  "runtime_management ui = map_option (\<lambda>host.
     \<lparr>rmc_host = to_ascii_lowercase host, rmc_origin_host = show_ip (sa_ip (uc_bind ui)),
      rmc_origin_port = sa_port (uc_bind ui), rmc_login_rate_limit_rpm = uc_login_rate_limit_rpm ui\<rparr>) (uc_public_host ui)"

fun application_profile_of :: "detection_profile \<Rightarrow> application_profile" where
  "application_profile_of ProfilePhp = Php"
| "application_profile_of ProfileGnuboard5 = Gnuboard5"
| "application_profile_of ProfileGnuboard7 = Gnuboard7"
| "application_profile_of ProfileWordpress = Wordpress"

definition runtime_bot_policy ::
  "'net runtime_library \<Rightarrow> 'net bot_policy_config \<Rightarrow> RuntimeConfigError + 'net bot_policy_config" where
  "runtime_bot_policy lib bot_policy = (case bp_crawler_networks_file bot_policy of
     None \<Rightarrow> Inr bot_policy
   | Some path \<Rightarrow>
       and_then (map_err CrawlerNetworksRead (rtl_read_to_string lib path)) (\<lambda>source.
       and_then (map_err CrawlerNetworksParse (rtl_parse_networks lib source)) (\<lambda>pinned.
       and_then (reject_if (pin_schema_version pinned \<noteq> 1 \<or> pin_networks pinned = []) (CrawlerNetworksInvalid ''schema_or_empty'')) (\<lambda>_.
       let bot_policy = bot_policy \<lparr>bp_crawler_networks := bp_crawler_networks bot_policy @ pin_networks pinned\<rparr> in
       and_then (reject_if (list_ex (\<lambda>provider. \<not> list_ex (\<lambda>entry. cn_provider entry = provider \<and> cn_cidrs entry \<noteq> [])
                    (bp_crawler_networks bot_policy)) (bp_allowed_crawlers bot_policy)) (CrawlerNetworksInvalid ''provider_missing''))
         (\<lambda>_. Inr bot_policy)))))"

definition try_from_guard ::
  "'net runtime_library \<Rightarrow> 'net guard_config \<Rightarrow> RuntimeConfigError + 'net EdgeRuntimeConfig" where
  "try_from_guard lib config =
     (let edge = gc_edge config; management = runtime_management (gc_ui config);
          profile = application_profile_of (dc_profile (gc_detection config))
      in and_then (runtime_origin_sni (gc_origin config)) (\<lambda>origin_sni.
         and_then (runtime_tls lib config) (\<lambda>tls.
         and_then (runtime_bot_policy lib (gc_bot_policy config)) (\<lambda>bot_policy.
         Inr \<lparr>er_listen_addr = show_socket_addr (ec_http_bind edge),
              er_worker_threads = ec_worker_threads edge,
              er_tls = tls,
              er_management = management,
              er_origin_host = show_ip (sa_ip (oc_address (gc_origin config))),
              er_origin_port = sa_port (oc_address (gc_origin config)),
              er_origin_tls = (oc_protocol (gc_origin config) = OriginHttps),
              er_origin_sni = origin_sni,
              er_allowed_hosts = ec_allowed_hosts edge @ (case management of None \<Rightarrow> [] | Some m \<Rightarrow> [rmc_host m]),
              er_canonical_host = ec_canonical_host edge,
              er_trusted_proxy_cidrs = ec_trusted_proxy_cidrs edge,
              er_max_body_bytes = ec_max_body_bytes edge,
              er_upload_max_body_bytes = ec_upload_max_body_bytes edge,
              er_upload_path_prefixes = ec_upload_path_prefixes edge,
              er_strict_path_prefixes = ec_strict_path_prefixes edge,
              er_upstream_connect_timeout = ec_upstream_connect_timeout_ms edge,
              er_upstream_read_timeout = ec_upstream_read_timeout_ms edge,
              er_upload_upstream_read_timeout = ec_upload_upstream_read_timeout_ms edge,
              er_max_tracked_clients = ec_max_tracked_clients edge,
              er_max_in_flight_requests = ec_max_in_flight_requests edge,
              er_downstream_io_timeout = ec_downstream_io_timeout_ms edge,
              er_downstream_min_send_rate_bps = ec_downstream_min_send_rate_bps edge,
              er_keepalive_request_limit = ec_keepalive_request_limit edge,
              er_prefix_rate_limit_multiplier = ec_prefix_rate_limit_multiplier edge,
              er_route_rate_limit_multiplier = ec_route_rate_limit_multiplier edge,
              er_global_rate_limit_multiplier = ec_global_rate_limit_multiplier edge,
              er_rate_limit_rpm = ec_rate_limit_rpm edge,
              er_strict_rate_limit_rpm = ec_strict_rate_limit_rpm edge,
              er_upload_rate_limit_rpm = ec_upload_rate_limit_rpm edge,
              er_telemetry_socket = ec_telemetry_socket edge,
              er_policy_path = ec_policy_path edge,
              er_policy_reload_interval = ec_policy_reload_interval_ms edge,
              er_challenge_secret_file = ec_challenge_secret_file edge,
              er_clearance_ttl_seconds = ec_clearance_ttl_seconds edge,
              er_application_profile = profile,
              er_response_security = response_policy_from_config (gc_security config) (dc_inspection (gc_detection config)) profile,
              er_auth_rate_limit_rpm = sc_auth_rate_limit_rpm (gc_security config),
              er_inspection_mode = dc_inspection (gc_detection config),
              er_detection_mode = dc_mode (gc_detection config),
              er_bot_policy = bot_policy\<rparr>))))"

section \<open>Decisions\<close>

definition upstream_kind :: "'net EdgeRuntimeConfig \<Rightarrow> string option \<Rightarrow> UpstreamKind" where
  "upstream_kind c host =
     (case (er_management c, host) of
        (Some management, Some value) \<Rightarrow>
          if eq_ignore_ascii_case (normalize_host value) (rmc_host management) then Management else Application
      | _ \<Rightarrow> Application)"

fun profile_class :: "route_kind \<Rightarrow> route_class \<times> RouteClassSource" where
  "profile_class UploadRoute = (Upload, SourceApplicationProfile)"
| "profile_class AdminRoute = (Strict, SourceApplicationProfile)"
| "profile_class AuthenticationRoute = (Strict, SourceApplicationProfile)"
| "profile_class SearchRoute = (Strict, SourceApplicationProfile)"
| "profile_class WriteRoute = (Strict, SourceApplicationProfile)"
| "profile_class RemoteProcedureRoute = (Strict, SourceApplicationProfile)"
| "profile_class _ = (General, CoreDefault)"

definition site_override :: "'net EdgeRuntimeConfig \<Rightarrow> string \<Rightarrow> route_class \<times> RouteClassSource" where
  "site_override c path =
     (if path_matches_any path (er_upload_path_prefixes c) then (Upload, SiteUploadOverride)
      else if path_matches_any path (er_strict_path_prefixes c) then (Strict, SiteStrictOverride)
      else (General, CoreDefault))"

definition effective_route_profile ::
  "'net EdgeRuntimeConfig \<Rightarrow> UpstreamKind \<Rightarrow> string \<Rightarrow> string \<Rightarrow> EffectiveRouteProfile" where
  "effective_route_profile c upstream path target =
     (if upstream = Management
      then let management_auth = (path = ''/api/v1/session'')
           in \<lparr>erp_route_class = (if management_auth then ManagementAuth else General),
               erp_normalized_route = normalize_route path,
               erp_base_cost = (if management_auth then 12 else 2),
               erp_source = (if management_auth then SourceManagementAuth else CoreDefault),
               erp_authentication_route = False\<rparr>
      else let site = site_override c path
           in if er_inspection_mode c = ProtocolOnly
              then \<lparr>erp_route_class = fst site, erp_normalized_route = normalize_route target, erp_base_cost = 1,
                    erp_source = snd site, erp_authentication_route = False\<rparr>
              else let application = classify (er_application_profile c) target;
                       chosen = (if snd site \<noteq> CoreDefault then site else profile_class (rp_kind application))
                   in \<lparr>erp_route_class = fst chosen, erp_normalized_route = rp_normalized_route application,
                       erp_base_cost = rp_base_cost application, erp_source = snd chosen,
                       erp_authentication_route = (rp_kind application = AuthenticationRoute)\<rparr>)"

definition management_login_rate_limit :: "'net EdgeRuntimeConfig \<Rightarrow> string \<Rightarrow> string \<Rightarrow> u32 option" where
  "management_login_rate_limit c meth path =
     (if meth = ''POST'' \<and> path = ''/api/v1/session'' then map_option rmc_login_rate_limit_rpm (er_management c) else None)"

definition body_limit :: "'net EdgeRuntimeConfig \<Rightarrow> route_class \<Rightarrow> u64" where
  "body_limit c route_class = (if route_class = Upload then er_upload_max_body_bytes c else er_max_body_bytes c)"

definition enforces_common_protection :: "'net EdgeRuntimeConfig \<Rightarrow> bool" where
  "enforces_common_protection c \<longleftrightarrow> er_detection_mode c = EnforceMode"

definition option_or :: "'a option \<Rightarrow> 'a option \<Rightarrow> 'a option" where
  "option_or a b = (case a of Some _ \<Rightarrow> a | None \<Rightarrow> b)"

definition rate_limit :: "'net EdgeRuntimeConfig \<Rightarrow> route_class \<Rightarrow> u32 option" where
  "rate_limit c route_class =
     (if \<not> enforces_common_protection c then None
      else case route_class of
        General \<Rightarrow> er_rate_limit_rpm c
      | Strict \<Rightarrow> option_or (er_strict_rate_limit_rpm c) (er_rate_limit_rpm c)
      | Upload \<Rightarrow> option_or (er_upload_rate_limit_rpm c) (er_rate_limit_rpm c)
      | Authentication \<Rightarrow> None
      | ManagementAuth \<Rightarrow> None)"

definition authentication_rate_limit :: "'net EdgeRuntimeConfig \<Rightarrow> u32 option" where
  "authentication_rate_limit c =
     (if enforces_common_protection c \<and> er_inspection_mode c = Profiled \<and> er_auth_rate_limit_rpm c > 0
      then Some (er_auth_rate_limit_rpm c) else None)"

definition runtime_rate_limit_policy :: "'net EdgeRuntimeConfig \<Rightarrow> u32 \<Rightarrow> rate_limit_policy" where
  "runtime_rate_limit_policy c client_rpm =
     from_multipliers client_rpm (er_prefix_rate_limit_multiplier c) (er_route_rate_limit_multiplier c)
       (er_global_rate_limit_multiplier c)"

definition trusts_peer :: "('net \<Rightarrow> ip_addr \<Rightarrow> bool) \<Rightarrow> 'net EdgeRuntimeConfig \<Rightarrow> ip_addr \<Rightarrow> bool" where
  "trusts_peer net_contains c peer = list_ex (\<lambda>network. net_contains network peer) (er_trusted_proxy_cidrs c)"

section \<open>Hosts and upstreams\<close>

lemma try_from_guard_fields:
  assumes "try_from_guard lib c = Inr r"
  shows "er_management r = runtime_management (gc_ui c)"
    and "er_allowed_hosts r = ec_allowed_hosts (gc_edge c) @ (case runtime_management (gc_ui c) of None \<Rightarrow> [] | Some m \<Rightarrow> [rmc_host m])"
    and "er_origin_host r = show_ip (sa_ip (oc_address (gc_origin c)))" and "er_origin_port r = sa_port (oc_address (gc_origin c))"
    and "er_max_body_bytes r = ec_max_body_bytes (gc_edge c)" and "er_upload_max_body_bytes r = ec_upload_max_body_bytes (gc_edge c)"
  using assms by (auto simp: try_from_guard_def Let_def and_then_Inr_iff)

lemma lower_fixed: "(\<And>c. c \<in> set s \<Longrightarrow> ascii_lower c = c) \<Longrightarrow> to_ascii_lowercase s = s"
  by (simp add: to_ascii_lowercase_def map_idI)

lemma without_port_chars: "set (without_port s) \<subseteq> set s"
  by (auto simp: without_port_def split_once_Some_iff split: option.splits)

lemma normalize_host_chars:
  "set (normalize_host raw) \<subseteq> set (to_ascii_lowercase (trim_end_matches (CHR ''.'') (trim raw)))"
  using without_port_chars [of "to_ascii_lowercase (trim_end_matches (CHR ''.'') (trim raw))"]
  by (auto simp: normalize_host_def Let_def strip_prefix_Some_iff split_once_Some_iff split: option.splits)

lemma normalize_host_lower: "to_ascii_lowercase (normalize_host raw) = normalize_host raw"
proof (rule lower_fixed)
  fix c assume "c \<in> set (normalize_host raw)"
  then obtain d where "c = ascii_lower d" using normalize_host_chars by (auto simp: to_ascii_lowercase_def)
  then show "ascii_lower c = c" by simp
qed

lemma upstream_kind_iff:
  assumes "er_management r = runtime_management ui" and "uc_public_host ui = Some h"
  shows "upstream_kind r host = Management \<longleftrightarrow> (\<exists>v. host = Some v \<and> normalize_host v = to_ascii_lowercase h)"
  using assms normalize_host_lower
  by (cases host) (auto simp: upstream_kind_def runtime_management_def eq_ignore_ascii_case_def)

lemma no_management_kind: "er_management r = None \<Longrightarrow> upstream_kind r host = Application"
  by (simp add: upstream_kind_def)

text \<open>
  A management host written with a trailing dot passes the validation of host rules, but is not
  recognised when it is requested: normalisation drops the dot from the request and the allowed
  host, not from the name it is compared with.
\<close>

lemma normalize_dotted_host:
  assumes "validate_host_rule f h = Inr u" and "last h = CHR ''.''"
  shows "length (normalize_host h) < length h"
proof -
  have h: "trim h = h" "h \<noteq> []" using validate_host_rule_shape [OF assms(1)] by auto
  let ?t = "to_ascii_lowercase (trim_end_matches (CHR ''.'') h)"
  have "trim_end_matches (CHR ''.'') h \<noteq> h"
    using last_trim_end_matches [of "CHR ''.''" h] h(2) assms(2) by auto
  then have "strict_prefix (trim_end_matches (CHR ''.'') h) h"
    using trim_end_matches_prefix by (simp add: strict_prefix_def)
  then have "length ?t < length h" using prefix_length_less by simp
  moreover have "length (case strip_prefix t ''['' of None \<Rightarrow> without_port t
      | Some b \<Rightarrow> (case split_once (CHR '']'') b of Some (host, _) \<Rightarrow> host | None \<Rightarrow> without_port t)) \<le> length t" for t
    by (auto simp: without_port_def split_once_Some_iff strip_prefix_Some_iff split: option.splits)
  from this [of ?t] have "length (normalize_host h) \<le> length ?t" by (simp add: normalize_host_def h(1) Let_def)
  ultimately show ?thesis by simp
qed

theorem management_host_with_dot_misrouted:
  assumes "try_from_guard lib c = Inr r" and "uc_public_host (gc_ui c) = Some h"
    and "validate_host_rule f h = Inr u" and "last h = CHR ''.''" and "to_ascii_lowercase h = h" and "\<not> prefix ''*.'' (normalize_host h)"
  shows "host_allowed (Some h) (er_allowed_hosts r) \<and> upstream_kind r (Some h) = Application"
proof
  have "h \<in> set (er_allowed_hosts r)"
    using assms(2,5) by (simp add: try_from_guard_fields [OF assms(1)] runtime_management_def)
  moreover have "host_matches_rule h h"
    using assms(6) by (cases "strip_prefix (normalize_host h) ''*.''") (auto simp: host_matches_rule_def strip_prefix_Some_iff)
  ultimately show "host_allowed (Some h) (er_allowed_hosts r)" by (auto simp: host_allowed_def list_ex_iff)
  have "upstream_kind r (Some h) \<noteq> Management"
    using normalize_dotted_host [OF assms(3,4)] assms(5)
    by (auto simp: upstream_kind_iff [OF try_from_guard_fields(1) [OF assms(1)] assms(2)])
  then show "upstream_kind r (Some h) = Application" by (cases "upstream_kind r (Some h)") auto
qed

end
