(* ===== verification/Edge_Proxy.thy ===== *)
theory Edge_Proxy
  imports Edge_Runtime Telemetry Clearance Correlation
begin

text \<open>
  The request path of \<open>guard-edge/src/proxy.rs\<close> and the answers of \<open>response.rs\<close>: the callbacks
  Pingora makes for one request, over the context of the request and the shared state of the edge.
  The header map of Pingora, JSON, HMAC and the policy library are parameters; every reading of a
  clock and every outcome of a write is an input. Accesses of other requests happen between
  callbacks; the accesses inside one callback are single atomic operations, whose interleavings are
  the subject of the theories of the context, the sink and the limiter.
\<close>

section \<open>The session\<close>

record http_request =
  hq_method :: string
  hq_path :: string
  hq_path_and_query :: "string option"
  hq_authority :: "string option"
  hq_headers :: RequestHeader
  hq_raw_header :: string
  hq_client_addr :: "ip_addr option"
  hq_ssl :: bool

text \<open>What the surroundings answer while one request is served: clocks, writes and the telemetry socket.\<close>

record request_env =
  rq_cookie_seconds :: u64
  rq_policy_now :: int
  rq_challenge_seconds :: u64
  rq_limiter_now :: system_time
  rq_latency_micros :: u64
  rq_unix_millis :: u64
  rq_write_header :: "string + unit"
  rq_write_body :: "string + unit"
  rq_telemetry_lock_free :: bool
  rq_telemetry_sent :: "io_error_kind + unit"

datatype 'h session_write = WroteHeader 'h bool | WroteBody string bool

record session_timeouts =
  sto_read :: u64
  sto_write :: u64
  sto_drain :: u64
  sto_min_send_rate :: nat

section \<open>The edge\<close>

record 'net GuardEdge =
  ge_config :: "'net EdgeRuntimeConfig"
  ge_clearance :: "ClearanceSigner option"

record edge_state =
  es_request_ids :: request_id_generator
  es_rate_limiter :: rate_limiter
  es_origin_ready :: bool
  es_telemetry :: TelemetryInner
  es_policy :: policy_runtime
  es_gauges :: edge_gauges
  es_host_rejections :: u64
  es_capacity_rejections :: u64
  es_rate_limit_rejections :: u64
  es_bot_classifications :: u64

record ('net, 'h) proxy_library =
  pl_net_contains :: "'net \<Rightarrow> ip_addr \<Rightarrow> bool"
  pl_policy :: policy_library
  pl_clearance :: clearance_library
  pl_headers :: "'h header_map"
  pl_build_response :: "u16 \<Rightarrow> string + 'h"
  pl_to_vec :: "RequestTelemetry \<Rightarrow> string option"

record 'h proxy_world =
  pw_edge :: edge_state
  pw_context :: RequestContext
  pw_writes :: "'h session_write list"
  pw_timeouts :: "session_timeouts option"

datatype proxy_error = HttpStatus u16 | HeaderError string | WriteFailed string

definition new_edge ::
  "'net EdgeRuntimeConfig \<Rightarrow> policy_library \<Rightarrow> socket_calls \<Rightarrow> file_read \<Rightarrow> int \<Rightarrow> (string + string) \<Rightarrow> u8 list
   \<Rightarrow> 'net GuardEdge \<times> edge_state" where
  "new_edge config policy_lib socket policy_file now secret nonce =
     (\<lparr>ge_config = config,
       ge_clearance = (case er_challenge_secret_file config of
          None \<Rightarrow> None
        | Some _ \<Rightarrow> (case signer_from_file secret (er_clearance_ttl_seconds config) of Inr s \<Rightarrow> Some s | Inl _ \<Rightarrow> None))\<rparr>,
      \<lparr>es_request_ids = with_process_nonce nonce,
       es_rate_limiter = new_limiter (er_max_tracked_clients config),
       es_origin_ready = False,
       es_telemetry = connect_sink (er_telemetry_socket config) socket,
       es_policy = fst (reload_at policy_lib (new_runtime (er_policy_path config)) policy_file now),
       es_gauges = \<lparr>eg_in_flight = 0, eg_origin_in_flight = 0\<rparr>,
       es_host_rejections = 0, es_capacity_rejections = 0, es_rate_limit_rejections = 0, es_bot_classifications = 0\<rparr>)"

section \<open>Helpers on requests\<close>

definition header_value :: "http_request \<Rightarrow> string \<Rightarrow> string option" where
  "header_value q name = (case rh_get_all (hq_headers q) name of
     [] \<Rightarrow> None
   | value # _ \<Rightarrow>
       (case rh_to_str (hq_headers q) value of
          None \<Rightarrow> None
        | Some t \<Rightarrow> if trim t = [] then None else Some (trim t)))"

definition select_request_host :: "string option \<Rightarrow> string option \<Rightarrow> string option" where
  "select_request_host header authority = option_or header authority"

definition request_host :: "http_request \<Rightarrow> string option" where
  "request_host q = select_request_host (header_value q ''host'') (hq_authority q)"

definition request_target :: "http_request \<Rightarrow> string" where
  "request_target q = (case hq_path_and_query q of Some t \<Rightarrow> t | None \<Rightarrow> hq_path q)"

definition content_length :: "http_request \<Rightarrow> u64 option" where
  "content_length q = (case header_value q ''content-length'' of
     None \<Rightarrow> None | Some v \<Rightarrow> map_option of_nat (parse_unsigned 64 v))"

definition current_proto :: "http_request \<Rightarrow> bool \<Rightarrow> string" where
  "current_proto q forwarded_headers_trusted =
     (let direct = (if hq_ssl q then ''https'' else ''http'')
      in if forwarded_headers_trusted
         then (case header_value q ''x-forwarded-proto'' of
            None \<Rightarrow> direct
          | Some proto \<Rightarrow> if to_ascii_lowercase proto \<in> set [''http'', ''https''] then to_ascii_lowercase proto else direct)
         else direct)"

definition https_redirect_location ::
  "bool \<Rightarrow> bool \<Rightarrow> string option \<Rightarrow> string \<Rightarrow> string \<Rightarrow> string option" where
  "https_redirect_location tls_enabled request_is_https canonical_host current_host target =
     (let path = before_first (CHR ''?'') target
      in if \<not> tls_enabled \<or> request_is_https \<or> starts_with path ''/.well-known/acme-challenge/'' then None
         else Some (''https://'' @ normalize_host (case canonical_host of Some c \<Rightarrow> c | None \<Rightarrow> current_host) @ target))"

definition stricter_limit :: "u32 option \<Rightarrow> u32 option \<Rightarrow> u32 option" where
  "stricter_limit left right = (case (left, right) of
     (Some l, Some r) \<Rightarrow> Some (min l r) | (Some l, None) \<Rightarrow> Some l | (None, r) \<Rightarrow> r)"

definition sampled_occurrence :: "u64 \<Rightarrow> bool" where
  "sampled_occurrence occurrence \<longleftrightarrow> occurrence = 1 \<or> occurrence mod 100 = 0"

fun masked_network :: "ip_addr \<Rightarrow> string" where
  "masked_network (V4 a) = join_with ''.'' (map show_nat (take 3 (octets a))) @ ''.0/24''"
| "masked_network (V6 a) = join_with '':'' (map show_hex_nat (take 4 (ipv6_segments a))) @ ''::/64''"

definition masked_client_network :: "ip_addr option \<Rightarrow> string option" where
  "masked_client_network client_ip = map_option masked_network client_ip"

section \<open>Answers of the edge\<close>

record answer =
  an_status :: u16
  an_body :: "string option"
  an_location :: "string option"
  an_retry_after :: "u64 option"
  an_headers :: "(string \<times> string) list"
  an_kind :: DecisionKind

definition text_answer :: "u16 \<Rightarrow> string \<Rightarrow> u64 option \<Rightarrow> (string \<times> string) list \<Rightarrow> DecisionKind \<Rightarrow> answer" where
  "text_answer status body retry_after headers kind =
     \<lparr>an_status = status, an_body = Some body, an_location = None, an_retry_after = retry_after,
      an_headers = headers, an_kind = kind\<rparr>"

definition redirect_answer :: "string \<Rightarrow> answer" where
  "redirect_answer location =
     \<lparr>an_status = 308, an_body = None, an_location = Some location, an_retry_after = None,
      an_headers = [], an_kind = KindAllow\<rparr>"

definition add_common_headers :: "'h header_map \<Rightarrow> string \<Rightarrow> 'h \<Rightarrow> string + 'h" where
  "add_common_headers hm request_id response =
     and_then (hm_insert_header hm ''x-vps-guard'' ''guard-edge'' response) (hm_insert_header hm ''x-request-id'' request_id)"

fun insert_headers :: "'h header_map \<Rightarrow> (string \<times> string) list \<Rightarrow> 'h \<Rightarrow> string + 'h" where
  "insert_headers hm [] response = Inr response"
| "insert_headers hm ((name, value) # headers) response =
     and_then (hm_insert_header hm name value response) (insert_headers hm headers)"

definition build_text_header ::
  "('net, 'h) proxy_library \<Rightarrow> u16 \<Rightarrow> nat \<Rightarrow> string \<Rightarrow> u64 option \<Rightarrow> (string \<times> string) list \<Rightarrow> string + 'h" where
  "build_text_header lib status body_length request_id retry_after_seconds headers =
     and_then (pl_build_response lib status) (\<lambda>response.
     and_then (insert_headers (pl_headers lib)
       ([(''content-type'', ''text/plain; charset=utf-8''), (''content-length'', show_nat body_length)]
        @ (case retry_after_seconds of None \<Rightarrow> [] | Some seconds \<Rightarrow> [(''retry-after'', show_nat (unat seconds))])
        @ headers) response) (add_common_headers (pl_headers lib) request_id))"

definition build_redirect_header :: "('net, 'h) proxy_library \<Rightarrow> string \<Rightarrow> string \<Rightarrow> string + 'h" where
  "build_redirect_header lib location request_id =
     and_then (pl_build_response lib 308) (\<lambda>response.
     and_then (insert_headers (pl_headers lib) [(''location'', location), (''content-length'', ''0'')] response)
       (add_common_headers (pl_headers lib) request_id))"

definition session_write :: "string + unit \<Rightarrow> 'h session_write \<Rightarrow> 'h proxy_world \<Rightarrow> (proxy_error + unit) \<times> 'h proxy_world" where
  "session_write outcome what w = (case outcome of
     Inl e \<Rightarrow> (Inl (WriteFailed e), w)
   | Inr _ \<Rightarrow> (Inr (), w \<lparr>pw_writes := pw_writes w @ [what]\<rparr>))"

definition respond ::
  "('net, 'h) proxy_library \<Rightarrow> request_env \<Rightarrow> answer \<Rightarrow> 'h proxy_world \<Rightarrow> (proxy_error + unit) \<times> 'h proxy_world" where
  "respond lib env a w =
     (let request_id = rc_request_id (pw_context w)
      in case an_location a of
           Some location \<Rightarrow>
             (case build_redirect_header lib location request_id of
                Inl e \<Rightarrow> (Inl (HeaderError e), w)
              | Inr response \<Rightarrow> session_write (rq_write_header env) (WroteHeader response True) w)
         | None \<Rightarrow>
             (let body = (case an_body a of Some b \<Rightarrow> b | None \<Rightarrow> [])
              in case build_text_header lib (an_status a) (length body) request_id (an_retry_after a) (an_headers a) of
                   Inl e \<Rightarrow> (Inl (HeaderError e), w)
                 | Inr response \<Rightarrow>
                     then_call (session_write (rq_write_header env) (WroteHeader response False) w)
                       (\<lambda>_ w. session_write (rq_write_body env) (WroteBody body True) w)))"

section \<open>Telemetry of a request\<close>

definition telemetry_of :: "request_env \<Rightarrow> RequestContext \<Rightarrow> edge_state \<Rightarrow> u16 \<Rightarrow> DecisionKind \<Rightarrow> RequestTelemetry" where
  "telemetry_of env c e status kind =
     \<lparr>rt_schema_version = 1, rt_request_id = rc_request_id c, rt_method = rc_method c, rt_route_class = rc_route_class c,
      rt_normalized_route = rc_normalized_route c, rt_route_cost = rc_route_cost c, rt_status = status,
      rt_latency_micros = rq_latency_micros env, rt_client_ip = rc_client_ip c,
      rt_request_body_bytes = rc_request_body_bytes_seen c, rt_response_body_bytes = rc_response_body_bytes_seen c,
      rt_upstream_connection_reused = rc_upstream_connection_reused c, rt_decision = kind,
      rt_policy_version = rc_policy_version c, rt_bot_class = rc_bot_class c, rt_bot_provider = rc_bot_provider c,
      rt_bot_verified = rc_bot_verified c, rt_session_continuity = rc_session_continuity c, rt_bot_reason = rc_bot_reason c,
      rt_user_agent_family = rc_user_agent_family c, rt_in_flight_requests = in_flight_requests c (es_gauges e),
      rt_edge_telemetry_emitted = tm_emitted (es_telemetry e), rt_edge_telemetry_dropped = tm_dropped (es_telemetry e),
      rt_edge_telemetry_reconnected = tm_reconnected (es_telemetry e), rt_occurred_at_unix_ms = rq_unix_millis env\<rparr>"

definition emit_telemetry ::
  "('net, 'h) proxy_library \<Rightarrow> request_env \<Rightarrow> u16 \<Rightarrow> DecisionKind \<Rightarrow> 'h proxy_world \<Rightarrow> 'h proxy_world" where
  "emit_telemetry lib env status kind w =
     (let c = pw_context w; e = pw_edge w
      in if rc_telemetry_emitted c then w
         else let w = w \<lparr>pw_context := c \<lparr>rc_telemetry_emitted := True\<rparr>\<rparr>
              in if rc_upstream_kind c = Management then w
                 else w \<lparr>pw_edge := e \<lparr>es_telemetry :=
                        emit_lazy (pl_to_vec lib) (rq_telemetry_lock_free env) (rq_telemetry_sent env)
                          (telemetry_of env c e status kind) (es_telemetry e)\<rparr>\<rparr>)"

section \<open>The request filter\<close>

abbreviation set_context :: "(RequestContext \<Rightarrow> RequestContext) \<Rightarrow> 'h proxy_world \<Rightarrow> 'h proxy_world" where
  "set_context f w \<equiv> w \<lparr>pw_context := f (pw_context w)\<rparr>"

abbreviation set_edge :: "(edge_state \<Rightarrow> edge_state) \<Rightarrow> 'h proxy_world \<Rightarrow> 'h proxy_world" where
  "set_edge f w \<equiv> w \<lparr>pw_edge := f (pw_edge w)\<rparr>"

text \<open>The assignments at the head of the filter: identity, client, upstream, route and fresh counters.\<close>

definition client_of :: "'net GuardEdge \<Rightarrow> ('net, 'h) proxy_library \<Rightarrow> http_request \<Rightarrow> ip_addr option" where
  "client_of ge lib q = map_option (\<lambda>direct. effective_client_ip (pl_net_contains lib) direct
     (header_value q ''x-forwarded-for'') (er_trusted_proxy_cidrs (ge_config ge))) (hq_client_addr q)"

definition continues_session :: "'net GuardEdge \<Rightarrow> ('net, 'h) proxy_library \<Rightarrow> request_env \<Rightarrow> http_request \<Rightarrow> bool" where
  "continues_session ge lib env q = (case (client_of ge lib q, ge_clearance ge) of
     (Some client_ip, Some signer) \<Rightarrow>
       verify_cookie (pl_clearance lib) signer (header_value q ''cookie'') client_ip (rq_cookie_seconds env)
   | _ \<Rightarrow> False)"

definition begin_request ::
  "'net GuardEdge \<Rightarrow> ('net, 'h) proxy_library \<Rightarrow> request_env \<Rightarrow> http_request \<Rightarrow> 'h proxy_world \<Rightarrow> 'h proxy_world" where
  "begin_request ge lib env q w =
     (let config = ge_config ge;
          (ids, request_id) = next_id (es_request_ids (pw_edge w));
          kind = upstream_kind config (request_host q);
          profile = effective_route_profile config kind (hq_path q) (request_target q);
          timeout = er_downstream_io_timeout config
      in w \<lparr>pw_edge := (pw_edge w) \<lparr>es_request_ids := ids\<rparr>,
           pw_context := (pw_context w)
             \<lparr>rc_request_id := request_id, rc_method := hq_method q, rc_host := request_host q,
              rc_direct_peer := hq_client_addr q,
              rc_forwarded_headers_trusted := (case hq_client_addr q of
                 None \<Rightarrow> False | Some peer \<Rightarrow> trusts_peer (pl_net_contains lib) config peer),
              rc_client_ip := client_of ge lib q,
              rc_session_continuity := continues_session ge lib env q,
              rc_upstream_kind := kind,
              rc_route_class := erp_route_class profile,
              rc_authentication_route := erp_authentication_route profile,
              rc_normalized_route := erp_normalized_route profile,
              rc_route_cost := erp_base_cost profile,
              rc_request_body_bytes_seen := 0, rc_response_body_bytes_seen := 0, rc_response_status := 0,
              rc_upstream_connection_reused := None, rc_telemetry_emitted := False\<rparr>,
           pw_timeouts := Some \<lparr>sto_read = timeout, sto_write = timeout, sto_drain = timeout,
             sto_min_send_rate = er_downstream_min_send_rate_bps config\<rparr>\<rparr>)"

type_synonym 'h request_filter = "'h proxy_world \<Rightarrow> answer option \<times> 'h proxy_world"

definition framing_filter :: "http_request \<Rightarrow> 'h request_filter" where
  "framing_filter q w = (case validate_request_framing (hq_raw_header q) (hq_headers q) of
     Inl _ \<Rightarrow> (Some (text_answer 400 (''invalid request framing'' @ [CHR 0x0A]) None [] KindDeny), w)
   | Inr _ \<Rightarrow> (None, w))"

definition host_filter :: "'net GuardEdge \<Rightarrow> http_request \<Rightarrow> 'h request_filter" where
  "host_filter ge q w =
     (if host_allowed (request_host q) (er_allowed_hosts (ge_config ge)) then (None, w)
      else (Some (text_answer 400 (''invalid host'' @ [CHR 0x0A]) None [] KindDeny),
            set_edge (\<lambda>e. e \<lparr>es_host_rejections := es_host_rejections e + 1\<rparr>) w))"

definition method_filter :: "'h request_filter" where
  "method_filter w =
     (if rejects_method (rc_method (pw_context w))
      then (Some (text_answer 405 (''method not allowed'' @ [CHR 0x0A]) None
              [(''allow'', ''GET, HEAD, POST, PUT, PATCH, DELETE, OPTIONS'')] KindDeny), w)
      else (None, w))"

definition bot_disposition :: "'net GuardEdge \<Rightarrow> ('net, 'h) proxy_library \<Rightarrow> http_request \<Rightarrow> declared_bot_disposition" where
  "bot_disposition ge lib q = declared_bot_disposition_of (pl_net_contains lib) (header_value q ''user-agent'')
     (client_of ge lib q) (bp_allowed_crawlers (er_bot_policy (ge_config ge)))
     (bp_crawler_networks (er_bot_policy (ge_config ge)))"

definition bot_filter :: "'net GuardEdge \<Rightarrow> ('net, 'h) proxy_library \<Rightarrow> http_request \<Rightarrow> 'h request_filter" where
  "bot_filter ge lib q w =
     (let d = bot_disposition ge lib q;
          w = set_context (\<lambda>c. c \<lparr>rc_bot_class := disposition_class d, rc_bot_provider := disposition_provider d,
                rc_bot_verified := disposition_verified d, rc_bot_reason := disposition_reason d,
                rc_user_agent_family := user_agent_family_of (header_value q ''user-agent'') d\<rparr>) w;
          w = (if d \<noteq> Undeclared
               then set_edge (\<lambda>e. e \<lparr>es_bot_classifications := es_bot_classifications e + 1\<rparr>) w else w)
      in if enforces_common_protection (ge_config ge)
            \<and> bp_block_unapproved_declared_bots (er_bot_policy (ge_config ge)) \<and> blocked d
         then (Some (text_answer 403 (''automated client denied'' @ [CHR 0x0A]) None [] KindDeny), w)
         else (None, w))"

definition LIVE_PATH :: string where
  "LIVE_PATH = ''/health/live''"

definition READY_PATH :: string where
  "READY_PATH = ''/health/ready''"

definition live_filter :: "http_request \<Rightarrow> 'h request_filter" where
  "live_filter q w =
     (if hq_path q = LIVE_PATH
      then let t = es_telemetry (pw_edge w)
           in (Some (text_answer 200 (''live'' @ [CHR 0x0A]) None
                [(''x-vpsguard-telemetry-emitted'', show_nat (unat (tm_emitted t))),
                 (''x-vpsguard-telemetry-dropped'', show_nat (unat (tm_dropped t))),
                 (''x-vpsguard-telemetry-reconnected'', show_nat (unat (tm_reconnected t))),
                 (''x-vpsguard-in-flight-requests'', show_nat (unat (eg_in_flight (es_gauges (pw_edge w)))))] KindAllow), w)
      else (None, w))"

definition ready_filter :: "http_request \<Rightarrow> 'h request_filter" where
  "ready_filter q w =
     (if hq_path q = READY_PATH
      then (Some (if es_origin_ready (pw_edge w)
                  then text_answer 200 (''ready'' @ [CHR 0x0A]) None [] KindAllow
                  else text_answer 503 (''origin unavailable'' @ [CHR 0x0A]) None [] KindAllow), w)
      else (None, w))"

abbreviation proto_of :: "http_request \<Rightarrow> 'h proxy_world \<Rightarrow> string" where
  "proto_of q w \<equiv> current_proto q (rc_forwarded_headers_trusted (pw_context w))"

definition https_filter :: "'net GuardEdge \<Rightarrow> http_request \<Rightarrow> 'h request_filter" where
  "https_filter ge q w = (case request_host q of
     None \<Rightarrow> (None, w)
   | Some current_host \<Rightarrow>
       (map_option redirect_answer (https_redirect_location (er_tls (ge_config ge) \<noteq> None) (proto_of q w = ''https'')
          (if rc_upstream_kind (pw_context w) = Application then er_canonical_host (ge_config ge) else None)
          current_host (request_target q)), w))"

definition canonical_filter :: "'net GuardEdge \<Rightarrow> http_request \<Rightarrow> 'h request_filter" where
  "canonical_filter ge q w = (case (er_canonical_host (ge_config ge), request_host q) of
     (Some canonical, Some current) \<Rightarrow>
       if rc_upstream_kind (pw_context w) = Application \<and> normalize_host current \<noteq> normalize_host canonical
       then (Some (redirect_answer (proto_of q w @ ''://'' @ canonical @ request_target q)), w)
       else (None, w)
   | _ \<Rightarrow> (None, w))"

abbreviation protects :: "'net GuardEdge \<Rightarrow> UpstreamKind \<Rightarrow> bool" where
  "protects ge kind \<equiv> enforces_common_protection (ge_config ge) \<and> kind = Application"

definition action_filter ::
  "'net GuardEdge \<Rightarrow> ('net, 'h) proxy_library \<Rightarrow> request_env \<Rightarrow> http_request \<Rightarrow> runtime_decision \<Rightarrow> 'h request_filter" where
  "action_filter ge lib env q d w =
     (let c = pw_context w
      in if protects ge (rc_upstream_kind c)
         then (case rc_client_ip c of
            None \<Rightarrow> (None, w)
          | Some client_ip \<Rightarrow>
              (case rd_action d of
                 Some Deny \<Rightarrow> (Some (text_answer 403 (''request denied'' @ [CHR 0x0A]) None [] KindDeny), w)
               | Some Challenge \<Rightarrow>
                   if rc_session_continuity c then (None, w)
                   else (Some (text_answer 401 (''browser verification required; retry request'' @ [CHR 0x0A]) None
                          (case ge_clearance ge of
                             None \<Rightarrow> []
                           | Some signer \<Rightarrow> [(''set-cookie'', issue_cookie (pl_clearance lib) signer client_ip
                               (rq_challenge_seconds env) (proto_of q w = ''https''))]) KindChallenge), w)
               | Some Throttle \<Rightarrow> (Some (text_answer 429 (''temporarily throttled'' @ [CHR 0x0A]) (Some 60) [] KindThrottle), w)
               | _ \<Rightarrow> (None, w)))
         else (None, w))"

definition limit_of :: "'net GuardEdge \<Rightarrow> http_request \<Rightarrow> runtime_decision \<Rightarrow> RequestContext \<Rightarrow> u32 option" where
  "limit_of ge q d c =
     (if rc_upstream_kind c = Management
      then management_login_rate_limit (ge_config ge) (rc_method c) (hq_path q)
      else stricter_limit
        (option_or (if protects ge (rc_upstream_kind c) then rd_requests_per_minute d else None)
           (rate_limit (ge_config ge) (rc_route_class c)))
        (if rc_authentication_route c then authentication_rate_limit (ge_config ge) else None))"

definition limiter_class :: "RequestContext \<Rightarrow> route_class" where
  "limiter_class c = (if rc_authentication_route c then Authentication else rc_route_class c)"

definition limit_filter ::
  "'net GuardEdge \<Rightarrow> request_env \<Rightarrow> http_request \<Rightarrow> runtime_decision \<Rightarrow> 'h request_filter" where
  "limit_filter ge env q d w =
     (let c = pw_context w
      in case (rc_client_ip c, limit_of ge q d c) of
           (Some client_ip, Some limit) \<Rightarrow>
             (let (limiter, decision) = check (es_rate_limiter (pw_edge w)) client_ip (limiter_class c)
                    (runtime_rate_limit_policy (ge_config ge) limit) (rq_limiter_now env);
                  w = set_edge (\<lambda>e. e \<lparr>es_rate_limiter := limiter\<rparr>) w
              in case decision of
                   LimitDeny _ \<Rightarrow>
                     (Some (text_answer 429 (''too many requests'' @ [CHR 0x0A]) (Some 60) [] KindThrottle),
                      set_edge (\<lambda>e. e \<lparr>es_rate_limit_rejections := es_rate_limit_rejections e + 1\<rparr>) w)
                 | _ \<Rightarrow> (None, w))
         | _ \<Rightarrow> (None, w))"

definition body_filter :: "'net GuardEdge \<Rightarrow> http_request \<Rightarrow> 'h request_filter" where
  "body_filter ge q w = (case content_length q of
     Some body_size \<Rightarrow>
       if body_size > body_limit (ge_config ge) (rc_route_class (pw_context w))
       then (Some (text_answer 413 (''payload too large'' @ [CHR 0x0A]) None [] KindDeny), w)
       else (None, w)
   | None \<Rightarrow> (None, w))"

definition capacity_filter :: "'net GuardEdge \<Rightarrow> 'h request_filter" where
  "capacity_filter ge w =
     (if rc_upstream_kind (pw_context w) \<noteq> Application then (None, w)
      else let (acquired, c, g) = try_acquire_origin_capacity (er_max_in_flight_requests (ge_config ge))
                 (pw_context w) (es_gauges (pw_edge w));
               w = w \<lparr>pw_context := c, pw_edge := (pw_edge w) \<lparr>es_gauges := g\<rparr>\<rparr>
           in if acquired then (None, w)
              else (Some (text_answer 503 (''server busy; retry request'' @ [CHR 0x0A]) (Some 1) [] KindThrottle),
                    set_edge (\<lambda>e. e \<lparr>es_capacity_rejections := es_capacity_rejections e + 1\<rparr>) w))"

text \<open>The first filter with an answer ends the chain.\<close>

fun run_filters :: "'h request_filter list \<Rightarrow> 'h request_filter" where
  "run_filters [] w = (None, w)"
| "run_filters (f # fs) w = (case f w of (Some a, w) \<Rightarrow> (Some a, w) | (None, w) \<Rightarrow> run_filters fs w)"

definition entry_filters ::
  "'net GuardEdge \<Rightarrow> ('net, 'h) proxy_library \<Rightarrow> http_request \<Rightarrow> 'h request_filter list" where
  "entry_filters ge lib q =
     [framing_filter q, host_filter ge q, method_filter, bot_filter ge lib q, live_filter q, ready_filter q,
      https_filter ge q, canonical_filter ge q]"

definition protection_filters ::
  "'net GuardEdge \<Rightarrow> ('net, 'h) proxy_library \<Rightarrow> request_env \<Rightarrow> http_request \<Rightarrow> runtime_decision \<Rightarrow> 'h request_filter list" where
  "protection_filters ge lib env q d =
     [action_filter ge lib env q d, limit_filter ge env q d, body_filter ge q, capacity_filter ge]"

definition decide ::
  "('net, 'h) proxy_library \<Rightarrow> request_env \<Rightarrow> 'h proxy_world \<Rightarrow> runtime_decision" where
  "decide lib env w = decision_at (pl_policy lib) (es_policy (pw_edge w)) (rc_client_ip (pw_context w))
     (route_class_as_str (rc_route_class (pw_context w))) (rq_policy_now env)"

definition filters ::
  "'net GuardEdge \<Rightarrow> ('net, 'h) proxy_library \<Rightarrow> request_env \<Rightarrow> http_request \<Rightarrow> 'h request_filter" where
  "filters ge lib env q w = (case run_filters (entry_filters ge lib q) w of
     (Some a, w) \<Rightarrow> (Some a, w)
   | (None, w) \<Rightarrow>
       (let d = decide lib env w
        in run_filters (protection_filters ge lib env q d)
             (set_context (\<lambda>c. c \<lparr>rc_policy_version := rd_policy_version d\<rparr>) w)))"

definition answer_request ::
  "('net, 'h) proxy_library \<Rightarrow> request_env \<Rightarrow> answer \<Rightarrow> 'h proxy_world \<Rightarrow> (proxy_error + bool) \<times> 'h proxy_world" where
  "answer_request lib env a w =
     then_call (respond lib env a w) (\<lambda>_ w. (Inr True, emit_telemetry lib env (an_status a) (an_kind a) w))"

definition filter_request ::
  "'net GuardEdge \<Rightarrow> ('net, 'h) proxy_library \<Rightarrow> request_env \<Rightarrow> http_request \<Rightarrow> 'h proxy_world
   \<Rightarrow> (proxy_error + bool) \<times> 'h proxy_world" where
  "filter_request ge lib env q w = (case filters ge lib env q (begin_request ge lib env q w) of
     (Some a, w) \<Rightarrow> answer_request lib env a w
   | (None, w) \<Rightarrow> (Inr False, w))"

section \<open>The other callbacks\<close>

definition new_ctx :: "edge_state \<Rightarrow> RequestContext \<times> edge_state" where
  "new_ctx e = (let (c, g) = tracked_context (es_gauges e) in (c, e \<lparr>es_gauges := g\<rparr>))"

definition filter_body :: "'net GuardEdge \<Rightarrow> string option \<Rightarrow> RequestContext \<Rightarrow> (proxy_error + unit) \<times> RequestContext" where
  "filter_body ge body c =
     (let chunk_len = (case body of None \<Rightarrow> 0 | Some chunk \<Rightarrow> of_nat (length chunk));
          seen = saturating_add (rc_request_body_bytes_seen c) chunk_len;
          c = c \<lparr>rc_request_body_bytes_seen := seen\<rparr>
      in if seen > body_limit (ge_config ge) (rc_route_class c) then (Inl (HttpStatus 413), c) else (Inr (), c))"

definition filter_upstream_request ::
  "'h header_map \<Rightarrow> http_request \<Rightarrow> RequestContext \<Rightarrow> 'h \<Rightarrow> string + 'h" where
  "filter_upstream_request hm q c upstream_request =
     insert_headers hm
       ((case rc_client_ip c of
           None \<Rightarrow> []
         | Some client_ip \<Rightarrow> [(''x-forwarded-for'', show_ip client_ip), (''x-real-ip'', show_ip client_ip)])
        @ [(''x-forwarded-proto'', current_proto q (rc_forwarded_headers_trusted c))]
        @ (case rc_host c of None \<Rightarrow> [] | Some host \<Rightarrow> [(''x-forwarded-host'', host)])
        @ [(''x-request-id'', rc_request_id c)]) upstream_request"

record http_peer =
  hp_host :: string
  hp_port :: u16
  hp_tls :: bool
  hp_sni :: string
  hp_connection_timeout :: u64
  hp_read_timeout :: u64

definition upstream_peer :: "'net GuardEdge \<Rightarrow> RequestContext \<Rightarrow> http_peer" where
  "upstream_peer ge c =
     (let config = ge_config ge;
          peer = (\<lambda>host port tls sni. \<lparr>hp_host = host, hp_port = port, hp_tls = tls, hp_sni = sni,
            hp_connection_timeout = er_upstream_connect_timeout config,
            hp_read_timeout = (if rc_route_class c = Upload then er_upload_upstream_read_timeout config
                               else er_upstream_read_timeout config)\<rparr>)
      in case (rc_upstream_kind c, er_management config) of
           (Management, Some m) \<Rightarrow> peer (rmc_origin_host m) (rmc_origin_port m) False []
         | _ \<Rightarrow> peer (er_origin_host config) (er_origin_port config) (er_origin_tls config) (er_origin_sni config))"

definition response_filter ::
  "'net GuardEdge \<Rightarrow> 'h header_map \<Rightarrow> http_request \<Rightarrow> u16 \<Rightarrow> 'h \<Rightarrow> 'h proxy_world \<Rightarrow> (string + 'h) \<times> 'h proxy_world" where
  "response_filter ge hm q status response w =
     (let application = (rc_upstream_kind (pw_context w) = Application);
          w = (if application then set_edge (\<lambda>e. e \<lparr>es_origin_ready := True\<rparr>) w else w);
          w = set_context (\<lambda>c. c \<lparr>rc_response_status := status\<rparr>) w
      in (and_then (if application
            then apply_response_security hm (er_response_security (ge_config ge)) (proto_of q w = ''https'') response
            else Inr response) (add_common_headers hm (rc_request_id (pw_context w))), w))"

definition response_body_filter ::
  "('net, 'h) proxy_library \<Rightarrow> request_env \<Rightarrow> string option \<Rightarrow> bool \<Rightarrow> 'h proxy_world \<Rightarrow> 'h proxy_world" where
  "response_body_filter lib env body end_of_stream w =
     (let chunk_len = (case body of None \<Rightarrow> 0 | Some chunk \<Rightarrow> if length chunk < 2 ^ 64 then of_nat (length chunk) else - 1);
          w = set_context (\<lambda>c. c \<lparr>rc_response_body_bytes_seen := saturating_add (rc_response_body_bytes_seen c) chunk_len\<rparr>) w
      in if end_of_stream then emit_telemetry lib env (rc_response_status (pw_context w)) KindAllow w else w)"

definition connected_to_upstream :: "bool \<Rightarrow> 'h proxy_world \<Rightarrow> 'h proxy_world" where
  "connected_to_upstream reused w = set_context (\<lambda>c. c \<lparr>rc_upstream_connection_reused := Some reused\<rparr>) w"

datatype error_type = TypeHttpStatus u16 | TypeReadError | TypeWriteError | TypeConnectionClosed | TypeOther

datatype error_source = FromUpstream | FromDownstream | FromInternal | FromUnset

fun proxy_error_code :: "error_type \<Rightarrow> error_source \<Rightarrow> u16" where
  "proxy_error_code (TypeHttpStatus code) _ = code"
| "proxy_error_code _ FromUpstream = 502"
| "proxy_error_code TypeOther FromDownstream = 400"
| "proxy_error_code _ FromDownstream = 0"
| "proxy_error_code _ _ = 500"

definition failure_kind :: "u16 \<Rightarrow> DecisionKind" where
  "failure_kind code = (if code = 429 then KindThrottle else if 400 \<le> code \<and> code < 500 then KindDeny else KindAllow)"

definition fail_to_proxy ::
  "('net, 'h) proxy_library \<Rightarrow> request_env \<Rightarrow> error_type \<Rightarrow> error_source \<Rightarrow> 'h proxy_world \<Rightarrow> u16 \<times> 'h proxy_world" where
  "fail_to_proxy lib env etype esource w =
     (let w = (if rc_upstream_kind (pw_context w) = Application then set_edge (\<lambda>e. e \<lparr>es_origin_ready := False\<rparr>) w else w);
          code = proxy_error_code etype esource
      in (code, if code > 0 then emit_telemetry lib env code (failure_kind code) w else w))"

definition show_bool :: "bool \<Rightarrow> string" where
  "show_bool b = (if b then ''true'' else ''false'')"

definition request_summary :: "'net GuardEdge \<Rightarrow> RequestContext \<Rightarrow> string" where
  "request_summary ge c =
     (let config = ge_config ge;
          (host, port, tls) = (case (rc_upstream_kind c, er_management config) of
             (Management, Some m) \<Rightarrow> (rmc_origin_host m, rmc_origin_port m, False)
           | _ \<Rightarrow> (er_origin_host config, er_origin_port config, er_origin_tls config))
      in ''id='' @ rc_request_id c @ '' '' @ rc_method c @ '' '' @ rc_normalized_route c @ '' -> '' @ host
         @ '':'' @ show_nat (unat port) @ '' tls='' @ show_bool tls)"

section \<open>What the filters leave alone\<close>

text \<open>What later filters rely on: identity and route of the request, policy, limiter, permits and writes.\<close>

definition request_facts :: "'h proxy_world \<Rightarrow>
    (UpstreamKind \<times> ip_addr option \<times> route_class \<times> bool \<times> string \<times> bool \<times> bool \<times> bool \<times> bool)
    \<times> policy_runtime \<times> rate_limiter \<times> edge_gauges \<times> TelemetryInner \<times> 'h session_write list" where
  "request_facts w = (let c = pw_context w; e = pw_edge w in
     ((rc_upstream_kind c, rc_client_ip c, rc_route_class c, rc_authentication_route c, rc_method c,
       rc_forwarded_headers_trusted c, rc_session_continuity c, rc_telemetry_emitted c, rc_origin_permit c),
      es_policy e, es_rate_limiter e, es_gauges e, es_telemetry e, pw_writes w))"

definition keeps_facts :: "'h request_filter \<Rightarrow> bool" where
  "keeps_facts f \<longleftrightarrow> (\<forall>w. request_facts (snd (f w)) = request_facts w)"

lemma entry_filter_keeps:
  "keeps_facts (framing_filter q)" "keeps_facts (host_filter ge q)" "keeps_facts method_filter"
  "keeps_facts (bot_filter ge lib q)" "keeps_facts (live_filter q)" "keeps_facts (ready_filter q)"
  "keeps_facts (https_filter ge q)" "keeps_facts (canonical_filter ge q)"
  by (simp_all add: keeps_facts_def request_facts_def framing_filter_def host_filter_def method_filter_def
      bot_filter_def live_filter_def ready_filter_def https_filter_def canonical_filter_def Let_def
      split: sum.split option.split)

lemma entry_filters_keep: "f \<in> set (entry_filters ge lib q) \<Longrightarrow> keeps_facts f"
  using entry_filter_keeps by (auto simp: entry_filters_def)

lemma run_filters_keep:
  "(\<And>f. f \<in> set fs \<Longrightarrow> keeps_facts f) \<Longrightarrow> request_facts (snd (run_filters fs w)) = request_facts w"
proof (induction fs arbitrary: w)
  case (Cons f fs)
  have "request_facts (snd (f w)) = request_facts w" using Cons.prems by (simp add: keeps_facts_def)
  then show ?case using Cons.IH [of "snd (f w)"] Cons.prems by (cases "f w"; cases "fst (f w)") auto
qed simp

text \<open>If the chain has no answer, no filter had one, each on a world with the same facts.\<close>

lemma run_filters_None:
  "run_filters fs w = (None, w') \<Longrightarrow> (\<And>f. f \<in> set fs \<Longrightarrow> keeps_facts f) \<Longrightarrow> f \<in> set fs
   \<Longrightarrow> \<exists>v. request_facts v = request_facts w \<and> fst (f v) = None"
proof (induction fs arbitrary: w)
  case (Cons g fs)
  have none: "fst (g w) = None" using Cons.prems(1) by (auto split: prod.splits option.splits)
  show ?case
  proof (cases "f = g")
    case True
    with none show ?thesis by auto
  next
    case False
    have "request_facts (snd (g w)) = request_facts w" using Cons.prems(2) by (simp add: keeps_facts_def)
    moreover have "run_filters fs (snd (g w)) = (None, w')" using Cons.prems(1) none by (cases "g w") auto
    moreover have "f \<in> set fs" using Cons.prems(3) False by simp
    ultimately show ?thesis using Cons.IH [of "snd (g w)"] Cons.prems(2) by (metis list.set_intros(2))
  qed
qed simp

abbreviation kind_of :: "'net GuardEdge \<Rightarrow> http_request \<Rightarrow> UpstreamKind" where
  "kind_of ge q \<equiv> upstream_kind (ge_config ge) (request_host q)"

abbreviation profile_of :: "'net GuardEdge \<Rightarrow> http_request \<Rightarrow> EffectiveRouteProfile" where
  "profile_of ge q \<equiv> effective_route_profile (ge_config ge) (kind_of ge q) (hq_path q) (request_target q)"

abbreviation class_of :: "'net GuardEdge \<Rightarrow> http_request \<Rightarrow> route_class" where
  "class_of ge q \<equiv> erp_route_class (profile_of ge q)"

definition trusted_of :: "'net GuardEdge \<Rightarrow> ('net, 'h) proxy_library \<Rightarrow> http_request \<Rightarrow> bool" where
  "trusted_of ge lib q = (case hq_client_addr q of
     None \<Rightarrow> False | Some peer \<Rightarrow> trusts_peer (pl_net_contains lib) (ge_config ge) peer)"

abbreviation decision_of ::
  "'net GuardEdge \<Rightarrow> ('net, 'h) proxy_library \<Rightarrow> request_env \<Rightarrow> http_request \<Rightarrow> edge_state \<Rightarrow> runtime_decision" where
  "decision_of ge lib env q e \<equiv> decision_at (pl_policy lib) (es_policy e) (client_of ge lib q)
     (route_class_as_str (class_of ge q)) (rq_policy_now env)"

lemma begin_request_fields:
  shows "rc_upstream_kind (pw_context (begin_request ge lib env q w)) = kind_of ge q" and "rc_client_ip (pw_context (begin_request ge lib env q w)) = client_of ge lib q"
    and "rc_route_class (pw_context (begin_request ge lib env q w)) = class_of ge q"
    and "rc_authentication_route (pw_context (begin_request ge lib env q w)) = erp_authentication_route (profile_of ge q)"
    and "rc_method (pw_context (begin_request ge lib env q w)) = hq_method q"
    and "rc_forwarded_headers_trusted (pw_context (begin_request ge lib env q w)) = trusted_of ge lib q"
    and "rc_session_continuity (pw_context (begin_request ge lib env q w)) = continues_session ge lib env q"
    and "\<not> rc_telemetry_emitted (pw_context (begin_request ge lib env q w))" and "rc_origin_permit (pw_context (begin_request ge lib env q w)) = rc_origin_permit (pw_context w)"
    and "es_policy (pw_edge (begin_request ge lib env q w)) = es_policy (pw_edge w)" and "es_rate_limiter (pw_edge (begin_request ge lib env q w)) = es_rate_limiter (pw_edge w)"
    and "es_gauges (pw_edge (begin_request ge lib env q w)) = es_gauges (pw_edge w)" and "es_telemetry (pw_edge (begin_request ge lib env q w)) = es_telemetry (pw_edge w)"
    and "pw_writes (begin_request ge lib env q w) = pw_writes w"
  by (simp_all add: begin_request_def Let_def split_beta trusted_of_def)

lemma facts_eqD:
  assumes "request_facts v = request_facts w"
  shows "rc_upstream_kind (pw_context v) = rc_upstream_kind (pw_context w)" and "rc_client_ip (pw_context v) = rc_client_ip (pw_context w)"
    and "rc_route_class (pw_context v) = rc_route_class (pw_context w)"
    and "rc_authentication_route (pw_context v) = rc_authentication_route (pw_context w)"
    and "rc_method (pw_context v) = rc_method (pw_context w)"
    and "rc_forwarded_headers_trusted (pw_context v) = rc_forwarded_headers_trusted (pw_context w)"
    and "rc_session_continuity (pw_context v) = rc_session_continuity (pw_context w)"
    and "rc_telemetry_emitted (pw_context v) = rc_telemetry_emitted (pw_context w)"
    and "rc_origin_permit (pw_context v) = rc_origin_permit (pw_context w)"
    and "es_policy (pw_edge v) = es_policy (pw_edge w)" and "es_rate_limiter (pw_edge v) = es_rate_limiter (pw_edge w)"
    and "es_gauges (pw_edge v) = es_gauges (pw_edge w)" and "es_telemetry (pw_edge v) = es_telemetry (pw_edge w)"
    and "pw_writes v = pw_writes w"
  using assms by (simp_all add: request_facts_def Let_def)

section \<open>A forwarded request has passed every check\<close>

lemma run_filters_Cons_None:
  "run_filters (f # fs) w = (None, w') \<longleftrightarrow> (\<exists>v. f w = (None, v) \<and> run_filters fs v = (None, w'))"
  by (auto split: prod.splits option.splits)

lemma entry_cleared:
  assumes run: "run_filters (entry_filters ge lib q) w = (None, w')"
  shows "validate_request_framing (hq_raw_header q) (hq_headers q) = Inr ()"
    and "host_allowed (request_host q) (er_allowed_hosts (ge_config ge))"
    and "\<not> rejects_method (rc_method (pw_context w))"
    and "\<not> (enforces_common_protection (ge_config ge) \<and> bp_block_unapproved_declared_bots (er_bot_policy (ge_config ge))
           \<and> blocked (bot_disposition ge lib q))"
    and "hq_path q \<noteq> LIVE_PATH" and "hq_path q \<noteq> READY_PATH"
    and "er_tls (ge_config ge) \<noteq> None \<Longrightarrow> proto_of q w = ''https''
           \<or> starts_with (before_first (CHR ''?'') (request_target q)) ''/.well-known/acme-challenge/''"
    and "rc_upstream_kind (pw_context w) = Application \<Longrightarrow> er_canonical_host (ge_config ge) = Some canonical
           \<Longrightarrow> \<exists>host. request_host q = Some host \<and> normalize_host host = normalize_host canonical"
    and "request_facts w' = request_facts w"
proof -
  have none: "\<exists>v. request_facts v = request_facts w \<and> fst (f v) = None" if "f \<in> set (entry_filters ge lib q)" for f
    using run_filters_None [OF run entry_filters_keep that] .
  note members = entry_filters_def list.set insert_iff
  from none [of "framing_filter q"] show "validate_request_framing (hq_raw_header q) (hq_headers q) = Inr ()"
    by (cases "validate_request_framing (hq_raw_header q) (hq_headers q)") (simp_all add: members framing_filter_def)
  from none [of "host_filter ge q"] show host: "host_allowed (request_host q) (er_allowed_hosts (ge_config ge))"
    by (auto simp: members host_filter_def split: if_splits)
  then obtain h where h: "request_host q = Some h" by (cases "request_host q") (auto simp: host_allowed_def)
  from none [of method_filter] obtain v where v: "request_facts v = request_facts w" "fst (method_filter v) = None"
    by (auto simp: members)
  then show "\<not> rejects_method (rc_method (pw_context w))"
    using facts_eqD(5) [OF v(1)] by (auto simp: method_filter_def split: if_splits)
  from none [of "bot_filter ge lib q"]
  show "\<not> (enforces_common_protection (ge_config ge) \<and> bp_block_unapproved_declared_bots (er_bot_policy (ge_config ge))
           \<and> blocked (bot_disposition ge lib q))"
    by (auto simp: members bot_filter_def Let_def split: if_splits)
  from none [of "live_filter q"] show "hq_path q \<noteq> LIVE_PATH"
    by (auto simp: members live_filter_def Let_def split: if_splits)
  from none [of "ready_filter q"] show "hq_path q \<noteq> READY_PATH"
    by (auto simp: members ready_filter_def split: if_splits)
  from none [of "https_filter ge q"] obtain v where v: "request_facts v = request_facts w" "fst (https_filter ge q v) = None"
    by (auto simp: members)
  then show "proto_of q w = ''https'' \<or> starts_with (before_first (CHR ''?'') (request_target q)) ''/.well-known/acme-challenge/''"
    if "er_tls (ge_config ge) \<noteq> None"
    using that by (auto simp: https_filter_def h https_redirect_location_def facts_eqD(6) [OF v(1)] Let_def split: if_splits)
  from none [of "canonical_filter ge q"] obtain u where u: "request_facts u = request_facts w" "fst (canonical_filter ge q u) = None"
    by (auto simp: members)
  then show "\<exists>host. request_host q = Some host \<and> normalize_host host = normalize_host canonical"
    if "rc_upstream_kind (pw_context w) = Application" "er_canonical_host (ge_config ge) = Some canonical"
    using that by (auto simp: canonical_filter_def h facts_eqD(1) [OF u(1)] split: if_splits)
  show "request_facts w' = request_facts w"
    using run_filters_keep [of "entry_filters ge lib q" w, OF entry_filters_keep] by (simp add: run)
qed

lemma action_None:
  assumes "action_filter ge lib env q d w = (None, v)"
  shows "v = w" and "protects ge (rc_upstream_kind (pw_context w)) \<Longrightarrow> rc_client_ip (pw_context w) = Some ip
    \<Longrightarrow> rd_action d \<noteq> Some Deny \<and> rd_action d \<noteq> Some Throttle
        \<and> (rd_action d = Some Challenge \<longrightarrow> rc_session_continuity (pw_context w))"
  using assms by (auto simp: action_filter_def Let_def split: if_splits option.splits decision.splits)

lemma limit_None:
  assumes "limit_filter ge env q d w = (None, v)"
  shows "pw_context v = pw_context w" and "pw_writes v = pw_writes w"
    and "es_gauges (pw_edge v) = es_gauges (pw_edge w)" and "es_telemetry (pw_edge v) = es_telemetry (pw_edge w)"
    and "rc_client_ip (pw_context w) = Some ip \<Longrightarrow> limit_of ge q d (pw_context w) = Some limit
      \<Longrightarrow> admits_request (snd (check (es_rate_limiter (pw_edge w)) ip (limiter_class (pw_context w))
            (runtime_rate_limit_policy (ge_config ge) limit) (rq_limiter_now env)))"
  using assms
  by (auto simp: limit_filter_def Let_def admits_request_def split: option.splits prod.splits limit_decision.splits)

lemma body_None:
  assumes "body_filter ge q w = (None, v)"
  shows "v = w" and "content_length q = Some n \<Longrightarrow> n \<le> body_limit (ge_config ge) (rc_route_class (pw_context w))"
  using assms by (auto simp: body_filter_def split: option.splits if_splits)

lemma capacity_None:
  assumes "capacity_filter ge w = (None, v)"
  shows "rc_upstream_kind (pw_context w) = Application \<Longrightarrow> rc_origin_permit (pw_context v)"
    and "pw_context v = (pw_context w) \<lparr>rc_origin_permit := rc_origin_permit (pw_context v)\<rparr>"
    and "pw_writes v = pw_writes w" and "es_telemetry (pw_edge v) = es_telemetry (pw_edge w)"
  using assms by (auto simp: capacity_filter_def try_acquire_origin_capacity_def Let_def split: if_splits)

lemma limit_ignores_version [simp]:
  "limit_of ge q d (c \<lparr>rc_policy_version := n\<rparr>) = limit_of ge q d c" "limiter_class (c \<lparr>rc_policy_version := n\<rparr>) = limiter_class c"
  by (simp_all add: limit_of_def limiter_class_def)

lemma filters_None:
  assumes "filters ge lib env q w = (None, w')"
  obtains v where "run_filters (entry_filters ge lib q) w = (None, v)"
    "run_filters (protection_filters ge lib env q (decide lib env v))
       (set_context (\<lambda>c. c \<lparr>rc_policy_version := rd_policy_version (decide lib env v)\<rparr>) v) = (None, w')"
  using assms by (auto simp: filters_def Let_def split: prod.splits option.splits)

lemma filter_request_False:
  assumes "filter_request ge lib env q w = (Inr False, w')"
  shows "filters ge lib env q (begin_request ge lib env q w) = (None, w')"
  using assms by (auto simp: filter_request_def answer_request_def then_call_def split: prod.splits option.splits sum.splits)

lemma protection_cleared:
  assumes run: "run_filters (protection_filters ge lib env q d) w = (None, w')"
  shows "protects ge (rc_upstream_kind (pw_context w)) \<Longrightarrow> rc_client_ip (pw_context w) = Some ip
      \<Longrightarrow> rd_action d \<noteq> Some Deny \<and> rd_action d \<noteq> Some Throttle
        \<and> (rd_action d = Some Challenge \<longrightarrow> rc_session_continuity (pw_context w))"
    and "rc_client_ip (pw_context w) = Some ip \<Longrightarrow> limit_of ge q d (pw_context w) = Some limit
      \<Longrightarrow> admits_request (snd (check (es_rate_limiter (pw_edge w)) ip (limiter_class (pw_context w))
            (runtime_rate_limit_policy (ge_config ge) limit) (rq_limiter_now env)))"
    and "content_length q = Some n \<Longrightarrow> n \<le> body_limit (ge_config ge) (rc_route_class (pw_context w))"
    and "rc_upstream_kind (pw_context w) = Application \<Longrightarrow> rc_origin_permit (pw_context w')"
    and "pw_context w' = (pw_context w) \<lparr>rc_origin_permit := rc_origin_permit (pw_context w')\<rparr>"
    and "pw_writes w' = pw_writes w" and "es_telemetry (pw_edge w') = es_telemetry (pw_edge w)"
proof -
  from run obtain v1 v2 v3 where
    action: "action_filter ge lib env q d w = (None, v1)" and limit: "limit_filter ge env q d v1 = (None, v2)"
    and body: "body_filter ge q v2 = (None, v3)" and capacity: "capacity_filter ge v3 = (None, w')"
    unfolding protection_filters_def run_filters_Cons_None by auto
  note v1 = action_None(1) [OF action] and v3 = body_None(1) [OF body]
  note kept = limit_None(1) [OF limit]
  show "rd_action d \<noteq> Some Deny \<and> rd_action d \<noteq> Some Throttle
        \<and> (rd_action d = Some Challenge \<longrightarrow> rc_session_continuity (pw_context w))"
    if "protects ge (rc_upstream_kind (pw_context w))" "rc_client_ip (pw_context w) = Some ip"
    using action_None(2) [OF action that] .
  show "admits_request (snd (check (es_rate_limiter (pw_edge w)) ip (limiter_class (pw_context w))
            (runtime_rate_limit_policy (ge_config ge) limit) (rq_limiter_now env)))"
    if "rc_client_ip (pw_context w) = Some ip" "limit_of ge q d (pw_context w) = Some limit"
    using limit_None(5) [OF limit, unfolded v1, OF that] .
  show "n \<le> body_limit (ge_config ge) (rc_route_class (pw_context w))" if "content_length q = Some n"
    using body_None(2) [OF body that] by (simp add: kept v1)
  show "rc_upstream_kind (pw_context w) = Application \<Longrightarrow> rc_origin_permit (pw_context w')"
    using capacity_None(1) [OF capacity] by (simp add: v3 kept v1)
  show "pw_context w' = (pw_context w) \<lparr>rc_origin_permit := rc_origin_permit (pw_context w')\<rparr>"
    using capacity_None(2) [OF capacity] by (simp add: v3 kept v1)
  show "pw_writes w' = pw_writes w" using capacity_None(3) [OF capacity] limit_None(2) [OF limit] by (simp add: v3 v1)
  show "es_telemetry (pw_edge w') = es_telemetry (pw_edge w)"
    using capacity_None(4) [OF capacity] limit_None(4) [OF limit] by (simp add: v3 v1)
qed

text \<open>
  (C1) What reaches an upstream has passed every check. If the request filter lets a request through,
  then its framing is unambiguous, its host is allowed and its method permitted; it is not a
  declared bot that the enforced policy blocks, and not a health probe of the edge; it arrived over
  HTTPS if the edge has a TLS listener, or is an ACME challenge; an application request names the
  canonical host; the policy in force neither denies nor throttles its client, and challenges it
  only if it carries a valid clearance; every rate limit that applies admitted it; the announced
  body fits the limit of its route; an application request holds a permit for the origin; and
  nothing was written to the client.
\<close>

theorem forwarded_only_if_cleared:
  assumes "filter_request ge lib env q w = (Inr False, w')"
  shows "validate_request_framing (hq_raw_header q) (hq_headers q) = Inr ()
    \<and> host_allowed (request_host q) (er_allowed_hosts (ge_config ge)) \<and> \<not> rejects_method (hq_method q)
    \<and> \<not> (er_detection_mode (ge_config ge) = EnforceMode \<and> bp_block_unapproved_declared_bots (er_bot_policy (ge_config ge))
          \<and> blocked (bot_disposition ge lib q))
    \<and> hq_path q \<noteq> ''/health/live'' \<and> hq_path q \<noteq> ''/health/ready''
    \<and> (er_tls (ge_config ge) \<noteq> None \<longrightarrow> proto_of q w' = ''https''
         \<or> starts_with (before_first (CHR ''?'') (request_target q)) ''/.well-known/acme-challenge/'')
    \<and> (\<forall>canonical. kind_of ge q = Application \<and> er_canonical_host (ge_config ge) = Some canonical \<longrightarrow>
         (\<exists>host. request_host q = Some host \<and> normalize_host host = normalize_host canonical))
    \<and> (er_detection_mode (ge_config ge) = EnforceMode \<and> kind_of ge q = Application \<and> client_of ge lib q \<noteq> None \<longrightarrow>
         rd_action (decision_of ge lib env q (pw_edge w)) \<notin> {Some Deny, Some Throttle}
         \<and> (rd_action (decision_of ge lib env q (pw_edge w)) = Some Challenge \<longrightarrow> continues_session ge lib env q))
    \<and> (\<forall>ip limit. client_of ge lib q = Some ip \<and> limit_of ge q (decision_of ge lib env q (pw_edge w)) (pw_context w') = Some limit \<longrightarrow>
         admits_request (snd (check (es_rate_limiter (pw_edge w)) ip (limiter_class (pw_context w'))
           (runtime_rate_limit_policy (ge_config ge) limit) (rq_limiter_now env))))
    \<and> (\<forall>n. content_length q = Some n \<longrightarrow> n \<le> body_limit (ge_config ge) (class_of ge q))
    \<and> (kind_of ge q = Application \<longrightarrow> rc_origin_permit (pw_context w')) \<and> pw_writes w' = pw_writes w"
proof -
  let ?b = "begin_request ge lib env q w"
  from filter_request_False [OF assms(1)] obtain v where
    entry: "run_filters (entry_filters ge lib q) ?b = (None, v)" and
    protection: "run_filters (protection_filters ge lib env q (decide lib env v))
       (set_context (\<lambda>c. c \<lparr>rc_policy_version := rd_policy_version (decide lib env v)\<rparr>) v) = (None, w')"
    by (rule filters_None)
  note e = entry_cleared [OF entry, unfolded begin_request_fields] and p = protection_cleared [OF protection, simplified]
  note v = facts_eqD [OF entry_cleared(9) [OF entry], unfolded begin_request_fields]
  have d: "decide lib env v = decision_of ge lib env q (pw_edge w)" by (simp add: decide_def v)
  obtain n b where ctx: "pw_context w' = (pw_context v) \<lparr>rc_policy_version := n, rc_origin_permit := b\<rparr>"
    using p(5) by blast
  have kept: "rc_forwarded_headers_trusted (pw_context w') = trusted_of ge lib q"
    "limiter_class (pw_context w') = limiter_class (pw_context v)"
    "limit_of ge q x (pw_context w') = limit_of ge q x (pw_context v)" for x
    by (simp_all add: ctx v limiter_class_def limit_of_def)
  have bot: "\<not> (er_detection_mode (ge_config ge) = EnforceMode \<and> bp_block_unapproved_declared_bots (er_bot_policy (ge_config ge))
      \<and> blocked (bot_disposition ge lib q))"
    using e(4) by (simp add: enforces_common_protection_def)
  have canonical: "\<forall>canonical. kind_of ge q = Application \<and> er_canonical_host (ge_config ge) = Some canonical \<longrightarrow>
      (\<exists>host. request_host q = Some host \<and> normalize_host host = normalize_host canonical)"
    using e(8) by blast
  have cleared: "er_detection_mode (ge_config ge) = EnforceMode \<and> kind_of ge q = Application \<and> client_of ge lib q \<noteq> None \<longrightarrow>
      rd_action (decide lib env v) \<notin> {Some Deny, Some Throttle}
      \<and> (rd_action (decide lib env v) = Some Challenge \<longrightarrow> continues_session ge lib env q)"
    using p(1) by (auto simp: v enforces_common_protection_def)
  have admitted: "\<forall>ip limit. client_of ge lib q = Some ip \<and> limit_of ge q (decide lib env v) (pw_context v) = Some limit \<longrightarrow>
      admits_request (snd (check (es_rate_limiter (pw_edge w)) ip (limiter_class (pw_context v))
        (runtime_rate_limit_policy (ge_config ge) limit) (rq_limiter_now env)))"
    using p(2) by (simp add: v)
  have body: "\<forall>n. content_length q = Some n \<longrightarrow> n \<le> body_limit (ge_config ge) (class_of ge q)"
    using p(3) by (simp add: v)
  have permit: "kind_of ge q = Application \<longrightarrow> rc_origin_permit (pw_context w')" using p(4) by (simp add: v)
  have writes: "pw_writes w' = pw_writes w" using p(6) by (simp add: v)
  have secure: "er_tls (ge_config ge) \<noteq> None \<longrightarrow> current_proto q (trusted_of ge lib q) = ''https''
      \<or> starts_with (before_first (CHR ''?'') (request_target q)) ''/.well-known/acme-challenge/''"
    using e(7) by blast
  show ?thesis unfolding kept d [symmetric]
    by (intro conjI e(1-3) bot e(5,6) [unfolded LIVE_PATH_def READY_PATH_def] secure canonical cleared admitted body permit writes)
qed

section \<open>One telemetry event for each request\<close>

text \<open>The callbacks that may follow the request filter, in whatever order they come.\<close>

datatype 'h callback =
  BodyChunk "string option" | ConnectedUpstream bool | UpstreamResponse u16 'h | ResponseChunk "string option" bool
  | ProxyFailure error_type error_source

fun callback_step ::
  "'net GuardEdge \<Rightarrow> ('net, 'h) proxy_library \<Rightarrow> http_request \<Rightarrow> 'h proxy_world \<Rightarrow> request_env \<times> 'h callback \<Rightarrow> 'h proxy_world" where
  "callback_step ge lib q w (env, BodyChunk body) = set_context (\<lambda>c. snd (filter_body ge body c)) w"
| "callback_step ge lib q w (env, ConnectedUpstream reused) = connected_to_upstream reused w"
| "callback_step ge lib q w (env, UpstreamResponse status response) = snd (response_filter ge (pl_headers lib) q status response w)"
| "callback_step ge lib q w (env, ResponseChunk body end_of_stream) = response_body_filter lib env body end_of_stream w"
| "callback_step ge lib q w (env, ProxyFailure etype esource) = snd (fail_to_proxy lib env etype esource w)"

definition telemetry_events :: "'h proxy_world \<Rightarrow> u64" where
  "telemetry_events w = tm_emitted (es_telemetry (pw_edge w)) + tm_dropped (es_telemetry (pw_edge w))"

definition accounted :: "u64 \<Rightarrow> UpstreamKind \<Rightarrow> 'h proxy_world \<Rightarrow> bool" where
  "accounted n kind w \<longleftrightarrow> rc_upstream_kind (pw_context w) = kind
     \<and> telemetry_events w = n + (if kind = Application \<and> rc_telemetry_emitted (pw_context w) then 1 else 0)"

lemma emit_lazy_counts:
  "tm_emitted (emit_lazy v l r t s) + tm_dropped (emit_lazy v l r t s) = tm_emitted s + tm_dropped s + 1"
  by (auto simp: emit_lazy_def emit_def send_datagram_def split: option.split sum.split io_error_kind.split)

lemma emit_telemetry_accounted: "accounted n kind w \<Longrightarrow> accounted n kind (emit_telemetry lib env status k w)"
  by (cases kind) (auto simp: accounted_def emit_telemetry_def telemetry_events_def emit_lazy_counts Let_def)

lemma emit_telemetry_emitted [simp]: "rc_telemetry_emitted (pw_context (emit_telemetry lib env status k w))"
  by (simp add: emit_telemetry_def Let_def)

lemma accounted_other:
  assumes "accounted n kind w" and "rc_upstream_kind (pw_context w') = rc_upstream_kind (pw_context w)"
    and "rc_telemetry_emitted (pw_context w') = rc_telemetry_emitted (pw_context w)"
    and "es_telemetry (pw_edge w') = es_telemetry (pw_edge w)"
  shows "accounted n kind w'"
  using assms by (simp add: accounted_def telemetry_events_def)

lemma callback_accounted: "accounted n kind w \<Longrightarrow> accounted n kind (callback_step ge lib q w cb)"
proof -
  assume w: "accounted n kind w"
  obtain env c where cb: "cb = (env, c)" by (cases cb)
  show ?thesis
  proof (cases c)
    case (ResponseChunk body end_of_stream)
    let ?v = "set_context (\<lambda>c. c \<lparr>rc_response_body_bytes_seen := saturating_add (rc_response_body_bytes_seen c)
      (case body of None \<Rightarrow> 0 | Some chunk \<Rightarrow> if length chunk < 2 ^ 64 then of_nat (length chunk) else - 1)\<rparr>) w"
    have "accounted n kind ?v" by (rule accounted_other [OF w]) simp_all
    then show ?thesis using emit_telemetry_accounted by (auto simp: cb ResponseChunk response_body_filter_def Let_def)
  next
    case (ProxyFailure etype esource)
    let ?v = "if rc_upstream_kind (pw_context w) = Application then set_edge (\<lambda>e. e \<lparr>es_origin_ready := False\<rparr>) w else w"
    have "accounted n kind ?v" by (rule accounted_other [OF w]) simp_all
    then show ?thesis using emit_telemetry_accounted unfolding cb ProxyFailure callback_step.simps fail_to_proxy_def Let_def by auto
  qed (auto simp: cb filter_body_def connected_to_upstream_def response_filter_def Let_def intro: accounted_other [OF w])
qed

interpretation callback_machine: invariant_machine "callback_step ge lib q" "accounted n kind" for ge lib q n kind
  by unfold_locales (rule callback_accounted)

text \<open>The projection the accounts depend on is left alone by every filter.\<close>

definition account_facts :: "'h proxy_world \<Rightarrow> UpstreamKind \<times> bool \<times> TelemetryInner" where
  "account_facts w = (rc_upstream_kind (pw_context w), rc_telemetry_emitted (pw_context w), es_telemetry (pw_edge w))"

lemma run_filters_invariant:
  "(\<And>f w. f \<in> set fs \<Longrightarrow> g (snd (f w)) = g w) \<Longrightarrow> g (snd (run_filters fs w)) = g w"
proof (induction fs arbitrary: w)
  case (Cons f fs)
  have "g (snd (f w)) = g w" using Cons.prems by simp
  then show ?case using Cons.IH [of "snd (f w)"] Cons.prems by (cases "f w"; cases "fst (f w)") auto
qed simp

lemma entry_account: "account_facts (snd (run_filters (entry_filters ge lib q) w)) = account_facts w"
proof -
  have "request_facts (snd (run_filters (entry_filters ge lib q) w)) = request_facts w"
    by (rule run_filters_keep) (rule entry_filters_keep)
  from facts_eqD [OF this] show ?thesis by (simp add: account_facts_def)
qed

lemma protection_filter_account:
  "account_facts (snd (action_filter ge lib env q d w)) = account_facts w"
  "account_facts (snd (limit_filter ge env q d w)) = account_facts w"
  "account_facts (snd (body_filter ge q w)) = account_facts w"
  "account_facts (snd (capacity_filter ge w)) = account_facts w"
  by (simp_all add: account_facts_def action_filter_def limit_filter_def body_filter_def capacity_filter_def
      try_acquire_origin_capacity_def Let_def split: option.split decision.split prod.split limit_decision.split)

lemma filters_account: "account_facts (snd (filters ge lib env q w)) = account_facts w"
proof -
  have "account_facts (snd (run_filters (protection_filters ge lib env q d) v)) = account_facts v" for d v
    by (rule run_filters_invariant) (auto simp: protection_filters_def protection_filter_account)
  note protection = this
  obtain x v where v: "run_filters (entry_filters ge lib q) w = (x, v)" by (cases "run_filters (entry_filters ge lib q) w")
  let ?u = "set_context (\<lambda>c. c \<lparr>rc_policy_version := rd_policy_version (decide lib env v)\<rparr>) v"
  have "account_facts v = account_facts w" using entry_account [of ge lib q w] by (simp add: v)
  moreover have "account_facts ?u = account_facts v" by (simp add: account_facts_def)
  ultimately show ?thesis using protection [of "decide lib env v" ?u]
    by (cases x) (simp_all add: filters_def v Let_def)
qed

lemma respond_account: "account_facts (snd (respond lib env a w)) = account_facts w"
  by (auto simp: respond_def session_write_def account_facts_def Let_def then_call_def split: option.splits sum.splits)

lemma filter_request_accounted:
  "accounted (telemetry_events w) (kind_of ge q) (snd (filter_request ge lib env q w))
   \<and> (fst (filter_request ge lib env q w) = Inr True \<longrightarrow> rc_telemetry_emitted (pw_context (snd (filter_request ge lib env q w))))"
proof -
  let ?b = "begin_request ge lib env q w"
  have start: "accounted (telemetry_events w) (kind_of ge q) v" if "account_facts v = account_facts ?b" for v
    using that by (auto simp: account_facts_def accounted_def telemetry_events_def begin_request_fields)
  obtain a v where v: "filters ge lib env q ?b = (a, v)" by (cases "filters ge lib env q ?b")
  have facts: "account_facts v = account_facts ?b" using filters_account [of ge lib env q ?b] by (simp add: v)
  show ?thesis
  proof (cases a)
    case None
    with v facts start show ?thesis by (simp add: filter_request_def)
  next
    case (Some a')
    obtain r u where u: "respond lib env a' v = (r, u)" by (cases "respond lib env a' v")
    have "account_facts u = account_facts ?b" using respond_account [of lib env a' v] facts by (simp add: u)
    from start [OF this] emit_telemetry_accounted show ?thesis
      by (cases r) (auto simp: filter_request_def v Some answer_request_def u then_call_def)
  qed
qed

text \<open>
  (C21) One telemetry event for each request. Whatever the filter decides and whatever callbacks Pingora
  makes afterwards, the request counts at most once as emitted or dropped: exactly once as soon as
  its context is marked, which is the case when the edge answered it itself, and never when it is
  a request to the management host.
\<close>

theorem one_telemetry_event:
  "let (r, w1) = filter_request ge lib env q w; w2 = run (callback_step ge lib q) w1 callbacks
   in telemetry_events w2 = telemetry_events w + (if kind_of ge q = Application \<and> rc_telemetry_emitted (pw_context w2) then 1 else 0)
      \<and> (r = Inr True \<longrightarrow> telemetry_events w1 = telemetry_events w + (if kind_of ge q = Application then 1 else 0))"
proof -
  obtain r w1 where f: "filter_request ge lib env q w = (r, w1)" by (cases "filter_request ge lib env q w")
  from filter_request_accounted [of w ge q lib env] have w1: "accounted (telemetry_events w) (kind_of ge q) w1"
    "r = Inr True \<longrightarrow> rc_telemetry_emitted (pw_context w1)" by (simp_all add: f)
  from callback_machine.invar_run [OF w1(1), of ge lib q callbacks] w1 show ?thesis
    by (auto simp: f Let_def accounted_def)
qed

section \<open>Request bodies\<close>

text \<open>Pingora hands the chunks to the filter in order and stops at the first error.\<close>

fun pass_body :: "'net GuardEdge \<Rightarrow> RequestContext \<Rightarrow> string list \<Rightarrow> string list \<times> bool" where
  "pass_body ge c [] = ([], True)"
| "pass_body ge c (chunk # chunks) = (case filter_body ge (Some chunk) c of
     (Inl _, _) \<Rightarrow> ([], False)
   | (Inr _, c) \<Rightarrow> (let (passed, complete) = pass_body ge c chunks in (chunk # passed, complete)))"

lemma filter_body_result:
  assumes limit: "body_limit (ge_config ge) (rc_route_class c) < - 1" and seen: "unat (rc_request_body_bytes_seen c) = n"
    and len: "length chunk < 2 ^ 64" and below: "n \<le> unat (body_limit (ge_config ge) (rc_route_class c))"
  shows "filter_body ge (Some chunk) c =
    (let seen = saturating_add (rc_request_body_bytes_seen c) (of_nat (length chunk)); c' = c \<lparr>rc_request_body_bytes_seen := seen\<rparr>
     in (if n + length chunk \<le> unat (body_limit (ge_config ge) (rc_route_class c)) then Inr () else Inl (HttpStatus 413), c'))"
    and "n + length chunk \<le> unat (body_limit (ge_config ge) (rc_route_class c)) \<Longrightarrow>
      unat (saturating_add (rc_request_body_bytes_seen c) (of_nat (length chunk))) = n + length chunk"
proof -
  let ?l = "body_limit (ge_config ge) (rc_route_class c)"
  have max: "unat ?l < 2 ^ 64 - 1" using limit by (simp add: word_less_nat_alt)
  have chunk: "unat (of_nat (length chunk) :: u64) = length chunk" using len by (simp add: unsigned_of_nat take_bit_nat_eq_self)
  have sum: "unat (saturating_add (rc_request_body_bytes_seen c) (of_nat (length chunk))) = min (2 ^ 64 - 1) (n + length chunk)"
    by (simp add: unat_saturating_add seen chunk)
  have "saturating_add (rc_request_body_bytes_seen c) (of_nat (length chunk)) > ?l \<longleftrightarrow> \<not> n + length chunk \<le> unat ?l"
    unfolding word_less_nat_alt sum using max by auto
  then show "filter_body ge (Some chunk) c =
    (let seen = saturating_add (rc_request_body_bytes_seen c) (of_nat (length chunk)); c' = c \<lparr>rc_request_body_bytes_seen := seen\<rparr>
     in (if n + length chunk \<le> unat ?l then Inr () else Inl (HttpStatus 413), c'))"
    by (simp add: filter_body_def Let_def)
  show "unat (saturating_add (rc_request_body_bytes_seen c) (of_nat (length chunk))) = n + length chunk"
    if "n + length chunk \<le> unat ?l"
    using sum that max by simp
qed

lemma pass_body_bound:
  assumes "body_limit (ge_config ge) (rc_route_class c) < - 1" and "unat (rc_request_body_bytes_seen c) = n"
    and "\<forall>chunk \<in> set chunks. length chunk < 2 ^ 64" and "n \<le> unat (body_limit (ge_config ge) (rc_route_class c))"
  shows "n + length (concat (fst (pass_body ge c chunks))) \<le> unat (body_limit (ge_config ge) (rc_route_class c))
    \<and> (snd (pass_body ge c chunks) \<longleftrightarrow> n + length (concat chunks) \<le> unat (body_limit (ge_config ge) (rc_route_class c)))
    \<and> prefix (fst (pass_body ge c chunks)) chunks \<and> (snd (pass_body ge c chunks) \<longrightarrow> fst (pass_body ge c chunks) = chunks)"
  using assms
proof (induction chunks arbitrary: c n)
  case (Cons chunk chunks)
  let ?l = "unat (body_limit (ge_config ge) (rc_route_class c))"
  let ?c = "c \<lparr>rc_request_body_bytes_seen := saturating_add (rc_request_body_bytes_seen c) (of_nat (length chunk))\<rparr>"
  have len: "length chunk < 2 ^ 64" using Cons.prems(3) by simp
  note result = filter_body_result [OF Cons.prems(1,2) len Cons.prems(4)]
  show ?case
  proof (cases "n + length chunk \<le> ?l")
    case True
    have "unat (rc_request_body_bytes_seen ?c) = n + length chunk" using result(2) [OF True] by simp
    from Cons.IH [OF _ this] Cons.prems(1,3) True show ?thesis
      by (simp add: result(1) Let_def split_beta add.assoc)
  next
    case False
    with Cons.prems(4) show ?thesis by (simp add: result(1) Let_def)
  qed
qed simp

text \<open>
  (C10) No body larger than the limit reaches the upstream. Of the chunks of a request body, a prefix is
  forwarded whose total size never exceeds the limit of the route, whatever length was announced;
  and the whole body is forwarded exactly if its total size is within the limit.
\<close>

theorem request_body_bounded:
  assumes "rc_request_body_bytes_seen c = 0" and "body_limit (ge_config ge) (rc_route_class c) < - 1"
    and "\<forall>chunk \<in> set chunks. length chunk < 2 ^ 64"
  shows "length (concat (fst (pass_body ge c chunks))) \<le> unat (body_limit (ge_config ge) (rc_route_class c))
    \<and> prefix (fst (pass_body ge c chunks)) chunks
    \<and> (fst (pass_body ge c chunks) = chunks \<and> snd (pass_body ge c chunks)
       \<longleftrightarrow> length (concat chunks) \<le> unat (body_limit (ge_config ge) (rc_route_class c)))"
  using pass_body_bound [of ge c 0 chunks] assms by auto

section \<open>The management host\<close>


text \<open>
  The limit of management logins counts against the window all traffic shares: once the requests of
  the current minute, of whatever kind, reach the global budget derived from the login limit, a
  login is refused although no login was attempted before.
\<close>

theorem management_login_starved:
  assumes "limiter_ok (es_rate_limiter (pw_edge w))" and "rc_upstream_kind (pw_context w) = Management"
    and "rc_method (pw_context w) = ''POST''" and "hq_path q = ''/api/v1/session''" and "rc_client_ip (pw_context w) = Some ip"
    and "er_management (ge_config ge) = Some m"
    and "unat (rl_global_rpm (runtime_rate_limit_policy (ge_config ge) (rmc_login_rate_limit_rpm m)))
      \<le> used_global (minute_bucket (rq_limiter_now env)) (lim_state (es_rate_limiter (pw_edge w)))"
  shows "\<exists>a. fst (limit_filter ge env q d w) = Some a \<and> an_status a = 429"
proof -
  let ?p = "runtime_rate_limit_policy (ge_config ge) (rmc_login_rate_limit_rpm m)" and ?l = "es_rate_limiter (pw_edge w)"
  have limit: "limit_of ge q d (pw_context w) = Some (rmc_login_rate_limit_rpm m)"
    using assms(2-4,6) by (simp add: limit_of_def management_login_rate_limit_def)
  have "snd (check ?l ip r ?p (rq_limiter_now env)) = LimitDeny GlobalScope" for r
    using assms(1,7) check_state_decision [of "lim_max_entries ?l" "lim_max_prefixes ?l" "lim_state ?l"]
    by (simp add: check_def Let_def split_beta limiter_ok_def specified_decision_def)
  then show ?thesis by (simp add: limit_filter_def Let_def assms(5) limit split_beta text_answer_def)
qed

section \<open>A request\<close>

definition sample_headers :: "(string \<times> string) list header_map" where
  "sample_headers = \<lparr>hm_contains_key = (\<lambda>h n. n \<in> set (map fst h)), hm_insert_header = (\<lambda>n v h. Inr (AList.update n v h)),
     hm_remove_header = (\<lambda>n h. filter (\<lambda>p. fst p \<noteq> n) h)\<rparr>"

definition sample_proxy_library :: "(u32 \<times> nat, (string \<times> string) list) proxy_library" where
  "sample_proxy_library = \<lparr>pl_net_contains = sample_contains, pl_policy = sample_library, pl_clearance = sample_clearance_library,
     pl_headers = sample_headers, pl_build_response = (\<lambda>_. Inr []), pl_to_vec = (\<lambda>t. Some (rt_method t))\<rparr>"

definition sample_runtime_library :: "(u32 \<times> nat) runtime_library" where
  "sample_runtime_library = \<lparr>rtl_credentials_directory = None, rtl_read_to_string = Inl, rtl_parse_networks = Inl\<rparr>"

definition sample_edge :: "(u32 \<times> nat) GuardEdge" where
  "sample_edge = \<lparr>ge_config = projr (try_from_guard sample_runtime_library sample_config), ge_clearance = None\<rparr>"

definition sample_env :: request_env where
  "sample_env = \<lparr>rq_cookie_seconds = 0, rq_policy_now = 0, rq_challenge_seconds = 0, rq_limiter_now = 0, rq_latency_micros = 1,
     rq_unix_millis = 0, rq_write_header = Inr (), rq_write_body = Inr (), rq_telemetry_lock_free = True,
     rq_telemetry_sent = Inr ()\<rparr>"

definition sample_http_request :: "string \<Rightarrow> http_request" where
  "sample_http_request host = \<lparr>hq_method = ''GET'', hq_path = ''/'', hq_path_and_query = None, hq_authority = None,
     hq_headers = \<lparr>rh_get_all = (\<lambda>n. if n = ''host'' then [host] else []), rh_to_str = Some\<rparr>, hq_raw_header = [],
     hq_client_addr = Some (V4 7), hq_ssl = True\<rparr>"

definition sample_proxy_world :: "(string \<times> string) list proxy_world" where
  "sample_proxy_world = \<lparr>pw_edge = snd (new_edge (ge_config sample_edge) sample_library
       \<lparr>sk_unbound = True, sk_nonblocking = True, sk_connected = True\<rparr> FileNotFound 0 (Inl []) []),
     pw_context = new_context, pw_writes = [], pw_timeouts = None\<rparr>"

lemma sample_runtime_ok: "try_from_guard sample_runtime_library sample_config = Inr (ge_config sample_edge)"
proof -
  have "\<exists>r. try_from_guard sample_runtime_library sample_config = Inr r"
    by (simp add: try_from_guard_def sample_config_def sample_edge_config_def runtime_origin_sni_def runtime_tls_def
        resolve_credential_path_def path_is_absolute_def starts_with_def runtime_bot_policy_def Let_def)
  then show ?thesis by (auto simp: sample_edge_def)
qed

lemma sample_passes: "fst (filter_request sample_edge sample_proxy_library sample_env (sample_http_request ''example.com'') sample_proxy_world) = Inr False"
  by code_simp

lemma sample_management_passes:
  "fst (filter_request sample_edge sample_proxy_library sample_env (sample_http_request ''Guard.example.com:443'') sample_proxy_world) = Inr False"
  by code_simp

theorem forwarded_only_if_cleared_witness:
  "\<exists>w'. filter_request sample_edge sample_proxy_library sample_env (sample_http_request ''example.com'') sample_proxy_world = (Inr False, w')
    \<and> host_allowed (request_host (sample_http_request ''example.com'')) (er_allowed_hosts (ge_config sample_edge))
    \<and> \<not> rejects_method (hq_method (sample_http_request ''example.com'')) \<and> pw_writes w' = []"
proof -
  obtain w' where passed: "filter_request sample_edge sample_proxy_library sample_env (sample_http_request ''example.com'') sample_proxy_world
      = (Inr False, w')"
    using sample_passes by (cases "filter_request sample_edge sample_proxy_library sample_env (sample_http_request ''example.com'') sample_proxy_world") auto
  have "pw_writes sample_proxy_world = []" by (simp add: sample_proxy_world_def)
  with passed forwarded_only_if_cleared [OF passed] show ?thesis by (intro exI [of _ w']) simp
qed

theorem one_telemetry_event_witness:
  "let (r, w1) = filter_request sample_edge sample_proxy_library sample_env (sample_http_request ''example.com'') sample_proxy_world
   in telemetry_events (run (callback_step sample_edge sample_proxy_library (sample_http_request ''example.com'')) w1
        [(sample_env, ResponseChunk None True), (sample_env, ProxyFailure TypeOther FromUpstream)]) = 1"
proof -
  let ?q = "sample_http_request ''example.com''"
  obtain r w1 where f: "filter_request sample_edge sample_proxy_library sample_env ?q sample_proxy_world = (r, w1)"
    by (cases "filter_request sample_edge sample_proxy_library sample_env ?q sample_proxy_world")
  have kind: "kind_of sample_edge ?q = Application" by code_simp
  have start: "telemetry_events sample_proxy_world = 0"
    by (simp add: telemetry_events_def sample_proxy_world_def new_edge_def connect_sink_def)
  show ?thesis
    using one_telemetry_event [of sample_edge sample_proxy_library sample_env ?q sample_proxy_world
        "[(sample_env, ResponseChunk None True), (sample_env, ProxyFailure TypeOther FromUpstream)]"]
    by (simp add: f kind start fail_to_proxy_def Let_def)
qed

theorem request_body_bounded_witness:
  "fst (pass_body sample_edge new_context [''ab'', ''c'']) = [''ab'', ''c'']"
proof -
  have limit: "body_limit (ge_config sample_edge) (rc_route_class new_context) = 1000"
    using try_from_guard_fields(5) [OF sample_runtime_ok]
    by (simp add: body_limit_def new_context_def sample_config_def sample_edge_config_def)
  then show ?thesis
    using request_body_bounded [of new_context sample_edge "[''ab'', ''c'']"] by (simp add: new_context_def)
qed


end
