(* ===== verification/Owned_Command.thy ===== *)
theory Owned_Command
  imports Guard_Prelude Rust_Text
begin

text \<open>
  The runner of external commands of \<open>guard-system/src/command.rs\<close>: the programs VPSGuard may
  start, the audit row of a run and the errors that leave the runner. Starting a process is a
  parameter: it gets the path, the arguments and the standard input, and ends with an operating
  system error or with an exit status and the two outputs.
\<close>

section \<open>Programs and results\<close>

datatype OwnedProgram = Ufw | Nft | Systemctl | Nginx | Apache2ctl | VpsGuard | Curl | Openssl | Ss
  | Getent | Pgrep | Userdel | Groupdel

fun program_path :: "OwnedProgram \<Rightarrow> string" where
  "program_path Ufw = ''/usr/sbin/ufw''"
| "program_path Nft = ''/usr/sbin/nft''"
| "program_path Systemctl = ''/usr/bin/systemctl''"
| "program_path Nginx = ''/usr/sbin/nginx''"
| "program_path Apache2ctl = ''/usr/sbin/apache2ctl''"
| "program_path VpsGuard = ''/usr/local/bin/vps-guard''"
| "program_path Curl = ''/usr/bin/curl''"
| "program_path Openssl = ''/usr/bin/openssl''"
| "program_path Ss = ''/usr/bin/ss''"
| "program_path Getent = ''/usr/bin/getent''"
| "program_path Pgrep = ''/usr/bin/pgrep''"
| "program_path Userdel = ''/usr/sbin/userdel''"
| "program_path Groupdel = ''/usr/sbin/groupdel''"

record CommandAudit =
  ca_occurred_at :: string
  ca_program :: string
  ca_argv :: "string list"
  ca_exit_code :: "int option"
  ca_duration_ms :: u64

record CommandOutput =
  co_stdout :: string
  co_audit :: CommandAudit

text \<open>An \<open>io::Error\<close> is the operating system's or one the program makes with a kind of its own.\<close>

datatype command_io = OsFailure string | PermissionDenied string | InvalidData string | OtherFailure string

datatype CommandError = CommandIo command_io | CommandFailed string "int option" string

section \<open>Running a command\<close>

record process_exit =
  px_code :: "int option"
  px_stdout :: string
  px_stderr :: string
  px_elapsed_ms :: nat

record 'h command_host =
  ch_spawn :: "string \<Rightarrow> string list \<Rightarrow> string option \<Rightarrow> 'h \<Rightarrow> (string + process_exit) \<times> 'h"
  ch_now :: "'h \<Rightarrow> string option"
  ch_utf8_lossy :: "string \<Rightarrow> string"

definition redacted_stderr :: "string \<Rightarrow> string" where
  "redacted_stderr bytes =
     (if bytes = [] then ''[redacted command stderr: empty]''
      else ''[redacted command stderr: '' @ show_nat (length bytes) @ '' bytes]'')"

definition masked_argv :: "nat list \<Rightarrow> string list \<Rightarrow> string list" where
  "masked_argv sensitive arguments =
     map (\<lambda>(index, v). if index \<in> set sensitive then ''***'' else v) (List.enumerate 0 arguments)"

definition command_audit :: "'h command_host \<Rightarrow> OwnedProgram \<Rightarrow> string list \<Rightarrow> nat list \<Rightarrow> process_exit \<Rightarrow> 'h \<Rightarrow> CommandAudit" where
  "command_audit host program arguments sensitive px h =
     \<lparr>ca_occurred_at = (case ch_now host h of Some t \<Rightarrow> t | None \<Rightarrow> []),
      ca_program = program_path program,
      ca_argv = masked_argv sensitive arguments,
      ca_exit_code = px_code px,
      ca_duration_ms = (if px_elapsed_ms px < 2 ^ 64 then of_nat (px_elapsed_ms px) else - 1)\<rparr>"

definition run_accepting ::
  "'h command_host \<Rightarrow> OwnedProgram \<Rightarrow> string list \<Rightarrow> string option \<Rightarrow> nat list \<Rightarrow> int list \<Rightarrow> 'h
   \<Rightarrow> (CommandError + CommandOutput) \<times> 'h" where
  "run_accepting host program arguments stdin sensitive accepted h =
     (case ch_spawn host (program_path program) arguments stdin h of
        (Inl e, h) \<Rightarrow> (Inl (CommandIo (OsFailure e)), h)
      | (Inr px, h) \<Rightarrow>
          if \<not> (case px_code px of Some code \<Rightarrow> code \<in> set accepted | None \<Rightarrow> False)
          then (Inl (CommandFailed (program_path program) (px_code px) (redacted_stderr (px_stderr px))), h)
          else (Inr \<lparr>co_stdout = ch_utf8_lossy host (px_stdout px),
                     co_audit = command_audit host program arguments sensitive px h\<rparr>, h))"

definition run_command ::
  "'h command_host \<Rightarrow> OwnedProgram \<Rightarrow> string list \<Rightarrow> string option \<Rightarrow> nat list \<Rightarrow> 'h
   \<Rightarrow> (CommandError + CommandOutput) \<times> 'h" where
  "run_command host program arguments stdin sensitive = run_accepting host program arguments stdin sensitive [0]"

section \<open>What leaves the runner\<close>

lemma masked_argv_nth:
  "i < length arguments \<Longrightarrow> masked_argv sensitive arguments ! i = (if i \<in> set sensitive then ''***'' else arguments ! i)"
  by (simp add: masked_argv_def nth_enumerate_eq)

lemma masked_argv_eq:
  assumes "length arguments = length others"
    and "\<And>i. i < length arguments \<Longrightarrow> i \<notin> set sensitive \<Longrightarrow> arguments ! i = others ! i"
  shows "masked_argv sensitive arguments = masked_argv sensitive others"
proof (rule nth_equalityI)
  show "length (masked_argv sensitive arguments) = length (masked_argv sensitive others)"
    using assms(1) by (simp add: masked_argv_def)
  fix i assume "i < length (masked_argv sensitive arguments)"
  then have "i < length arguments" by (simp add: masked_argv_def)
  with assms show "masked_argv sensitive arguments ! i = masked_argv sensitive others ! i"
    by (simp add: masked_argv_nth)
qed

lemma redacted_stderr_length: "length e = length e' \<Longrightarrow> redacted_stderr e = redacted_stderr e'"
  by (auto simp: redacted_stderr_def)

text \<open>
  Two processes that exit alike and print the same on standard output give the caller the same
  result, whatever they were told on standard input and in the arguments marked as sensitive, and
  whatever they wrote on standard error, of which only the length is reported.
\<close>

theorem command_result_hides_secrets:
  assumes "ch_spawn host (program_path program) arguments stdin h = (Inr px, h1)"
    and "ch_spawn host (program_path program) others stdin' h = (Inr px', h2)"
    and "length arguments = length others"
    and "\<And>i. i < length arguments \<Longrightarrow> i \<notin> set sensitive \<Longrightarrow> arguments ! i = others ! i"
    and "px_code px = px_code px'" and "px_stdout px = px_stdout px'"
    and "length (px_stderr px) = length (px_stderr px')" and "px_elapsed_ms px = px_elapsed_ms px'"
    and "ch_now host h1 = ch_now host h2"
  shows "fst (run_accepting host program arguments stdin sensitive accepted h)
         = fst (run_accepting host program others stdin' sensitive accepted h)"
  using assms masked_argv_eq [OF assms(3,4)] redacted_stderr_length [OF assms(7)]
  by (simp add: run_accepting_def command_audit_def)

lemma run_command_Inr:
  "run_command host program arguments stdin sensitive h = (Inr out, h')
   \<longleftrightarrow> (\<exists>px. ch_spawn host (program_path program) arguments stdin h = (Inr px, h') \<and> px_code px = Some 0
        \<and> out = \<lparr>co_stdout = ch_utf8_lossy host (px_stdout px),
                 co_audit = command_audit host program arguments sensitive px h'\<rparr>)"
  by (auto simp: run_command_def run_accepting_def split: prod.splits sum.splits option.splits if_splits)

end
