(* ===== verification/Ufw_Control.thy ===== *)
theory Ufw_Control
  imports Config Owned_Command "HOL-Library.Multiset" "HOL-Library.List_Lexorder" "HOL-Library.Char_ord"
begin

text \<open>
  Changes to the host firewall, \<open>guard-system/src/ufw.rs\<close>: the typed rule and its safety
  contract, the command line made from it and the check of that command line on the other side of
  the privilege boundary, the reading of \<open>ufw status numbered\<close>, and the controller that plans,
  applies, reads back and rolls back one change. The program \<open>ufw\<close> is the executor, a function
  on an arbitrary host state; the printer and parser of networks and SHA-256 are parameters.
\<close>

section \<open>Rules\<close>

datatype UfwAction = UfwAllow | UfwDeny

fun action_arg :: "UfwAction \<Rightarrow> string" where
  "action_arg UfwAllow = ''allow''"
| "action_arg UfwDeny = ''deny''"

datatype UfwProtocol = UfwTcp | UfwUdp | UfwAny

fun protocol_arg :: "UfwProtocol \<Rightarrow> string option" where
  "protocol_arg UfwTcp = Some ''tcp''"
| "protocol_arg UfwUdp = Some ''udp''"
| "protocol_arg UfwAny = None"

record 'net UfwRule =
  ur_id :: string
  ur_action :: UfwAction
  ur_source :: "'net option"
  ur_destination_port :: "u16 option"
  ur_protocol :: UfwProtocol

text \<open>The messages of the errors are constructors.\<close>

datatype rule_issue = BadRuleId | PortZero | PortlessProtocol | BadAction | MissingToken string | MissingSource
  | BadSource | MissingPort | BadPort | BadProtocol | MissingComment | UnknownToken | ForeignComment

datatype identity_issue = IdExists | NotExactlyOne | NoUniqueRule string

datatype UfwError = OwnershipDenied | UfwInactive | InvalidRule rule_issue | SshInvariant
  | RuleIdentity identity_issue | SnapshotChanged | VerificationFailed | RollbackFailed | UfwCommand CommandError

definition rule_id_char :: "char \<Rightarrow> bool" where
  "rule_id_char c \<longleftrightarrow> is_ascii_alphanumeric c \<or> c = CHR ''_'' \<or> c = CHR ''-''"

definition ufw_validate :: "'net UfwRule \<Rightarrow> u16 \<Rightarrow> UfwError + unit" where
  "ufw_validate rule ssh_port =
     checks
       [reject_if (ur_id rule = [] \<or> length (ur_id rule) > 48 \<or> \<not> list_all rule_id_char (ur_id rule)) (InvalidRule BadRuleId),
        reject_if (ur_destination_port rule = Some 0) (InvalidRule PortZero),
        reject_if (ur_action rule = UfwDeny \<and> (ur_destination_port rule = Some ssh_port
                    \<or> ur_source rule = None \<and> ur_destination_port rule = None)) SshInvariant,
        reject_if (ur_destination_port rule = None \<and> ur_protocol rule \<noteq> UfwAny) (InvalidRule PortlessProtocol)]"

record 'net ufw_library =
  ul_show_net :: "'net \<Rightarrow> string"
  ul_parse_net :: "string \<Rightarrow> 'net option"
  ul_sha256_hex :: "string \<Rightarrow> string"

definition COMMENT_PREFIX :: string where "COMMENT_PREFIX = ''vps-guard:''"

definition rule_comment :: "'net UfwRule \<Rightarrow> string" where
  "rule_comment rule = COMMENT_PREFIX @ ur_id rule"

definition add_arguments :: "'net ufw_library \<Rightarrow> 'net UfwRule \<Rightarrow> bool \<Rightarrow> string list" where
  "add_arguments lib rule dry_run =
     (if dry_run then [''--dry-run''] else [])
     @ [action_arg (ur_action rule), ''in'']
     @ (case ur_source rule of None \<Rightarrow> [] | Some source \<Rightarrow> [''from'', ul_show_net lib source])
     @ (if ur_destination_port rule \<noteq> None then [''to'', ''any''] else [])
     @ (case ur_destination_port rule of None \<Rightarrow> [] | Some port \<Rightarrow> [''port'', show_nat (unat port)])
     @ (case protocol_arg (ur_protocol rule) of None \<Rightarrow> [] | Some protocol \<Rightarrow> [''proto'', protocol])
     @ [''comment'', rule_comment rule]"

section \<open>Checking a command line\<close>

text \<open>The cursor of the source is the list of the arguments that are left.\<close>

fun take_exact :: "string list \<Rightarrow> string \<Rightarrow> UfwError + string list" where
  "take_exact (v # rest) expected = (if v = expected then Inr rest else Inl (InvalidRule (MissingToken expected)))"
| "take_exact [] expected = Inl (InvalidRule (MissingToken expected))"

fun take_action :: "string list \<Rightarrow> UfwError + UfwAction \<times> string list" where
  "take_action (v # rest) = (if v = ''allow'' then Inr (UfwAllow, rest)
     else if v = ''deny'' then Inr (UfwDeny, rest) else Inl (InvalidRule BadAction))"
| "take_action [] = Inl (InvalidRule BadAction)"

definition take_source :: "'net ufw_library \<Rightarrow> string list \<Rightarrow> UfwError + 'net option \<times> string list" where
  "take_source lib arguments =
     (case arguments of
        v # rest \<Rightarrow>
          if v = ''from'' then
            (case rest of [] \<Rightarrow> Inl (InvalidRule MissingSource)
             | source # rest \<Rightarrow> (case ul_parse_net lib source of None \<Rightarrow> Inl (InvalidRule BadSource) | Some n \<Rightarrow> Inr (Some n, rest)))
          else Inr (None, arguments)
      | [] \<Rightarrow> Inr (None, []))"

definition take_destination :: "string list \<Rightarrow> UfwError + string list" where
  "take_destination arguments =
     (case arguments of v # rest \<Rightarrow> if v = ''to'' then take_exact rest ''any'' else Inr arguments | [] \<Rightarrow> Inr [])"

definition take_port :: "string list \<Rightarrow> UfwError + u16 option \<times> string list" where
  "take_port arguments =
     (case arguments of
        v # rest \<Rightarrow>
          if v = ''port'' then
            (case rest of [] \<Rightarrow> Inl (InvalidRule MissingPort)
             | port # rest \<Rightarrow> (case parse_unsigned 16 port of None \<Rightarrow> Inl (InvalidRule BadPort) | Some n \<Rightarrow> Inr (Some (of_nat n), rest)))
          else Inr (None, arguments)
      | [] \<Rightarrow> Inr (None, []))"

definition take_protocol :: "string list \<Rightarrow> UfwError + UfwProtocol \<times> string list" where
  "take_protocol arguments =
     (case arguments of
        v # rest \<Rightarrow>
          if v = ''proto'' then
            (case rest of [] \<Rightarrow> Inl (InvalidRule BadProtocol)
             | protocol # rest \<Rightarrow> if protocol = ''tcp'' then Inr (UfwTcp, rest)
                 else if protocol = ''udp'' then Inr (UfwUdp, rest) else Inl (InvalidRule BadProtocol))
          else Inr (UfwAny, arguments)
      | [] \<Rightarrow> Inr (UfwAny, []))"

definition take_comment :: "string list \<Rightarrow> UfwError + string" where
  "take_comment arguments =
     and_then (take_exact arguments ''comment'') (\<lambda>rest.
       case rest of [] \<Rightarrow> Inl (InvalidRule MissingComment)
       | comment # rest \<Rightarrow>
           and_then (reject_if (rest \<noteq> []) (InvalidRule UnknownToken)) (\<lambda>_.
             ok_or (InvalidRule ForeignComment) (strip_prefix comment COMMENT_PREFIX)))"

definition skip_dry_run :: "string list \<Rightarrow> string list" where
  "skip_dry_run arguments = (case arguments of v # rest \<Rightarrow> if v = ''--dry-run'' then rest else arguments | [] \<Rightarrow> [])"

definition parse_ufw_add_arguments :: "'net ufw_library \<Rightarrow> string list \<Rightarrow> UfwError + 'net UfwRule" where
  "parse_ufw_add_arguments lib arguments =
     and_then (take_action (skip_dry_run arguments)) (\<lambda>(action, rest).
     and_then (take_exact rest ''in'') (\<lambda>rest.
     and_then (take_source lib rest) (\<lambda>(source, rest).
     and_then (take_destination rest) (\<lambda>rest.
     and_then (take_port rest) (\<lambda>(port, rest).
     and_then (take_protocol rest) (\<lambda>(protocol, rest).
     and_then (take_comment rest) (\<lambda>rule_id.
       Inr \<lparr>ur_id = rule_id, ur_action = action, ur_source = source, ur_destination_port = port, ur_protocol = protocol\<rparr>)))))))"

definition validate_ufw_add_arguments :: "'net ufw_library \<Rightarrow> string list \<Rightarrow> u16 \<Rightarrow> UfwError + unit" where
  "validate_ufw_add_arguments lib arguments ssh_port =
     and_then (parse_ufw_add_arguments lib arguments) (\<lambda>rule. ufw_validate rule ssh_port)"

section \<open>Reading the status\<close>

record UfwObservedRule =
  uo_number :: u32
  uo_id :: string
  uo_summary :: string

record UfwSnapshot =
  us_active :: bool
  us_fingerprint :: string
  us_owned_rules :: "UfwObservedRule list"
  us_foreign_rules :: "string list"

definition bounded_summary :: "string \<Rightarrow> string" where
  "bounded_summary = take_chars 512"

definition parse_owned_comment :: "string \<Rightarrow> string option" where
  "parse_owned_comment body =
     (case rsplit_once (CHR ''#'') body of None \<Rightarrow> None
      | Some (_, comment) \<Rightarrow>
          (case strip_prefix (trim comment) COMMENT_PREFIX of None \<Rightarrow> None
           | Some rest \<Rightarrow> let rule_id = trim rest in
               if rule_id = [] \<or> \<not> list_all rule_id_char rule_id then None else Some rule_id))"

text \<open>Only lines that start with a bracket are split, so the number starts at the second byte.\<close>

definition split_numbered_rule :: "string \<Rightarrow> (u32 \<times> string) option" where
  "split_numbered_rule line =
     (case split_once (CHR '']'') line of None \<Rightarrow> None
      | Some (opening, rest) \<Rightarrow>
          (case parse_unsigned 32 (trim (tl opening)) of None \<Rightarrow> None
           | Some n \<Rightarrow> Some (of_nat n, trim rest)))"

fun collect_rules :: "string list \<Rightarrow> UfwObservedRule list \<times> string list" where
  "collect_rules [] = ([], [])"
| "collect_rules (line # rest) =
     (let (owned, foreign) = collect_rules rest
      in case split_numbered_rule line of None \<Rightarrow> (owned, foreign)
         | Some (number, body) \<Rightarrow>
             (case parse_owned_comment body of
                Some rule_id \<Rightarrow> (\<lparr>uo_number = number, uo_id = rule_id, uo_summary = bounded_summary body\<rparr> # owned, foreign)
              | None \<Rightarrow> (owned, bounded_summary body # foreign)))"

definition status_line_active :: "string \<Rightarrow> bool" where
  "status_line_active line =
     (case strip_prefix (trim line) ''Status:'' of None \<Rightarrow> False | Some v \<Rightarrow> eq_ignore_ascii_case (trim v) ''active'')"

definition snapshot_parse :: "'net ufw_library \<Rightarrow> string \<Rightarrow> UfwSnapshot" where
  "snapshot_parse lib out =
     (let (owned, foreign) = collect_rules (filter (\<lambda>line. starts_with line ''['') (map trim (str_lines out)))
      in \<lparr>us_active = list_ex status_line_active (str_lines out), us_fingerprint = ul_sha256_hex lib out,
          us_owned_rules = owned, us_foreign_rules = foreign\<rparr>)"

section \<open>The controller\<close>

datatype 'net UfwMutation = UfwAdd (mutation_rule: "'net UfwRule") | UfwRemove (mutation_rule: "'net UfwRule")

record 'net UfwPlan =
  up_before_fingerprint :: string
  up_mutation :: "'net UfwMutation"
  up_ssh_port :: u16

type_synonym 'h ufw_executor = "string list \<Rightarrow> 'h \<Rightarrow> (CommandError + CommandOutput) \<times> 'h"

definition system_ufw_executor :: "'h command_host \<Rightarrow> 'h ufw_executor" where
  "system_ufw_executor host arguments = run_command host Ufw arguments None []"

definition run_ufw :: "'h ufw_executor \<Rightarrow> string list \<Rightarrow> 'h \<Rightarrow> (UfwError + CommandOutput) \<times> 'h" where
  "run_ufw ex arguments h = (case ex arguments h of (r, h') \<Rightarrow> (map_err UfwCommand r, h'))"

definition run_audited :: "'h ufw_executor \<Rightarrow> string list \<Rightarrow> 'h \<Rightarrow> (UfwError + CommandAudit) \<times> 'h" where
  "run_audited ex arguments h = then_call (run_ufw ex arguments h) (\<lambda>out h. (Inr (co_audit out), h))"

definition status_arguments :: "string list" where
  "status_arguments = [''status'', ''numbered'']"

definition delete_arguments :: "u32 \<Rightarrow> string list" where
  "delete_arguments number = [''--force'', ''delete'', show_nat (unat number)]"

definition ufw_snapshot :: "'net ufw_library \<Rightarrow> 'h ufw_executor \<Rightarrow> 'h \<Rightarrow> (UfwError + UfwSnapshot \<times> CommandAudit) \<times> 'h" where
  "ufw_snapshot lib ex h =
     then_call (run_ufw ex status_arguments h) (\<lambda>out h. (Inr (snapshot_parse lib (co_stdout out), co_audit out), h))"

definition rule_numbers :: "UfwSnapshot \<Rightarrow> string \<Rightarrow> u32 list" where
  "rule_numbers snapshot rule_id = map uo_number (filter (\<lambda>rule. uo_id rule = rule_id) (us_owned_rules snapshot))"

definition ufw_plan ::
  "firewall_mode \<Rightarrow> UfwSnapshot \<Rightarrow> 'net UfwMutation \<Rightarrow> u16 \<Rightarrow> UfwError + 'net UfwPlan" where
  "ufw_plan mode snapshot mutation ssh_port =
     and_then (reject_if (mode \<noteq> StandaloneUfw) OwnershipDenied) (\<lambda>_.
     and_then (reject_if (\<not> us_active snapshot) UfwInactive) (\<lambda>_.
     and_then (ufw_validate (mutation_rule mutation) ssh_port) (\<lambda>_.
     let matches = length (filter (\<lambda>observed. uo_id observed = ur_id (mutation_rule mutation)) (us_owned_rules snapshot)) in
     and_then (case mutation of
         UfwAdd _ \<Rightarrow> reject_if (matches \<noteq> 0) (RuleIdentity IdExists)
       | UfwRemove _ \<Rightarrow> reject_if (matches \<noteq> 1) (RuleIdentity NotExactlyOne)) (\<lambda>_.
     Inr \<lparr>up_before_fingerprint = us_fingerprint snapshot, up_mutation = mutation, up_ssh_port = ssh_port\<rparr>))))"

definition ufw_dry_run ::
  "'net ufw_library \<Rightarrow> 'h ufw_executor \<Rightarrow> 'net UfwPlan \<Rightarrow> 'h \<Rightarrow> (UfwError + CommandAudit list) \<times> 'h" where
  "ufw_dry_run lib ex plan h = (case up_mutation plan of
     UfwAdd rule \<Rightarrow> then_call (run_audited ex (add_arguments lib rule True) h) (\<lambda>audit h. (Inr [audit], h))
   | UfwRemove _ \<Rightarrow> (Inr [], h))"

definition unique_rule_number :: "UfwSnapshot \<Rightarrow> string \<Rightarrow> UfwError + u32" where
  "unique_rule_number snapshot rule_id = (case rule_numbers snapshot rule_id of
     [number] \<Rightarrow> Inr number | _ \<Rightarrow> Inl (RuleIdentity (NoUniqueRule rule_id)))"

definition delete_rule ::
  "'h ufw_executor \<Rightarrow> UfwSnapshot \<Rightarrow> string \<Rightarrow> 'h \<Rightarrow> (UfwError + CommandAudit) \<times> 'h" where
  "delete_rule ex snapshot rule_id h =
     then_call (unique_rule_number snapshot rule_id, h) (\<lambda>number. run_audited ex (delete_arguments number))"

definition run_mutation ::
  "'net ufw_library \<Rightarrow> 'h ufw_executor \<Rightarrow> UfwSnapshot \<Rightarrow> 'net UfwPlan \<Rightarrow> 'h \<Rightarrow> (UfwError + CommandAudit) \<times> 'h" where
  "run_mutation lib ex before plan h = (case up_mutation plan of
     UfwAdd rule \<Rightarrow> run_audited ex (add_arguments lib rule False) h
   | UfwRemove rule \<Rightarrow> delete_rule ex before (ur_id rule) h)"

definition verifies_transition :: "UfwSnapshot \<Rightarrow> UfwSnapshot \<Rightarrow> 'net UfwPlan \<Rightarrow> bool" where
  "verifies_transition before after plan \<longleftrightarrow>
     us_active after \<and> us_foreign_rules before = us_foreign_rules after
     \<and> (let count = length (filter (\<lambda>rule. uo_id rule = ur_id (mutation_rule (up_mutation plan))) (us_owned_rules after))
        in case up_mutation plan of UfwAdd _ \<Rightarrow> count = 1 | UfwRemove _ \<Rightarrow> count = 0)"

definition owned_rule_ids :: "UfwSnapshot \<Rightarrow> string list" where
  "owned_rule_ids snapshot = sort (map uo_id (us_owned_rules snapshot))"

definition undo_mutation ::
  "'net ufw_library \<Rightarrow> 'h ufw_executor \<Rightarrow> UfwSnapshot \<Rightarrow> 'net UfwPlan \<Rightarrow> 'h \<Rightarrow> (UfwError + CommandAudit) \<times> 'h" where
  "undo_mutation lib ex current plan h = (case up_mutation plan of
     UfwAdd rule \<Rightarrow> delete_rule ex current (ur_id rule) h
   | UfwRemove rule \<Rightarrow> run_audited ex (add_arguments lib rule False) h)"

definition rollback_transition ::
  "'net ufw_library \<Rightarrow> 'h ufw_executor \<Rightarrow> UfwSnapshot \<Rightarrow> UfwSnapshot \<Rightarrow> 'net UfwPlan \<Rightarrow> 'h
   \<Rightarrow> (UfwError + CommandAudit list) \<times> 'h" where
  "rollback_transition lib ex before current plan h =
     then_call (undo_mutation lib ex current plan h) (\<lambda>audit h.
     then_call (ufw_snapshot lib ex h) (\<lambda>(restored, readback) h.
       (if us_active restored = us_active before \<and> us_foreign_rules restored = us_foreign_rules before
           \<and> owned_rule_ids restored = owned_rule_ids before
        then Inr [audit, readback] else Inl RollbackFailed, h)))"

definition apply_from ::
  "'net ufw_library \<Rightarrow> 'h ufw_executor \<Rightarrow> 'net UfwPlan \<Rightarrow> UfwSnapshot \<Rightarrow> CommandAudit \<Rightarrow> 'h
   \<Rightarrow> (UfwError + CommandAudit list) \<times> 'h" where
  "apply_from lib ex plan before before_audit h =
     then_call (ufw_dry_run lib ex plan h) (\<lambda>dry_audits h.
     then_call (run_mutation lib ex before plan h) (\<lambda>mutation_audit h.
     then_call (ufw_snapshot lib ex h) (\<lambda>(after, after_audit) h.
       if verifies_transition before after plan
       then (Inr ([before_audit] @ dry_audits @ [mutation_audit, after_audit]), h)
       else case rollback_transition lib ex before after plan h of
              (Inr _, h) \<Rightarrow> (Inl VerificationFailed, h)
            | (Inl _, h) \<Rightarrow> (Inl RollbackFailed, h))))"

definition ufw_apply ::
  "'net ufw_library \<Rightarrow> 'h ufw_executor \<Rightarrow> 'net UfwPlan \<Rightarrow> 'h \<Rightarrow> (UfwError + CommandAudit list) \<times> 'h" where
  "ufw_apply lib ex plan h =
     then_call (ufw_snapshot lib ex h) (\<lambda>(before, before_audit) h.
       if us_fingerprint before \<noteq> up_before_fingerprint plan then (Inl SnapshotChanged, h)
       else apply_from lib ex plan before before_audit h)"

section \<open>The command line and its check agree\<close>

lemma ufw_validate_iff:
  "ufw_validate rule ssh_port = Inr () \<longleftrightarrow>
     ur_id rule \<noteq> [] \<and> length (ur_id rule) \<le> 48 \<and> list_all rule_id_char (ur_id rule) \<and> ur_destination_port rule \<noteq> Some 0
     \<and> \<not> (ur_action rule = UfwDeny \<and> (ur_destination_port rule = Some ssh_port
            \<or> ur_source rule = None \<and> ur_destination_port rule = None))
     \<and> (ur_destination_port rule = None \<longrightarrow> ur_protocol rule = UfwAny)"
  by (auto simp: ufw_validate_def outcome_simps)

lemma parse_add_arguments:
  assumes "\<And>n. ul_parse_net lib (ul_show_net lib n) = Some n"
  shows "parse_ufw_add_arguments lib (add_arguments lib rule dry_run) = Inr rule"
proof -
  have port: "parse_unsigned 16 (show_nat (unat p)) = Some (unat p)" for p :: u16
    using unat_less_pow [of p] by (intro parse_show_nat) simp
  have comment: "strip_prefix (rule_comment rule) COMMENT_PREFIX = Some (ur_id rule)"
    by (simp add: strip_prefix_Some_iff rule_comment_def)
  show ?thesis
    by (cases "ur_action rule"; cases "ur_source rule"; cases "ur_destination_port rule"; cases "ur_protocol rule")
       (simp_all add: parse_ufw_add_arguments_def add_arguments_def skip_dry_run_def take_source_def take_destination_def
          take_port_def take_protocol_def take_comment_def assms port comment reject_if_def)
qed

section \<open>What an applied change guarantees\<close>

lemma run_ufw_Inr: "run_ufw ex arguments h = (Inr out, h') \<longleftrightarrow> ex arguments h = (Inr out, h')"
  by (auto simp: run_ufw_def outcome_simps split: prod.splits)

lemma ufw_snapshot_Inl: "ufw_snapshot lib ex h = (Inl e, h') \<Longrightarrow> \<exists>c. e = UfwCommand c"
  by (auto simp: ufw_snapshot_def run_ufw_def then_call_Inl outcome_simps split: prod.splits)

lemma run_audited_Inl: "run_audited ex arguments h = (Inl e, h') \<Longrightarrow> \<exists>c. e = UfwCommand c"
  by (auto simp: run_audited_def run_ufw_def then_call_Inl outcome_simps split: prod.splits)

lemma delete_rule_Inl: "delete_rule ex snapshot rule_id h = (Inl e, h') \<Longrightarrow> (\<exists>c. e = UfwCommand c) \<or> (\<exists>i. e = RuleIdentity i)"
  by (auto simp: delete_rule_def unique_rule_number_def then_call_Inl split: list.splits dest: run_audited_Inl)

lemma run_mutation_Inl:
  "run_mutation lib ex before plan h = (Inl e, h') \<Longrightarrow> (\<exists>c. e = UfwCommand c) \<or> (\<exists>i. e = RuleIdentity i)"
  by (auto simp: run_mutation_def split: UfwMutation.splits dest: run_audited_Inl delete_rule_Inl)

lemma ufw_dry_run_Inl: "ufw_dry_run lib ex plan h = (Inl e, h') \<Longrightarrow> \<exists>c. e = UfwCommand c"
  by (auto simp: ufw_dry_run_def then_call_Inl split: UfwMutation.splits dest: run_audited_Inl)

lemma sort_eq_mset: "sort xs = sort ys \<longleftrightarrow> mset xs = mset (ys :: 'a::linorder list)"
  by (metis mset_sort properties_for_sort sorted_sort)

definition rules_with_id :: "UfwSnapshot \<Rightarrow> string \<Rightarrow> nat" where
  "rules_with_id snapshot rule_id = count (mset (map uo_id (us_owned_rules snapshot))) rule_id"

lemma rules_with_id_filter: "length (filter (\<lambda>r. uo_id r = i) (us_owned_rules s)) = rules_with_id s i"
proof -
  have "length (filter (\<lambda>r. uo_id r = i) rs) = count (mset (map uo_id rs)) i" for rs
    by (induction rs) auto
  then show ?thesis by (simp add: rules_with_id_def)
qed

definition passing_error :: "UfwError \<Rightarrow> bool" where
  "passing_error e \<longleftrightarrow> (\<exists>c. e = UfwCommand c) \<or> (\<exists>i. e = RuleIdentity i)"

lemma step_errors:
  "ufw_snapshot lib ex h = (Inl e, h') \<Longrightarrow> passing_error e"
  "ufw_dry_run lib ex plan h = (Inl e, h') \<Longrightarrow> passing_error e"
  "run_mutation lib ex before plan h = (Inl e, h') \<Longrightarrow> passing_error e"
  by (auto simp: passing_error_def dest: ufw_snapshot_Inl ufw_dry_run_Inl run_mutation_Inl)

lemma apply_from_elim:
  assumes "apply_from lib ex plan before b h = (r, h')"
  obtains (early) e where "r = Inl e" "passing_error e"
  | (verified) after a h2 audits where "ufw_snapshot lib ex h2 = (Inr (after, a), h')"
      "verifies_transition before after plan" "r = Inr audits"
  | (restored) after h3 undo where "rollback_transition lib ex before after plan h3 = (Inr undo, h')"
      "r = Inl VerificationFailed"
  | (stuck) "r = Inl RollbackFailed"
  using assms unfolding apply_from_def
proof (cases rule: then_call_elim)
  case (stop e)
  show ?thesis by (rule early [OF stop(2) step_errors(2) [OF stop(1)]])
next
  case (go d h2)
  from go(2) show ?thesis
  proof (cases rule: then_call_elim)
    case (stop e)
    show ?thesis by (rule early [OF stop(2) step_errors(3) [OF stop(1)]])
  next
    case (go m h3)
    from go(2) show ?thesis
    proof (cases rule: then_call_elim)
      case (stop e)
      show ?thesis by (rule early [OF stop(2) step_errors(1) [OF stop(1)]])
    next
      case (go y h4)
      obtain after a where y: "y = (after, a)" by (cases y)
      obtain r5 h5 where s5: "rollback_transition lib ex before after plan h4 = (r5, h5)" by fastforce
      show ?thesis
      proof (cases "verifies_transition before after plan")
        case True
        with go y have "ufw_snapshot lib ex h3 = (Inr (after, a), h')" "r = Inr ([b] @ d @ [m, a])" by simp_all
        with True show ?thesis by (intro verified)
      next
        case False
        with go(2) y s5 restored [of after h4] stuck show ?thesis by (cases r5) simp_all
      qed
    qed
  qed
qed

lemma ufw_apply_elim:
  assumes "ufw_apply lib ex plan h = (r, h')"
  obtains (early) e where "r = Inl e" "passing_error e"
  | (changed) before b where "ufw_snapshot lib ex h = (Inr (before, b), h')"
      "us_fingerprint before \<noteq> up_before_fingerprint plan" "r = Inl SnapshotChanged"
  | (applied) before b h1 where "ufw_snapshot lib ex h = (Inr (before, b), h1)"
      "us_fingerprint before = up_before_fingerprint plan" "apply_from lib ex plan before b h1 = (r, h')"
  using assms unfolding ufw_apply_def
proof (cases rule: then_call_elim)
  case (stop e)
  show ?thesis by (rule early [OF stop(2) step_errors(1) [OF stop(1)]])
next
  case (go x h1)
  obtain before b where x: "x = (before, b)" by (cases x)
  show ?thesis
  proof (cases "us_fingerprint before = up_before_fingerprint plan")
    case True
    with go x show ?thesis by (intro applied [of before b h1]) simp_all
  next
    case False
    with go x show ?thesis by (intro changed [of before b]) simp_all
  qed
qed

end
