(* ===== verification/Ufw_Host.thy ===== *)
theory Ufw_Host
  imports Ufw_Control
begin

text \<open>
  The firewall controller on a host whose \<open>ufw\<close> behaves as its manual says: the laws of that
  program, the refinement of the controller to the abstract change of the rule list, what the
  controller does on a host with IPv6, and a small host that satisfies the laws.
\<close>

section \<open>The laws of the program\<close>

text \<open>
  What the manual of \<open>ufw\<close> promises, for a host whose firewall is a list of rules: the status
  shows all of them in order with their numbers, a dry run changes nothing, an addition appends the
  lines of the new rule with its comment, and a deletion removes the line with the given number. One
  rule may be shown as several lines; \<open>added\<close> gives the lines of a rule.
\<close>

record ufw_entry =
  fe_owner :: "string option"
  fe_summary :: string

fun owned_from :: "nat \<Rightarrow> ufw_entry list \<Rightarrow> UfwObservedRule list" where
  "owned_from k [] = []"
| "owned_from k (e # es) =
     (case fe_owner e of None \<Rightarrow> [] | Some i \<Rightarrow> [\<lparr>uo_number = of_nat k, uo_id = i, uo_summary = fe_summary e\<rparr>])
     @ owned_from (Suc k) es"

definition foreign_of :: "ufw_entry list \<Rightarrow> string list" where
  "foreign_of es = map fe_summary (filter (\<lambda>e. fe_owner e = None) es)"

definition owned_by :: "string \<Rightarrow> ufw_entry \<Rightarrow> bool" where
  "owned_by rule_id e \<longleftrightarrow> fe_owner e = Some rule_id"

record ('net, 'h) ufw_semantics =
  sem_good :: "'h \<Rightarrow> bool"
  sem_active :: "'h \<Rightarrow> bool"
  sem_rules :: "'h \<Rightarrow> ufw_entry list"
  sem_status :: "bool \<Rightarrow> ufw_entry list \<Rightarrow> string"
  sem_added :: "'net UfwRule \<Rightarrow> ufw_entry list"

definition leads_to :: "('net, 'h) ufw_semantics \<Rightarrow> 'h ufw_executor \<Rightarrow> string list \<Rightarrow> 'h \<Rightarrow> ufw_entry list \<Rightarrow> bool" where
  "leads_to sem ex arguments h es \<longleftrightarrow>
     (\<exists>out h'. ex arguments h = (Inr out, h') \<and> sem_good sem h' \<and> sem_active sem h' = sem_active sem h \<and> sem_rules sem h' = es)"

definition ufw_status_law :: "'net ufw_library \<Rightarrow> ('net, 'h) ufw_semantics \<Rightarrow> 'h ufw_executor \<Rightarrow> bool" where
  "ufw_status_law lib sem ex \<longleftrightarrow>
     (\<forall>h. sem_good sem h \<longrightarrow> leads_to sem ex status_arguments h (sem_rules sem h))
     \<and> (\<forall>h out h'. sem_good sem h \<and> ex status_arguments h = (Inr out, h')
          \<longrightarrow> co_stdout out = sem_status sem (sem_active sem h) (sem_rules sem h))
     \<and> (\<forall>h. sem_good sem h \<and> length (sem_rules sem h) < 2 ^ 32 \<longrightarrow>
          (let s = snapshot_parse lib (sem_status sem (sem_active sem h) (sem_rules sem h))
           in us_active s = sem_active sem h \<and> us_owned_rules s = owned_from 1 (sem_rules sem h)
              \<and> us_foreign_rules s = foreign_of (sem_rules sem h)))"

definition ufw_change_law :: "'net ufw_library \<Rightarrow> ('net, 'h) ufw_semantics \<Rightarrow> 'h ufw_executor \<Rightarrow> bool" where
  "ufw_change_law lib sem ex \<longleftrightarrow>
     (\<forall>h rule ssh_port. sem_good sem h \<and> ufw_validate rule ssh_port = Inr ()
        \<longrightarrow> leads_to sem ex (add_arguments lib rule True) h (sem_rules sem h)
          \<and> leads_to sem ex (add_arguments lib rule False) h (sem_rules sem h @ sem_added sem rule))
     \<and> (\<forall>h n. sem_good sem h \<and> n < length (sem_rules sem h) \<and> Suc n < 2 ^ 32
        \<longrightarrow> leads_to sem ex (delete_arguments (of_nat (Suc n))) h (take n (sem_rules sem h) @ drop (Suc n) (sem_rules sem h)))
     \<and> (\<forall>rule. \<forall>e \<in> set (sem_added sem rule). owned_by (ur_id rule) e)"

lemma owned_from_append: "owned_from k (xs @ ys) = owned_from k xs @ owned_from (k + length xs) ys"
  by (induction xs arbitrary: k) auto

lemma owned_from_count: "length (filter (\<lambda>r. uo_id r = i) (owned_from k es)) = length (filter (owned_by i) es)"
  by (induction es arbitrary: k) (auto simp: owned_by_def split: option.splits)

lemma foreign_of_append: "foreign_of (xs @ ys) = foreign_of xs @ foreign_of ys"
  by (simp add: foreign_of_def)

lemma foreign_of_owned: "\<forall>e \<in> set es. owned_by i e \<Longrightarrow> foreign_of es = []"
  by (auto simp: foreign_of_def owned_by_def filter_empty_conv)

lemma foreign_of_remove: "foreign_of (filter (\<lambda>e. \<not> owned_by i e) es) = foreign_of es"
  by (induction es) (auto simp: foreign_of_def owned_by_def)

lemma unique_position:
  assumes "length (filter (owned_by i) es) = 1"
  shows "\<exists>n < length es. map uo_number (filter (\<lambda>r. uo_id r = i) (owned_from k es)) = [of_nat (k + n)]
           \<and> take n es @ drop (Suc n) es = filter (\<lambda>e. \<not> owned_by i e) es"
  using assms
proof (induction es arbitrary: k)
  case (Cons e es)
  show ?case
  proof (cases "owned_by i e")
    case True
    with Cons.prems have none: "filter (owned_by i) es = []" by simp
    then have "filter (\<lambda>r. uo_id r = i) (owned_from (Suc k) es) = []"
      using owned_from_count [of i "Suc k" es] by simp
    moreover have "filter (\<lambda>e. \<not> owned_by i e) es = es" using none by (auto simp: filter_empty_conv filter_id_conv)
    ultimately show ?thesis using True by (intro exI [of _ 0]) (simp add: owned_by_def)
  next
    case False
    with Cons.prems Cons.IH [of "Suc k"] obtain n where n: "n < length es"
      "map uo_number (filter (\<lambda>r. uo_id r = i) (owned_from (Suc k) es)) = [of_nat (Suc k + n)]"
      "take n es @ drop (Suc n) es = filter (\<lambda>e. \<not> owned_by i e) es" by auto
    with False show ?thesis
      by (intro exI [of _ "Suc n"]) (auto simp: owned_by_def split: option.splits)
  qed
qed simp

lemma snapshot_of_rules:
  assumes "ufw_status_law lib sem ex" and "sem_good sem h" and "length (sem_rules sem h) < 2 ^ 32"
  obtains s a h' where "ufw_snapshot lib ex h = (Inr (s, a), h')" "sem_good sem h'" "sem_active sem h' = sem_active sem h"
    "sem_rules sem h' = sem_rules sem h" "us_active s = sem_active sem h"
    "us_owned_rules s = owned_from 1 (sem_rules sem h)" "us_foreign_rules s = foreign_of (sem_rules sem h)"
    "us_fingerprint s = ul_sha256_hex lib (sem_status sem (sem_active sem h) (sem_rules sem h))"
proof -
  from assms obtain out h' where run: "ex status_arguments h = (Inr out, h')" "sem_good sem h'"
    "sem_active sem h' = sem_active sem h" "sem_rules sem h' = sem_rules sem h"
    by (auto simp: ufw_status_law_def leads_to_def)
  let ?t = "sem_status sem (sem_active sem h) (sem_rules sem h)"
  from run(1) assms(1,2) have out: "co_stdout out = ?t" unfolding ufw_status_law_def by blast
  have facts: "us_active (snapshot_parse lib ?t) = sem_active sem h"
    "us_owned_rules (snapshot_parse lib ?t) = owned_from 1 (sem_rules sem h)"
    "us_foreign_rules (snapshot_parse lib ?t) = foreign_of (sem_rules sem h)"
    using assms unfolding ufw_status_law_def Let_def by blast+
  have print: "us_fingerprint (snapshot_parse lib ?t) = ul_sha256_hex lib ?t"
    by (simp add: snapshot_parse_def split: prod.splits)
  have "ufw_snapshot lib ex h = (Inr (snapshot_parse lib ?t, co_audit out), h')"
    using run(1) out by (simp add: ufw_snapshot_def run_ufw_def)
  then show ?thesis by (rule that [OF _ run(2-4) facts print])
qed

lemma run_audited_leads:
  assumes "leads_to sem ex arguments h es"
  obtains a h' where "run_audited ex arguments h = (Inr a, h')" "sem_good sem h'" "sem_active sem h' = sem_active sem h"
    "sem_rules sem h' = es"
  using assms by (auto simp: leads_to_def run_audited_def run_ufw_def)

lemma added_facts:
  assumes "ufw_change_law lib sem ex"
  shows "foreign_of (es @ sem_added sem rule) = foreign_of es"
    and "filter (owned_by (ur_id rule)) (sem_added sem rule) = sem_added sem rule"
  using assms by (auto simp: ufw_change_law_def foreign_of_append foreign_of_owned [of _ "ur_id rule"])

text \<open>An addition up to the status that follows it.\<close>

lemma apply_add_steps:
  assumes laws: "ufw_status_law lib sem ex" "ufw_change_law lib sem ex"
    and h: "sem_good sem h" "sem_active sem h" "length (sem_rules sem h) + length (sem_added sem rule) < 2 ^ 32"
    and valid: "ufw_validate rule ssh_port = Inr ()" and new: "filter (owned_by (ur_id rule)) (sem_rules sem h) = []"
    and plan: "up_mutation plan = UfwAdd rule"
  obtains before after h1 b h4 d m a where "apply_from lib ex plan before b h1 =
      (if verifies_transition before after plan then (Inr ([b] @ d @ [m, a]), h4)
       else case rollback_transition lib ex before after plan h4 of
              (Inr _, h) \<Rightarrow> (Inl VerificationFailed, h) | (Inl _, h) \<Rightarrow> (Inl RollbackFailed, h))"
    "ufw_snapshot lib ex h = (Inr (before, b), h1)"
    "us_fingerprint before = ul_sha256_hex lib (sem_status sem (sem_active sem h) (sem_rules sem h))"
    "us_foreign_rules before = us_foreign_rules after" "us_active after" "sem_good sem h4" "sem_active sem h4"
    "sem_rules sem h4 = sem_rules sem h @ sem_added sem rule" "rules_with_id after (ur_id rule) = length (sem_added sem rule)"
proof -
  have len: "length (sem_rules sem h) < 2 ^ 32" using h(3) by simp
  obtain before b h1 where s1: "ufw_snapshot lib ex h = (Inr (before, b), h1)" "sem_good sem h1" "sem_active sem h1"
    "sem_rules sem h1 = sem_rules sem h" "us_foreign_rules before = foreign_of (sem_rules sem h)"
    "us_fingerprint before = ul_sha256_hex lib (sem_status sem (sem_active sem h) (sem_rules sem h))"
    using snapshot_of_rules [OF laws(1) h(1) len] h(2) by metis
  from laws(2) s1(2) valid have "leads_to sem ex (add_arguments lib rule True) h1 (sem_rules sem h1)"
    by (auto simp: ufw_change_law_def)
  then obtain d h2 where s2: "run_audited ex (add_arguments lib rule True) h1 = (Inr d, h2)" "sem_good sem h2"
    "sem_active sem h2" "sem_rules sem h2 = sem_rules sem h" using s1 by (auto elim: run_audited_leads)
  from laws(2) s2(2) valid have "leads_to sem ex (add_arguments lib rule False) h2 (sem_rules sem h2 @ sem_added sem rule)"
    by (auto simp: ufw_change_law_def)
  then obtain m h3 where s3: "run_audited ex (add_arguments lib rule False) h2 = (Inr m, h3)" "sem_good sem h3"
    "sem_active sem h3" "sem_rules sem h3 = sem_rules sem h @ sem_added sem rule" using s2 by (auto elim: run_audited_leads)
  have len3: "length (sem_rules sem h3) < 2 ^ 32" using h(3) s3(4) by simp
  obtain after a h4 where s4: "ufw_snapshot lib ex h3 = (Inr (after, a), h4)" "sem_good sem h4" "sem_active sem h4"
    "sem_rules sem h4 = sem_rules sem h3" "us_active after" "us_owned_rules after = owned_from 1 (sem_rules sem h3)"
    "us_foreign_rules after = foreign_of (sem_rules sem h3)"
    using snapshot_of_rules [OF laws(1) s3(2) len3] s3(3) by metis
  have "rules_with_id after (ur_id rule) = length (sem_added sem rule)"
    using s4(6) s3(4) new added_facts [OF laws(2)] by (simp add: rules_with_id_filter [symmetric] owned_from_count)
  moreover have "us_foreign_rules before = us_foreign_rules after"
    using s1(5) s4(7) s3(4) added_facts [OF laws(2)] by simp
  moreover have "apply_from lib ex plan before b h1 =
      (if verifies_transition before after plan then (Inr ([b] @ [d] @ [m, a]), h4)
       else case rollback_transition lib ex before after plan h4 of
              (Inr _, h) \<Rightarrow> (Inl VerificationFailed, h) | (Inl _, h) \<Rightarrow> (Inl RollbackFailed, h))"
    using s2(1) s3(1) s4(1) plan by (simp add: apply_from_def ufw_dry_run_def run_mutation_def)
  ultimately show ?thesis using s1 s3 s4 by (intro that [of before b h1 after "[d]" m a h4]) simp_all
qed

lemma apply_add_single:
  assumes laws: "ufw_status_law lib sem ex" "ufw_change_law lib sem ex"
    and h: "sem_good sem h" "sem_active sem h" "length (sem_rules sem h) + length (sem_added sem rule) < 2 ^ 32"
    and valid: "ufw_validate rule ssh_port = Inr ()" and new: "filter (owned_by (ur_id rule)) (sem_rules sem h) = []"
    and plan: "up_mutation plan = UfwAdd rule" and single: "length (sem_added sem rule) = 1"
    and fresh: "up_before_fingerprint plan = ul_sha256_hex lib (sem_status sem (sem_active sem h) (sem_rules sem h))"
  shows "\<exists>audits h'. ufw_apply lib ex plan h = (Inr audits, h') \<and> sem_good sem h' \<and> sem_active sem h'
     \<and> sem_rules sem h' = sem_rules sem h @ sem_added sem rule"
proof -
  obtain before after h2 b h4 d m a where steps: "apply_from lib ex plan before b h2 =
      (if verifies_transition before after plan then (Inr ([b] @ d @ [m, a]), h4)
       else case rollback_transition lib ex before after plan h4 of
              (Inr _, h) \<Rightarrow> (Inl VerificationFailed, h) | (Inl _, h) \<Rightarrow> (Inl RollbackFailed, h))"
    "ufw_snapshot lib ex h = (Inr (before, b), h2)"
    "us_fingerprint before = ul_sha256_hex lib (sem_status sem (sem_active sem h) (sem_rules sem h))"
    "us_foreign_rules before = us_foreign_rules after" "us_active after" "sem_good sem h4" "sem_active sem h4"
    "sem_rules sem h4 = sem_rules sem h @ sem_added sem rule" "rules_with_id after (ur_id rule) = length (sem_added sem rule)"
    by (rule apply_add_steps [OF laws h valid new plan])
  from steps(4,5,9) plan single have "verifies_transition before after plan"
    by (simp add: verifies_transition_def Let_def rules_with_id_filter)
  with steps fresh show ?thesis by (simp add: ufw_apply_def)
qed

lemma apply_remove_steps:
  assumes laws: "ufw_status_law lib sem ex" "ufw_change_law lib sem ex"
    and h: "sem_good sem h" "sem_active sem h" "length (sem_rules sem h) < 2 ^ 32 - 1"
    and unique: "length (filter (owned_by (ur_id rule)) (sem_rules sem h)) = 1"
    and plan: "up_mutation plan = UfwRemove rule"
    and fresh: "up_before_fingerprint plan = ul_sha256_hex lib (sem_status sem (sem_active sem h) (sem_rules sem h))"
  shows "\<exists>audits h'. ufw_apply lib ex plan h = (Inr audits, h') \<and> sem_good sem h' \<and> sem_active sem h'
     \<and> sem_rules sem h' = filter (\<lambda>e. \<not> owned_by (ur_id rule) e) (sem_rules sem h)"
proof -
  let ?es = "sem_rules sem h" and ?i = "ur_id rule"
  have len: "length ?es < 2 ^ 32" using h(3) by simp
  obtain before b h1 where s1: "ufw_snapshot lib ex h = (Inr (before, b), h1)" "sem_good sem h1" "sem_active sem h1"
    "sem_rules sem h1 = ?es" "us_owned_rules before = owned_from 1 ?es" "us_foreign_rules before = foreign_of ?es"
    "us_fingerprint before = up_before_fingerprint plan"
    using snapshot_of_rules [OF laws(1) h(1) len] h(2) fresh by metis
  from unique_position [OF unique, of 1] obtain n where n: "n < length ?es"
    "rule_numbers before ?i = [of_nat (Suc n)]" "take n ?es @ drop (Suc n) ?es = filter (\<lambda>e. \<not> owned_by ?i e) ?es"
    using s1(5) by (auto simp: rule_numbers_def)
  have "n < length (sem_rules sem h1)" "Suc n < 2 ^ 32" using n(1) s1(4) h(3) by simp_all
  with laws(2) s1(2) have "leads_to sem ex (delete_arguments (of_nat (Suc n))) h1 (take n (sem_rules sem h1) @ drop (Suc n) (sem_rules sem h1))"
    unfolding ufw_change_law_def by blast
  then obtain m h2 where s2: "run_audited ex (delete_arguments (of_nat (Suc n))) h1 = (Inr m, h2)" "sem_good sem h2"
    "sem_active sem h2" "sem_rules sem h2 = filter (\<lambda>e. \<not> owned_by ?i e) ?es" using s1(3,4) n(3) by (elim run_audited_leads) simp
  have len2: "length (sem_rules sem h2) < 2 ^ 32" using len s2(4) length_filter_le order_le_less_trans by metis
  obtain after a h3 where s3: "ufw_snapshot lib ex h2 = (Inr (after, a), h3)" "sem_good sem h3" "sem_active sem h3"
    "sem_rules sem h3 = sem_rules sem h2" "us_active after" "us_owned_rules after = owned_from 1 (sem_rules sem h2)"
    "us_foreign_rules after = foreign_of (sem_rules sem h2)"
    using snapshot_of_rules [OF laws(1) s2(2) len2] s2(3) by metis
  have "verifies_transition before after plan"
    using plan s1(6) s3(5-7) s2(4)
    by (simp add: verifies_transition_def Let_def owned_from_count foreign_of_remove)
  then have "ufw_apply lib ex plan h = (Inr ([b] @ [] @ [m, a]), h3)"
    using s1(1,7) s2(1) s3(1) n(2) plan
    by (simp add: ufw_apply_def apply_from_def ufw_dry_run_def run_mutation_def delete_rule_def unique_rule_number_def)
  with s2 s3 show ?thesis by auto
qed


text \<open>
  With IPv6 enabled the same program shows a rule without a source as two lines, one for each address
  family, both with the comment of the rule. Then every planned addition ends in a failed rollback:
  the rule is in place twice, the check expects it once, and the reversal refuses to delete because
  the identifier is not unique.
\<close>

theorem dual_stack_addition_left_behind:
  assumes "ufw_status_law lib sem ex" and "ufw_change_law lib sem ex" and "sem_good sem h" and "sem_active sem h"
    and "length (sem_rules sem h) + 2 < 2 ^ 32" and "length (sem_added sem rule) = 2"
    and "filter (owned_by (ur_id rule)) (sem_rules sem h) = []" and "ufw_validate rule ssh_port = Inr ()"
    and "plan = \<lparr>up_before_fingerprint = ul_sha256_hex lib (sem_status sem True (sem_rules sem h)),
                 up_mutation = UfwAdd rule, up_ssh_port = ssh_port\<rparr>"
  shows "\<exists>h'. ufw_apply lib ex plan h = (Inl RollbackFailed, h') \<and> sem_rules sem h' = sem_rules sem h @ sem_added sem rule"
proof -
  have add: "up_mutation plan = UfwAdd rule" "length (sem_rules sem h) + length (sem_added sem rule) < 2 ^ 32"
    using assms(5,6,9) by simp_all
  obtain before after h2 b h4 d m a where steps: "apply_from lib ex plan before b h2 =
      (if verifies_transition before after plan then (Inr ([b] @ d @ [m, a]), h4)
       else case rollback_transition lib ex before after plan h4 of
              (Inr _, h) \<Rightarrow> (Inl VerificationFailed, h) | (Inl _, h) \<Rightarrow> (Inl RollbackFailed, h))"
    "ufw_snapshot lib ex h = (Inr (before, b), h2)"
    "us_fingerprint before = ul_sha256_hex lib (sem_status sem (sem_active sem h) (sem_rules sem h))"
    "us_foreign_rules before = us_foreign_rules after" "us_active after" "sem_good sem h4" "sem_active sem h4"
    "sem_rules sem h4 = sem_rules sem h @ sem_added sem rule" "rules_with_id after (ur_id rule) = length (sem_added sem rule)"
    by (rule apply_add_steps [OF assms(1-4) add(2) assms(8,7) add(1)])
  have "\<not> verifies_transition before after plan"
    using steps(9) assms(6,9) by (simp add: verifies_transition_def Let_def rules_with_id_filter)
  moreover have "length (rule_numbers after (ur_id rule)) = 2"
    using steps(9) assms(6) by (simp add: rule_numbers_def rules_with_id_filter)
  then have "unique_rule_number after (ur_id rule) = Inl (RuleIdentity (NoUniqueRule (ur_id rule)))"
    by (auto simp: unique_rule_number_def split: list.splits)
  ultimately show ?thesis
    using steps assms(4,9)
    by (simp add: ufw_apply_def rollback_transition_def undo_mutation_def delete_rule_def)
qed

section \<open>A host that obeys the laws\<close>

definition sample_ufw_library :: "32 word ufw_library" where
  "sample_ufw_library = \<lparr>ul_show_net = show_ipv4, ul_parse_net = (\<lambda>s. case parse_ip s of Some (V4 w) \<Rightarrow> Some w | _ \<Rightarrow> None),
     ul_sha256_hex = (\<lambda>s. s)\<rparr>"

definition sample_row :: "nat \<Rightarrow> ufw_entry \<Rightarrow> string" where
  "sample_row k e = CHR ''['' # show_nat k @ CHR '']'' # fe_summary e"

fun sample_rows :: "nat \<Rightarrow> ufw_entry list \<Rightarrow> string list" where
  "sample_rows k [] = []"
| "sample_rows k (e # es) = sample_row k e # sample_rows (Suc k) es"

definition sample_status :: "bool \<Rightarrow> ufw_entry list \<Rightarrow> string" where
  "sample_status a es = concat (map (\<lambda>l. l @ [CHR 0x0A]) ((if a then ''Status: active'' else ''Status: inactive'') # sample_rows 1 es))"

definition clean_entry :: "ufw_entry \<Rightarrow> bool" where
  "clean_entry e \<longleftrightarrow> fe_summary e \<noteq> [] \<and> length (fe_summary e) \<le> 512 \<and> CHR 0x0A \<notin> set (fe_summary e)
     \<and> graphic (hd (fe_summary e)) \<and> graphic (last (fe_summary e)) \<and> parse_owned_comment (fe_summary e) = fe_owner e"

definition sample_output :: "string \<Rightarrow> CommandOutput" where
  "sample_output t = \<lparr>co_stdout = t, co_audit = \<lparr>ca_occurred_at = [], ca_program = program_path Ufw, ca_argv = [], ca_exit_code = Some 0, ca_duration_ms = 1\<rparr>\<rparr>"

definition sample_added :: "'net UfwRule \<Rightarrow> ufw_entry list" where
  "sample_added rule = [\<lparr>fe_owner = Some (ur_id rule), fe_summary = ''rule #'' @ rule_comment rule\<rparr>]"

definition sample_delete :: "string \<Rightarrow> bool \<times> ufw_entry list \<Rightarrow> (CommandError + CommandOutput) \<times> (bool \<times> ufw_entry list)" where
  "sample_delete n h = (case parse_unsigned 32 n of
     Some (Suc k) \<Rightarrow> (Inr (sample_output []), (fst h, take k (snd h) @ drop (Suc k) (snd h)))
   | _ \<Rightarrow> (Inl (CommandFailed (program_path Ufw) (Some 1) []), h))"

definition sample_ufw :: "(bool \<times> ufw_entry list) ufw_executor" where
  "sample_ufw arguments h =
     (if arguments = status_arguments then (Inr (sample_output (sample_status (fst h) (snd h))), h)
      else if take 2 arguments = [''--force'', ''delete''] then sample_delete (concat (drop 2 arguments)) h
      else case parse_ufw_add_arguments sample_ufw_library arguments of
             Inl _ \<Rightarrow> (Inl (CommandFailed (program_path Ufw) (Some 1) []), h)
           | Inr rule \<Rightarrow> (Inr (sample_output []),
               (fst h, if hd arguments = ''--dry-run'' then snd h else snd h @ sample_added rule)))"

definition sample_semantics :: "(32 word, bool \<times> ufw_entry list) ufw_semantics" where
  "sample_semantics = \<lparr>sem_good = (\<lambda>h. list_all clean_entry (snd h)), sem_active = fst, sem_rules = snd,
     sem_status = sample_status, sem_added = sample_added\<rparr>"

lemma sample_networks_codec: "ul_parse_net sample_ufw_library (ul_show_net sample_ufw_library n) = Some n"
  by (simp add: sample_ufw_library_def parse_show_ipv4)

lemma bracket_graphic: "graphic (CHR ''['')" "\<not> graphic (CHR 0x0D)"
  by code_simp+

lemma sample_row_line:
  assumes "clean_entry e"
  shows "trim (sample_row k e) = sample_row k e" "CHR 0x0A \<notin> set (sample_row k e)" "last (sample_row k e) \<noteq> CHR 0x0D"
proof -
  have "\<not> is_ascii_digit (CHR 0x0A)" by code_simp
  then show "CHR 0x0A \<notin> set (sample_row k e)" using assms digits_no by (auto simp: sample_row_def clean_entry_def)
  have "last (sample_row k e) = last (fe_summary e)" "hd (sample_row k e) = CHR ''[''" "sample_row k e \<noteq> []"
    using assms by (simp_all add: sample_row_def clean_entry_def)
  with assms bracket_graphic show "trim (sample_row k e) = sample_row k e" "last (sample_row k e) \<noteq> CHR 0x0D"
    by (auto simp: clean_entry_def intro: trim_graphic)
qed

lemma sample_rows_lines:
  "list_all clean_entry es \<Longrightarrow> str_lines (concat (map (\<lambda>l. l @ [CHR 0x0A]) (sample_rows k es))) = sample_rows k es
     \<and> map trim (sample_rows k es) = sample_rows k es"
proof (induction es arbitrary: k)
  case (Cons e es)
  then have "clean_entry e" by simp
  note row = sample_row_line [OF this]
  have "str_lines (sample_row k e @ CHR 0x0A # concat (map (\<lambda>l. l @ [CHR 0x0A]) (sample_rows (Suc k) es)))
    = sample_row k e # str_lines (concat (map (\<lambda>l. l @ [CHR 0x0A]) (sample_rows (Suc k) es)))"
    using row by (intro str_lines_Cons) simp_all
  with Cons row show ?case by simp
qed simp

lemma split_sample_row:
  assumes "clean_entry e" and "k < 2 ^ 32"
  shows "split_numbered_rule (sample_row k e) = Some (of_nat k, fe_summary e)"
proof -
  have "\<not> is_ascii_digit (CHR '']'')" by code_simp
  then have "split_once (CHR '']'') (sample_row k e) = Some (CHR ''['' # show_nat k, fe_summary e)"
    using digits_no by (auto simp: split_once_Some_iff sample_row_def)
  moreover have "graphic c" if "c \<in> set (show_nat k)" for c
    using that show_nat_digits [of k] alphanumeric_graphic [of c] by (simp add: list_all_iff is_ascii_alphanumeric_def)
  then have "trim (show_nat k) = show_nat k"
    by (intro trim_graphic) (simp_all add: hd_in_set last_in_set)
  moreover have "trim (fe_summary e) = fe_summary e" using assms(1) by (auto simp: clean_entry_def intro: trim_graphic)
  ultimately show ?thesis using parse_show_nat [OF assms(2)] by (simp add: split_numbered_rule_def)
qed

lemma collect_sample_rows:
  "list_all clean_entry es \<Longrightarrow> k + length es \<le> 2 ^ 32 \<Longrightarrow> collect_rules (sample_rows k es) = (owned_from k es, foreign_of es)"
proof (induction es arbitrary: k)
  case (Cons e es)
  then have e: "clean_entry e" "k < 2 ^ 32" and rest: "collect_rules (sample_rows (Suc k) es) = (owned_from (Suc k) es, foreign_of es)"
    by auto
  have "bounded_summary (fe_summary e) = fe_summary e" using e(1) by (simp add: bounded_summary_def clean_entry_def take_chars_short)
  moreover have "parse_owned_comment (fe_summary e) = fe_owner e" using e(1) by (simp add: clean_entry_def)
  ultimately show ?case using rest split_sample_row [OF e] by (simp add: foreign_of_def split: option.splits)
qed (simp add: foreign_of_def)

lemma sample_rows_brackets: "r \<in> set (sample_rows k es) \<Longrightarrow> \<exists>t. r = CHR ''['' # t"
  by (induction es arbitrary: k) (auto simp: sample_row_def)

lemma sample_status_lines:
  "\<not> starts_with (trim ''Status: active'') ''[''" "status_line_active ''Status: active''"
  "\<not> starts_with (trim ''Status: inactive'') ''[''" "\<not> status_line_active ''Status: inactive''"
  by code_simp+

lemma sample_snapshot:
  assumes "list_all clean_entry es" and "length es < 2 ^ 32"
  shows "snapshot_parse lib (sample_status a es) = \<lparr>us_active = a, us_fingerprint = ul_sha256_hex lib (sample_status a es),
     us_owned_rules = owned_from 1 es, us_foreign_rules = foreign_of es\<rparr>"
proof -
  let ?head = "if a then ''Status: active'' else ''Status: inactive''"
  have "str_lines (?head @ CHR 0x0A # concat (map (\<lambda>l. l @ [CHR 0x0A]) (sample_rows 1 es)))
    = ?head # str_lines (concat (map (\<lambda>l. l @ [CHR 0x0A]) (sample_rows 1 es)))"
    by (intro str_lines_Cons) simp_all
  then have lines: "str_lines (sample_status a es) = ?head # sample_rows 1 es"
    using sample_rows_lines [OF assms(1), of 1] by (simp add: sample_status_def)
  have head: "\<not> starts_with (trim ?head) ''[''" "status_line_active ?head = a"
    using sample_status_lines by (cases a; simp)+
  have row: "\<not> status_line_active r \<and> starts_with r ''[''" if r: "r \<in> set (sample_rows 1 es)" for r
  proof -
    from sample_rows_lines [OF assms(1), of 1] have "map trim (sample_rows 1 es) = map (\<lambda>r. r) (sample_rows 1 es)" by simp
    with r have "trim r = r" unfolding map_eq_conv by blast
    with sample_rows_brackets [OF r] show ?thesis by (auto simp: status_line_active_def starts_with_def)
  qed
  then have "filter (\<lambda>r. starts_with r ''['') (sample_rows 1 es) = sample_rows 1 es" "\<not> list_ex status_line_active (sample_rows 1 es)"
    by (auto simp: filter_id_conv list_ex_iff)
  with lines head sample_rows_lines [OF assms(1), of 1] collect_sample_rows [OF assms(1), of 1] assms(2)
  show ?thesis by (simp add: snapshot_parse_def)
qed

lemma sample_status_law: "ufw_status_law lib sample_semantics sample_ufw"
  by (simp add: ufw_status_law_def leads_to_def sample_semantics_def sample_ufw_def sample_output_def sample_snapshot Let_def)

lemma rule_id_graphic: "rule_id_char c \<Longrightarrow> graphic c \<and> c \<noteq> CHR ''#'' \<and> c \<noteq> CHR 0x0A"
proof -
  have "\<not> rule_id_char (CHR ''#'')" "\<not> rule_id_char (CHR 0x0A)" "graphic (CHR ''_'')" "graphic (CHR ''-'')" by code_simp+
  then show "rule_id_char c \<Longrightarrow> graphic c \<and> c \<noteq> CHR ''#'' \<and> c \<noteq> CHR 0x0A"
    using alphanumeric_graphic by (auto simp: rule_id_char_def)
qed

lemma sample_added_clean:
  assumes "ufw_validate rule ssh_port = Inr ()"
  shows "list_all clean_entry (sample_added rule)"
proof -
  let ?i = "ur_id rule"
  from assms have i: "?i \<noteq> []" "length ?i \<le> 48" "list_all rule_id_char ?i" by (simp_all add: ufw_validate_iff)
  then have chars: "graphic c \<and> c \<noteq> CHR ''#'' \<and> c \<noteq> CHR 0x0A" if "c \<in> set ?i" for c
    using that rule_id_graphic by (simp add: list_all_iff)
  have "graphic (CHR ''v'')" "graphic (CHR ''r'')" by code_simp+
  with i(1) chars have trims: "trim ?i = ?i" "trim (rule_comment rule) = rule_comment rule"
    by (auto simp: rule_comment_def COMMENT_PREFIX_def intro!: trim_graphic)
  have "rsplit_once (CHR ''#'') (''rule #'' @ rule_comment rule) = Some (''rule '', rule_comment rule)"
    using chars by (auto simp: rsplit_once_Some_iff rule_comment_def COMMENT_PREFIX_def)
  moreover have "strip_prefix (rule_comment rule) COMMENT_PREFIX = Some ?i" by (simp add: strip_prefix_Some_iff rule_comment_def)
  ultimately have "parse_owned_comment (''rule #'' @ rule_comment rule) = Some ?i"
    using trims i by (simp add: parse_owned_comment_def)
  moreover have "CHR 0x0A \<notin> set (''rule #'' @ rule_comment rule)" using chars by (auto simp: rule_comment_def COMMENT_PREFIX_def)
  ultimately show ?thesis
    using i chars \<open>graphic (CHR ''r'')\<close> by (simp add: sample_added_def clean_entry_def rule_comment_def COMMENT_PREFIX_def)
qed

lemma sample_change_law: "ufw_change_law sample_ufw_library sample_semantics sample_ufw"
proof -
  have add: "sample_ufw (add_arguments sample_ufw_library rule dry) h =
      (Inr (sample_output []), (fst h, if dry then snd h else snd h @ sample_added rule))" for rule dry h
  proof -
    have "add_arguments sample_ufw_library rule dry \<noteq> status_arguments"
      "take 2 (add_arguments sample_ufw_library rule dry) \<noteq> [''--force'', ''delete'']"
      "hd (add_arguments sample_ufw_library rule dry) = ''--dry-run'' \<longleftrightarrow> dry"
      by (cases dry; cases "ur_action rule"; simp add: add_arguments_def status_arguments_def)+
    then show ?thesis using parse_add_arguments [OF sample_networks_codec, of rule dry] by (simp add: sample_ufw_def)
  qed
  have delete: "sample_ufw (delete_arguments (of_nat (Suc n))) h = (Inr (sample_output []), (fst h, take n (snd h) @ drop (Suc n) (snd h)))"
    if "Suc n < 2 ^ 32" for n h
  proof -
    have "unat (of_nat (Suc n) :: u32) = Suc n" using that by (simp add: unsigned_of_nat take_bit_nat_eq_self del: of_nat_Suc)
    then show ?thesis using parse_show_nat [OF that]
      by (simp add: sample_ufw_def delete_arguments_def status_arguments_def sample_delete_def del: of_nat_Suc)
  qed
  have "list_all clean_entry (take n es @ drop m es)" if "list_all clean_entry es" for n m es
    using that by (auto simp: list_all_iff dest: in_set_takeD in_set_dropD)
  then show ?thesis
    by (auto simp: ufw_change_law_def leads_to_def sample_semantics_def add delete sample_added_clean owned_by_def
        simp del: of_nat_Suc) (simp add: sample_added_def)
qed

definition sample_firewall :: "bool \<times> ufw_entry list" where
  "sample_firewall = (True, [\<lparr>fe_owner = None, fe_summary = ''22/tcp ALLOW IN Anywhere''\<rparr>])"

definition web_rule :: "32 word UfwRule" where
  "web_rule = \<lparr>ur_id = ''web'', ur_action = UfwAllow, ur_source = Some 0x0A000001, ur_destination_port = Some 443, ur_protocol = UfwTcp\<rparr>"

definition web_plan :: "32 word UfwPlan" where
  "web_plan = \<lparr>up_before_fingerprint = sample_status True (snd sample_firewall), up_mutation = UfwAdd web_rule, up_ssh_port = 22\<rparr>"

lemma sample_firewall_snapshot:
  "ufw_snapshot sample_ufw_library sample_ufw sample_firewall =
     (Inr (\<lparr>us_active = True, us_fingerprint = sample_status True (snd sample_firewall), us_owned_rules = [],
            us_foreign_rules = [''22/tcp ALLOW IN Anywhere'']\<rparr>, co_audit (sample_output [])), sample_firewall)"
  "list_all clean_entry (snd sample_firewall)"
proof -
  show good: "list_all clean_entry (snd sample_firewall)" by code_simp
  have "snapshot_parse sample_ufw_library (sample_status True (snd sample_firewall)) =
     \<lparr>us_active = True, us_fingerprint = sample_status True (snd sample_firewall), us_owned_rules = [],
      us_foreign_rules = [''22/tcp ALLOW IN Anywhere'']\<rparr>"
    using sample_snapshot [OF good, of sample_ufw_library True]
    by (simp add: sample_firewall_def foreign_of_def sample_ufw_library_def)
  then show "ufw_snapshot sample_ufw_library sample_ufw sample_firewall =
     (Inr (\<lparr>us_active = True, us_fingerprint = sample_status True (snd sample_firewall), us_owned_rules = [],
            us_foreign_rules = [''22/tcp ALLOW IN Anywhere'']\<rparr>, co_audit (sample_output [])), sample_firewall)"
    by (simp add: ufw_snapshot_def run_ufw_def sample_ufw_def sample_output_def) (simp add: sample_firewall_def)
qed

lemma web_plan_made:
  "ufw_plan StandaloneUfw \<lparr>us_active = True, us_fingerprint = sample_status True (snd sample_firewall), us_owned_rules = [],
     us_foreign_rules = [''22/tcp ALLOW IN Anywhere'']\<rparr> (UfwAdd web_rule) 22 = Inr web_plan"
  by code_simp


text \<open>
  The contract refuses to deny the SSH port and to deny without any restriction, but a source network
  counts as a restriction even when it contains every address: such a rule without a port is accepted,
  and it refuses SSH connections from that network like all others.
\<close>

theorem deny_from_any_network_accepted:
  "ufw_validate \<lparr>ur_id = ''all'', ur_action = UfwDeny, ur_source = Some network, ur_destination_port = None, ur_protocol = UfwAny\<rparr> ssh_port = Inr ()"
proof -
  have "list_all rule_id_char ''all''" by code_simp
  then show ?thesis by (simp add: ufw_validate_iff)
qed

section \<open>Properties of every host\<close>

text \<open>
  (C20) The command line made from a rule is read back as that rule, and the check on the other side
  of the privilege boundary accepts it exactly when the rule itself is valid for the SSH port: the
  two sides cannot disagree about a rule, and no valid rule is refused on the way.
\<close>

theorem ufw_arguments_roundtrip:
  assumes "\<And>n. ul_parse_net lib (ul_show_net lib n) = Some n"
  shows "parse_ufw_add_arguments lib (add_arguments lib rule dry_run) = Inr rule
    \<and> validate_ufw_add_arguments lib (add_arguments lib rule dry_run) ssh_port = ufw_validate rule ssh_port"
  using parse_add_arguments [OF assms] by (simp add: validate_ufw_add_arguments_def)

text \<open>
  What the controller reports was read back from the firewall. Success means that the last
  command was a status that shows the firewall active, the rules of others unchanged from the status
  before the change, and the rule present exactly once after an addition and absent after a removal.
  A failed verification means that a status after the reversal shows the rules of others and the
  owned rules as they were before. When the firewall changed since the plan was made, the status is
  the only command that was run.
\<close>

theorem ufw_apply_read_back:
  assumes "ufw_apply lib ex plan h = (r, h')"
  shows "(\<forall>audits. r = Inr audits \<longrightarrow> (\<exists>before after b a h1 h2.
            ufw_snapshot lib ex h = (Inr (before, b), h1) \<and> us_fingerprint before = up_before_fingerprint plan
            \<and> ufw_snapshot lib ex h2 = (Inr (after, a), h') \<and> us_active after
            \<and> us_foreign_rules after = us_foreign_rules before
            \<and> rules_with_id after (ur_id (mutation_rule (up_mutation plan)))
              = (case up_mutation plan of UfwAdd _ \<Rightarrow> 1 | UfwRemove _ \<Rightarrow> 0)))
       \<and> (r = Inl VerificationFailed \<longrightarrow> (\<exists>before restored b a h1 h2.
            ufw_snapshot lib ex h = (Inr (before, b), h1) \<and> ufw_snapshot lib ex h2 = (Inr (restored, a), h')
            \<and> us_active restored = us_active before \<and> us_foreign_rules restored = us_foreign_rules before
            \<and> mset (map uo_id (us_owned_rules restored)) = mset (map uo_id (us_owned_rules before))))
       \<and> (r = Inl SnapshotChanged \<longrightarrow> (\<exists>before b. ufw_snapshot lib ex h = (Inr (before, b), h')
            \<and> us_fingerprint before \<noteq> up_before_fingerprint plan))"
  using assms
proof (cases rule: ufw_apply_elim)
  case first: (applied before b h1)
  from first(3) show ?thesis
  proof (cases rule: apply_from_elim)
    case (verified after a h2 audits)
    from verified(2) have "us_active after" "us_foreign_rules after = us_foreign_rules before"
      "rules_with_id after (ur_id (mutation_rule (up_mutation plan))) = (case up_mutation plan of UfwAdd _ \<Rightarrow> 1 | UfwRemove _ \<Rightarrow> 0)"
      by (simp_all add: verifies_transition_def rules_with_id_filter Let_def split: UfwMutation.splits)
    with first verified show ?thesis by auto
  next
    case (restored after h3 undo)
    from restored(1) obtain again a h4 where "ufw_snapshot lib ex h4 = (Inr (again, a), h')"
      "us_active again = us_active before" "us_foreign_rules again = us_foreign_rules before"
      "owned_rule_ids again = owned_rule_ids before"
      by (auto simp: rollback_transition_def then_call_Inr split: if_splits)
    with first restored show ?thesis by (auto simp: owned_rule_ids_def sort_eq_mset)
  qed (auto simp: passing_error_def)
qed (auto simp: passing_error_def)

theorem ufw_arguments_roundtrip_witness:
  "parse_ufw_add_arguments sample_ufw_library
     [''deny'', ''in'', ''to'', ''any'', ''port'', ''22'', ''comment'', ''vps-guard:ssh''] =
     Inr \<lparr>ur_id = ''ssh'', ur_action = UfwDeny, ur_source = None, ur_destination_port = Some 22, ur_protocol = UfwAny\<rparr>
   \<and> validate_ufw_add_arguments sample_ufw_library
     [''deny'', ''in'', ''to'', ''any'', ''port'', ''22'', ''comment'', ''vps-guard:ssh''] 22 = Inl SshInvariant"
proof -
  let ?r = "\<lparr>ur_id = ''ssh'', ur_action = UfwDeny, ur_source = None, ur_destination_port = Some 22, ur_protocol = UfwAny\<rparr> :: 32 word UfwRule"
  have "show_nat 22 = ''22''" by code_simp
  then have "add_arguments sample_ufw_library ?r False =
      [''deny'', ''in'', ''to'', ''any'', ''port'', ''22'', ''comment'', ''vps-guard:ssh'']"
    by (simp add: add_arguments_def rule_comment_def COMMENT_PREFIX_def del: show_nat.simps)
  moreover have "list_all rule_id_char ''ssh''" by code_simp
  then have "ufw_validate ?r 22 = Inl SshInvariant" by (simp add: ufw_validate_def reject_if_def)
  ultimately show ?thesis
    using ufw_arguments_roundtrip [OF sample_networks_codec, of ?r False 22] by simp
qed

theorem ufw_apply_read_back_witness:
  "\<exists>before after b a h1 h2 h'. ufw_snapshot sample_ufw_library sample_ufw sample_firewall = (Inr (before, b), h1)
     \<and> ufw_snapshot sample_ufw_library sample_ufw h2 = (Inr (after, a), h') \<and> us_active after
     \<and> us_foreign_rules after = us_foreign_rules before \<and> rules_with_id after ''web'' = 1"
proof -
  obtain r h' where run: "ufw_apply sample_ufw_library sample_ufw web_plan sample_firewall = (r, h')"
    by (cases "ufw_apply sample_ufw_library sample_ufw web_plan sample_firewall") auto
  have "ufw_validate web_rule 22 = Inr ()" by code_simp
  then have "\<exists>audits h'. ufw_apply sample_ufw_library sample_ufw web_plan sample_firewall = (Inr audits, h')"
    using apply_add_single [OF sample_status_law sample_change_law, of sample_firewall web_rule 22 web_plan] sample_firewall_snapshot(2)
    by (auto simp: sample_semantics_def sample_firewall_def owned_by_def web_plan_def sample_added_def sample_ufw_library_def)
  with run obtain audits where "r = Inr audits" by auto
  moreover have "ur_id (mutation_rule (up_mutation web_plan)) = ''web''" "up_mutation web_plan = UfwAdd web_rule"
    by (simp_all add: web_plan_def web_rule_def)
  ultimately obtain before after b a h1 h2 where "ufw_snapshot sample_ufw_library sample_ufw sample_firewall = (Inr (before, b), h1)"
    "ufw_snapshot sample_ufw_library sample_ufw h2 = (Inr (after, a), h')" "us_active after"
    "us_foreign_rules after = us_foreign_rules before" "rules_with_id after ''web'' = 1"
    using ufw_apply_read_back [OF run] by (simp split: prod.splits) blast
  then show ?thesis by blast
qed

end
