(* ===== verification/Firewall_Manager.thy ===== *)
theory Firewall_Manager
  imports Ufw_Host
begin

text \<open>
  The firewall side of the control process, \<open>guard-control/src/firewall.rs\<close>: who may change the
  host firewall, and the bounded store of plans that wait for approval. Every operation holds the lock
  of the store only while it changes it; the identifier of a new plan is a parameter.
\<close>

section \<open>The manager\<close>

definition MAX_PENDING_PLANS :: nat where "MAX_PENDING_PLANS = 32"

record FirewallStatus =
  fs_mode :: firewall_mode
  fs_backend :: string
  fs_mutable :: bool
  fs_snapshot :: "UfwSnapshot option"

record 'net PendingFirewallPlan =
  pf_operation_id :: string
  pf_plan :: "'net UfwPlan"

record FirewallApplyResult =
  fr_operation_id :: string
  fr_audits :: "CommandAudit list"

datatype FirewallError = FirewallUfw UfwError | PlanNotFound

record ('net, 'h) FirewallManager =
  fm_mode :: firewall_mode
  fm_ssh_port :: u16
  fm_library :: "'net ufw_library"
  fm_executor :: "'h ufw_executor"

record ('net, 'h) firewall_state =
  fw_pending :: "'net PendingFirewallPlan list"
  fw_host :: 'h

definition assert_mutable :: "('net, 'h) FirewallManager \<Rightarrow> FirewallError + unit" where
  "assert_mutable m = (if fm_mode m = StandaloneUfw then Inr () else Inl (FirewallUfw OwnershipDenied))"

text \<open>A call of the controller runs on the host and leaves the pending plans alone.\<close>

definition on_host ::
  "('h \<Rightarrow> (UfwError + 'a) \<times> 'h) \<Rightarrow> ('net, 'h) firewall_state \<Rightarrow> (FirewallError + 'a) \<times> ('net, 'h) firewall_state" where
  "on_host f s = (case f (fw_host s) of (r, h) \<Rightarrow> (map_err FirewallUfw r, s \<lparr>fw_host := h\<rparr>))"

definition firewall_status ::
  "('net, 'h) FirewallManager \<Rightarrow> ('net, 'h) firewall_state \<Rightarrow> (FirewallError + FirewallStatus) \<times> ('net, 'h) firewall_state" where
  "firewall_status m s =
     (if fm_mode m \<noteq> StandaloneUfw
      then (Inr \<lparr>fs_mode = fm_mode m, fs_backend = (if fm_mode m = JwAgentDelegated then ''jw-agent'' else ''disabled''),
                 fs_mutable = False, fs_snapshot = None\<rparr>, s)
      else then_call (on_host (ufw_snapshot (fm_library m) (fm_executor m)) s) (\<lambda>(snapshot, _) s.
             (Inr \<lparr>fs_mode = fm_mode m, fs_backend = ''ufw'', fs_mutable = True, fs_snapshot = Some snapshot\<rparr>, s)))"

fun make_room :: "'a list \<Rightarrow> 'a list" where
  "make_room [] = []"
| "make_room (p # plans) = (if length (p # plans) \<ge> MAX_PENDING_PLANS then make_room plans else p # plans)"

definition firewall_plan ::
  "('net, 'h) FirewallManager \<Rightarrow> string \<Rightarrow> 'net UfwMutation \<Rightarrow> ('net, 'h) firewall_state
   \<Rightarrow> (FirewallError + 'net PendingFirewallPlan) \<times> ('net, 'h) firewall_state" where
  "firewall_plan m new_id mutation s =
     then_call (assert_mutable m, s) (\<lambda>_ s.
     then_call (on_host (ufw_snapshot (fm_library m) (fm_executor m)) s) (\<lambda>(snapshot, _) s.
     then_call (map_err FirewallUfw (ufw_plan (fm_mode m) snapshot mutation (fm_ssh_port m)), s) (\<lambda>plan s.
       let pending = \<lparr>pf_operation_id = new_id, pf_plan = plan\<rparr>
       in (Inr pending, s \<lparr>fw_pending := make_room (fw_pending s) @ [pending]\<rparr>))))"

fun take_pending :: "string \<Rightarrow> 'net PendingFirewallPlan list \<Rightarrow> ('net PendingFirewallPlan \<times> 'net PendingFirewallPlan list) option" where
  "take_pending operation_id [] = None"
| "take_pending operation_id (p # plans) =
     (if pf_operation_id p = operation_id then Some (p, plans)
      else map_option (\<lambda>(q, rest). (q, p # rest)) (take_pending operation_id plans))"

definition firewall_apply ::
  "('net, 'h) FirewallManager \<Rightarrow> string \<Rightarrow> ('net, 'h) firewall_state
   \<Rightarrow> (FirewallError + FirewallApplyResult) \<times> ('net, 'h) firewall_state" where
  "firewall_apply m operation_id s =
     then_call (assert_mutable m, s) (\<lambda>_ s.
     case take_pending operation_id (fw_pending s) of None \<Rightarrow> (Inl PlanNotFound, s)
     | Some (plan, rest) \<Rightarrow>
         then_call (on_host (ufw_apply (fm_library m) (fm_executor m) (pf_plan plan)) (s \<lparr>fw_pending := rest\<rparr>)) (\<lambda>audits s.
           (Inr \<lparr>fr_operation_id = pf_operation_id plan, fr_audits = audits\<rparr>, s)))"

section \<open>Commands that reach the host\<close>

text \<open>An executor that also keeps the list of the command lines it ran.\<close>

definition logged :: "'h ufw_executor \<Rightarrow> ('h \<times> string list list) ufw_executor" where
  "logged ex arguments = (\<lambda>(h, log). case ex arguments h of (r, h') \<Rightarrow> (r, (h', log @ [arguments])))"

text \<open>The command lines the manager may cause: a status, a valid rule, or the deletion of a numbered rule.\<close>

definition proper_command :: "'net ufw_library \<Rightarrow> u16 \<Rightarrow> string list \<Rightarrow> bool" where
  "proper_command lib ssh_port arguments \<longleftrightarrow>
     arguments = status_arguments \<or> (\<exists>n. arguments = delete_arguments n)
     \<or> (\<exists>rule dry_run. ufw_validate rule ssh_port = Inr () \<and> arguments = add_arguments lib rule dry_run)"

definition runs :: "(string list \<Rightarrow> bool) \<Rightarrow> 'h \<times> string list list \<Rightarrow> 'h \<times> string list list \<Rightarrow> bool" where
  "runs P h h' \<longleftrightarrow> (\<exists>commands. snd h' = snd h @ commands \<and> (\<forall>c \<in> set commands. P c))"

lemma runs_refl [simp]: "runs P h h"
  by (simp add: runs_def)

lemma runs_trans: "runs P h h1 \<Longrightarrow> runs P h1 h2 \<Longrightarrow> runs P h h2"
  by (fastforce simp: runs_def)

lemma logged_runs: "P arguments \<Longrightarrow> logged ex arguments h = (r, h') \<Longrightarrow> runs P h h'"
  by (auto simp: logged_def runs_def split: prod.splits)

lemma run_ufw_runs: "P arguments \<Longrightarrow> run_ufw (logged ex) arguments h = (r, h') \<Longrightarrow> runs P h h'"
  by (auto simp: run_ufw_def split: prod.splits dest: logged_runs)

lemma run_audited_runs:
  assumes "P arguments" and "run_audited (logged ex) arguments h = (r, h')"
  shows "runs P h h'"
proof -
  from assms(2) obtain q where "run_ufw (logged ex) arguments h = (q, h')"
    unfolding run_audited_def by (elim then_call_elim) simp_all
  with assms(1) show ?thesis by (rule run_ufw_runs)
qed

lemma ufw_snapshot_runs:
  assumes "P status_arguments" and "ufw_snapshot lib (logged ex) h = (r, h')"
  shows "runs P h h'"
proof -
  from assms(2) obtain q where "run_ufw (logged ex) status_arguments h = (q, h')"
    unfolding ufw_snapshot_def by (elim then_call_elim) simp_all
  with assms(1) show ?thesis by (rule run_ufw_runs)
qed

lemma delete_rule_runs:
  assumes "\<And>n. P (delete_arguments n)" and "delete_rule (logged ex) snapshot i h = (r, h')"
  shows "runs P h h'"
proof (cases "unique_rule_number snapshot i")
  case (Inl e)
  with assms(2) show ?thesis by (simp add: delete_rule_def)
next
  case (Inr n)
  with assms(2) have "run_audited (logged ex) (delete_arguments n) h = (r, h')" by (simp add: delete_rule_def)
  with assms(1) show ?thesis by (rule run_audited_runs)
qed

definition planned :: "u16 \<Rightarrow> 'net UfwPlan \<Rightarrow> bool" where
  "planned ssh_port plan \<longleftrightarrow> ufw_validate (mutation_rule (up_mutation plan)) ssh_port = Inr ()"

lemma change_runs:
  assumes "planned ssh_port plan"
  shows "run_mutation lib (logged ex) before plan h = (r, h') \<Longrightarrow> runs (proper_command lib ssh_port) h h'"
    and "undo_mutation lib (logged ex) before plan h = (r, h') \<Longrightarrow> runs (proper_command lib ssh_port) h h'"
    and "ufw_dry_run lib (logged ex) plan h = (r0, h') \<Longrightarrow> runs (proper_command lib ssh_port) h h'"
proof -
  have "proper_command lib ssh_port (add_arguments lib (mutation_rule (up_mutation plan)) d)"
    "proper_command lib ssh_port (delete_arguments n)" for d n
    using assms by (auto simp: proper_command_def planned_def)
  then show "run_mutation lib (logged ex) before plan h = (r, h') \<Longrightarrow> runs (proper_command lib ssh_port) h h'"
    "undo_mutation lib (logged ex) before plan h = (r, h') \<Longrightarrow> runs (proper_command lib ssh_port) h h'"
    "ufw_dry_run lib (logged ex) plan h = (r0, h') \<Longrightarrow> runs (proper_command lib ssh_port) h h'"
    unfolding run_mutation_def undo_mutation_def ufw_dry_run_def
    by (cases "up_mutation plan"; auto elim!: then_call_elim intro: run_audited_runs delete_rule_runs)+
qed

lemma status_runs: "ufw_snapshot lib (logged ex) h = (r, h') \<Longrightarrow> runs (proper_command lib' ssh_port) h h'"
  by (rule ufw_snapshot_runs) (simp_all add: proper_command_def)

lemma rollback_runs:
  assumes "planned ssh_port plan" and "rollback_transition lib (logged ex) before current plan h = (r, h')"
  shows "runs (proper_command lib ssh_port) h h'"
  using assms(2) unfolding rollback_transition_def
proof (cases rule: then_call_elim)
  case (stop e)
  from change_runs(2) [OF assms(1) stop(1)] show ?thesis .
next
  case (go a h1)
  note r1 = change_runs(2) [OF assms(1) go(1)]
  from go(2) obtain q where "ufw_snapshot lib (logged ex) h1 = (q, h')"
    by (elim then_call_elim) (simp_all add: split_beta)
  from runs_trans [OF r1 status_runs [OF this]] show ?thesis .
qed

lemma apply_from_runs:
  assumes "planned ssh_port plan" and "apply_from lib (logged ex) plan before b h = (r, h')"
  shows "runs (proper_command lib ssh_port) h h'"
  using assms(2) unfolding apply_from_def
proof (cases rule: then_call_elim)
  case (stop e)
  from change_runs(3) [OF assms(1) stop(1)] show ?thesis .
next
  case (go d h1)
  note r1 = change_runs(3) [OF assms(1) go(1)]
  from go(2) show ?thesis
  proof (cases rule: then_call_elim)
    case (stop e)
    from runs_trans [OF r1 change_runs(1) [OF assms(1) stop(1)]] show ?thesis .
  next
    case (go m h2)
    note r2 = runs_trans [OF r1 change_runs(1) [OF assms(1) go(1)]]
    from go(2) show ?thesis
    proof (cases rule: then_call_elim)
      case (stop e)
      from runs_trans [OF r2 status_runs [OF stop(1)]] show ?thesis .
    next
      case (go y h3)
      note r3 = runs_trans [OF r2 status_runs [OF go(1)]]
      obtain after a where y: "y = (after, a)" by (cases y)
      obtain r4 h4 where roll: "rollback_transition lib (logged ex) before after plan h3 = (r4, h4)" by (metis surj_pair)
      from go(2) y roll have "h' = h3 \<or> h' = h4" by (auto split: if_splits sum.splits)
      with r3 runs_trans [OF r3 rollback_runs [OF assms(1) roll]] show ?thesis by auto
    qed
  qed
qed

lemma ufw_apply_runs:
  assumes "planned ssh_port plan" and "ufw_apply lib (logged ex) plan h = (r, h')"
  shows "runs (proper_command lib ssh_port) h h'"
  using assms(2) unfolding ufw_apply_def
proof (cases rule: then_call_elim)
  case (stop e)
  from status_runs [OF stop(1)] show ?thesis .
next
  case (go x h1)
  note r1 = status_runs [OF go(1)]
  obtain before b where x: "x = (before, b)" by (cases x)
  show ?thesis
  proof (cases "us_fingerprint before = up_before_fingerprint plan")
    case True
    with go(2) x runs_trans [OF r1 apply_from_runs [OF assms(1)]] show ?thesis by simp
  next
    case False
    with go(2) x r1 show ?thesis by simp
  qed
qed

section \<open>The invariant of the manager\<close>

datatype 'net firewall_request = StatusRequest | PlanRequest string "'net UfwMutation" | ApplyRequest string

fun firewall_step :: "('net, 'h) FirewallManager \<Rightarrow> ('net, 'h) firewall_state \<Rightarrow> 'net firewall_request \<Rightarrow> ('net, 'h) firewall_state" where
  "firewall_step m s StatusRequest = snd (firewall_status m s)"
| "firewall_step m s (PlanRequest new_id mutation) = snd (firewall_plan m new_id mutation s)"
| "firewall_step m s (ApplyRequest operation_id) = snd (firewall_apply m operation_id s)"

definition logged_manager :: "('net, 'h) FirewallManager \<Rightarrow> ('net, 'h \<times> string list list) FirewallManager" where
  "logged_manager m = \<lparr>fm_mode = fm_mode m, fm_ssh_port = fm_ssh_port m, fm_library = fm_library m, fm_executor = logged (fm_executor m)\<rparr>"

definition new_manager_state :: "'h \<Rightarrow> ('net, 'h \<times> string list list) firewall_state" where
  "new_manager_state h = \<lparr>fw_pending = [], fw_host = (h, [])\<rparr>"

definition manager_ok :: "('net, 'h) FirewallManager \<Rightarrow> ('net, 'h \<times> string list list) firewall_state \<Rightarrow> bool" where
  "manager_ok m s \<longleftrightarrow> length (fw_pending s) \<le> MAX_PENDING_PLANS
     \<and> (\<forall>p \<in> set (fw_pending s). planned (fm_ssh_port m) (pf_plan p))
     \<and> (\<forall>c \<in> set (snd (fw_host s)). proper_command (fm_library m) (fm_ssh_port m) c)
     \<and> (fm_mode m \<noteq> StandaloneUfw \<longrightarrow> snd (fw_host s) = [])"

lemma make_room_suffix: "suffix (make_room plans) plans"
  by (induction plans) (auto intro: suffix_ConsI)

lemma make_room_length: "length (make_room plans) < MAX_PENDING_PLANS"
  by (induction plans) (auto simp: MAX_PENDING_PLANS_def)

lemma take_pending_Some:
  "take_pending i plans = Some (p, rest) \<Longrightarrow> p \<in> set plans \<and> set rest \<subseteq> set plans \<and> length rest < length plans \<and> pf_operation_id p = i"
  by (induction plans arbitrary: p rest) (auto split: if_splits)

lemma manager_ok_runs:
  assumes "manager_ok m s" and "runs (proper_command (fm_library m) (fm_ssh_port m)) (fw_host s) h"
    and "fm_mode m = StandaloneUfw" and "set pending \<subseteq> set (fw_pending s)" and "length pending \<le> length (fw_pending s)"
  shows "manager_ok m \<lparr>fw_pending = pending, fw_host = h\<rparr>"
  using assms by (auto simp: manager_ok_def runs_def)

lemma on_host_snapshot:
  assumes "manager_ok m s" and "fm_mode m = StandaloneUfw"
    and "on_host (ufw_snapshot (fm_library m) (logged (fm_executor m))) s = (r, s')"
  shows "manager_ok m s' \<and> fw_pending s' = fw_pending s"
proof -
  obtain q h where run: "ufw_snapshot (fm_library m) (logged (fm_executor m)) (fw_host s) = (q, h)" by (metis surj_pair)
  from assms(3) run have "s' = s \<lparr>fw_host := h\<rparr>" by (simp add: on_host_def)
  with manager_ok_runs [OF assms(1) status_runs [OF run] assms(2), of "fw_pending s"] show ?thesis
    by (cases s) simp
qed

lemma status_step_ok:
  assumes "manager_ok m s" and "fm_mode m = StandaloneUfw"
  shows "manager_ok m (snd (firewall_status (logged_manager m) s))"
proof -
  obtain r s1 where snap: "on_host (ufw_snapshot (fm_library m) (logged (fm_executor m))) s = (r, s1)" by (metis surj_pair)
  have "snd (firewall_status (logged_manager m) s) = s1"
    using assms(2) snap by (cases r) (simp_all add: firewall_status_def logged_manager_def split_beta)
  with on_host_snapshot [OF assms snap] show ?thesis by simp
qed

lemma plan_step_ok:
  assumes "manager_ok m s" and "fm_mode m = StandaloneUfw"
  shows "manager_ok m (snd (firewall_plan (logged_manager m) new_id mutation s))"
proof -
  obtain r s1 where snap: "on_host (ufw_snapshot (fm_library m) (logged (fm_executor m))) s = (r, s1)" by (metis surj_pair)
  note s1 = on_host_snapshot [OF assms snap]
  show ?thesis
  proof (cases r)
    case (Inl e)
    with assms(2) snap s1 show ?thesis by (simp add: firewall_plan_def assert_mutable_def logged_manager_def)
  next
    case (Inr x)
    show ?thesis
    proof (cases "ufw_plan (fm_mode m) (fst x) mutation (fm_ssh_port m)")
      case (Inl e)
      with Inr assms(2) snap s1 show ?thesis
        by (simp add: firewall_plan_def assert_mutable_def logged_manager_def split_beta)
    next
      case plan: (Inr plan)
      let ?p = "\<lparr>pf_operation_id = new_id, pf_plan = plan\<rparr>"
      from plan have "planned (fm_ssh_port m) plan" by (auto simp: ufw_plan_def planned_def outcome_simps Let_def)
      then have "manager_ok m (s1 \<lparr>fw_pending := make_room (fw_pending s1) @ [?p]\<rparr>)"
        using s1 make_room_length [of "fw_pending s1"] set_mono_suffix [OF make_room_suffix [of "fw_pending s1"]]
        by (auto simp: manager_ok_def)
      with plan Inr assms(2) snap show ?thesis
        by (simp add: firewall_plan_def assert_mutable_def logged_manager_def split_beta Let_def)
    qed
  qed
qed

lemma apply_step_ok:
  assumes "manager_ok m s" and "fm_mode m = StandaloneUfw"
  shows "manager_ok m (snd (firewall_apply (logged_manager m) i s))"
proof (cases "take_pending i (fw_pending s)")
  case None
  with assms show ?thesis by (simp add: firewall_apply_def assert_mutable_def logged_manager_def)
next
  case (Some x)
  obtain p rest where x: "x = (p, rest)" by (cases x)
  note taken = take_pending_Some [OF Some [unfolded x]]
  obtain q h where run: "ufw_apply (fm_library m) (logged (fm_executor m)) (pf_plan p) (fw_host s) = (q, h)" by (metis surj_pair)
  from assms(1) taken have "planned (fm_ssh_port m) (pf_plan p)" by (simp add: manager_ok_def)
  from manager_ok_runs [OF assms(1) ufw_apply_runs [OF this run] assms(2), of rest] taken
  have "manager_ok m (s \<lparr>fw_pending := rest, fw_host := h\<rparr>)" by (cases s) simp
  with assms(2) Some x run show ?thesis
    by (cases q) (simp_all add: firewall_apply_def assert_mutable_def logged_manager_def on_host_def)
qed

lemma manager_step_ok:
  assumes "manager_ok m s"
  shows "manager_ok m (firewall_step (logged_manager m) s e)"
proof (cases "fm_mode m = StandaloneUfw")
  case False
  with assms show ?thesis
    by (cases e) (simp_all add: firewall_status_def firewall_plan_def firewall_apply_def assert_mutable_def logged_manager_def)
next
  case True
  with assms show ?thesis by (cases e) (simp_all add: status_step_ok plan_step_ok apply_step_ok)
qed

interpretation manager_machine: invariant_machine "firewall_step (logged_manager m)" "manager_ok m"
  by unfold_locales (rule manager_step_ok)

text \<open>
  (C19) Whatever requests arrive, at most 32 plans wait for approval, and every command line that
  reaches the firewall program is a status, the deletion of one numbered rule or the addition of a rule
  that is valid for the configured SSH port. When another product or nobody owns the firewall, no
  command is ever run.
\<close>

theorem firewall_commands_confined:
  "let s = run (firewall_step (logged_manager m)) (new_manager_state h) requests
   in length (fw_pending s) \<le> 32
      \<and> list_all (proper_command (fm_library m) (fm_ssh_port m)) (snd (fw_host s))
      \<and> (fm_mode m = StandaloneUfw \<or> snd (fw_host s) = [])"
  using manager_machine.invar_run [of m "new_manager_state h" requests]
  by (auto simp: manager_ok_def new_manager_state_def MAX_PENDING_PLANS_def list_all_iff Let_def)

text \<open>An approved plan is used once: applying it takes it out of the store, whether or not it succeeds.\<close>

theorem plan_applied_once:
  assumes "distinct (map pf_operation_id (fw_pending s))" and "firewall_apply m i s = (r, s')" and "fm_mode m = StandaloneUfw"
  shows "fst (firewall_apply m i s') = Inl PlanNotFound"
proof -
  have gone: "take_pending i rest = None" if "take_pending i plans = Some (p, rest)" "distinct (map pf_operation_id plans)"
    for p rest and plans :: "'a PendingFirewallPlan list"
  proof -
    have "take_pending i ps = None \<longleftrightarrow> i \<notin> pf_operation_id ` set ps" for ps :: "'a PendingFirewallPlan list"
      by (induction ps) auto
    moreover have "i \<notin> pf_operation_id ` set rest"
      using that by (induction plans arbitrary: p rest) (auto split: if_splits dest: take_pending_Some)
    ultimately show ?thesis by simp
  qed
  show ?thesis
  proof (cases "take_pending i (fw_pending s)")
    case None
    with assms show ?thesis by (simp add: firewall_apply_def assert_mutable_def)
  next
    case (Some x)
    obtain p rest where x: "x = (p, rest)" by (cases x)
    from assms(2,3) Some x have "fw_pending s' = rest"
      by (auto simp: firewall_apply_def assert_mutable_def on_host_def then_call_def split: prod.splits sum.splits)
    with gone [OF Some [unfolded x] assms(1)] assms(3) show ?thesis by (simp add: firewall_apply_def assert_mutable_def)
  qed
qed

end
