(* ===== verification/Pam_Mfa.thy ===== *)
theory Pam_Mfa
  imports Guard_Prelude Rust_Text Rust_Path
begin

text \<open>
  The second factor of the host administrator, \<open>guard-control/src/pam_mfa.rs\<close>: enrollment of a
  TOTP secret, the sealed credential on disk and its recovery codes. The directory is a list of files
  with their kind, owner and mode; every system call may fail, and the list of faults that decides it
  is part of the state. Cryptography, TOTP, the JSON and base64 codecs and the random numbers are
  parameters. Both mutexes serialise whole operations, so an interleaving of requests is a sequence of
  these operations.
\<close>

unbundle bit_operations_syntax

section \<open>Data\<close>

definition STORE_SCHEMA_VERSION :: u32 where "STORE_SCHEMA_VERSION = 1"
definition ENROLLMENT_TTL_SECONDS :: int where "ENROLLMENT_TTL_SECONDS = 10 * 60"
definition RECOVERY_CODE_COUNT :: nat where "RECOVERY_CODE_COUNT = 10"
definition KEY_FILE_NAME :: string where "KEY_FILE_NAME = ''.credential-key''"
definition ENROLLMENT_CONTEXT :: string where "ENROLLMENT_CONTEXT = ''vpsguard-pam-enrollment-v1''"
definition AEAD_KEY_CONTEXT :: string where "AEAD_KEY_CONTEXT = ''vpsguard-pam-aead-key-v1''"
definition RECOVERY_KEY_CONTEXT :: string where "RECOVERY_KEY_CONTEXT = ''vpsguard-pam-recovery-key-v1''"

datatype PamMfaMethod = TotpMethod | RecoveryMethod

datatype PamMfaError = PamStorage | PamCrypto | InvalidUsername | AlreadyConfigured | EnrollmentUnavailable | InvalidTotp
  | NotConfigured | InvalidFactor

record PamMfaEnrollmentStart =
  es_enrollment_id :: string
  es_secret_base32 :: string
  es_otpauth_uri :: string
  es_expires_in_seconds :: u64

record PamMfaEnrollmentComplete =
  em_actor :: string
  em_recovery_codes :: "string list"

record SealedCredential =
  sc_schema_version :: u32
  sc_username :: string
  sc_nonce :: string
  sc_ciphertext :: string
  sc_recovery_digests :: "string list"

record PendingEnrollment =
  pe_enrollment_digest :: string
  pe_username :: string
  pe_secret_base32 :: string
  pe_recovery_codes :: "string list"
  pe_expires_at :: int

section \<open>Libraries and the directory\<close>

record pam_library =
  pl_sha256 :: "string \<Rightarrow> string"
  pl_hmac :: "string \<Rightarrow> string \<Rightarrow> string"
  pl_seal :: "string \<Rightarrow> string \<Rightarrow> string \<Rightarrow> string \<Rightarrow> string option"
  pl_open :: "string \<Rightarrow> string \<Rightarrow> string \<Rightarrow> string \<Rightarrow> string option"
  pl_b64_encode :: "string \<Rightarrow> string"
  pl_b64_decode :: "string \<Rightarrow> string option"
  pl_base32_decode :: "string \<Rightarrow> string option"
  pl_totp_new :: "string \<Rightarrow> string \<Rightarrow> bool"
  pl_totp_base32 :: "string \<Rightarrow> string \<Rightarrow> string"
  pl_totp_url :: "string \<Rightarrow> string \<Rightarrow> string"
  pl_totp_check :: "string \<Rightarrow> string \<Rightarrow> string \<Rightarrow> u64 \<Rightarrow> bool"
  pl_payload_to_json :: "string \<Rightarrow> string option"
  pl_payload_of_json :: "string \<Rightarrow> string option"
  pl_credential_to_json :: "SealedCredential \<Rightarrow> string option"
  pl_credential_of_json :: "string \<Rightarrow> SealedCredential option"
  pl_random :: "nat \<Rightarrow> nat \<Rightarrow> string option"
  pl_euid :: u32

datatype file_kind = RegularFile | Directory | SymbolicLink

record secret_file =
  sf_kind :: file_kind
  sf_uid :: u32
  sf_mode :: u32
  sf_bytes :: string

record pam_directory =
  pd_kind :: file_kind
  pd_uid :: u32
  pd_mode :: u32
  pd_files :: "(string \<times> secret_file) list"

text \<open>A fault is the number of bytes that were written before the call failed.\<close>

record pam_world =
  pw_directory :: "pam_directory option"
  pw_pending :: "PendingEnrollment option"
  pw_faults :: "nat option list"
  pw_draws :: nat

definition pam_call ::
  "(pam_world \<Rightarrow> pam_world) \<Rightarrow> (nat \<Rightarrow> pam_world \<Rightarrow> pam_world) \<Rightarrow> pam_world \<Rightarrow> (PamMfaError + unit) \<times> pam_world" where
  "pam_call effect partial w = (case pw_faults w of
     [] \<Rightarrow> (Inr (), effect w)
   | None # faults \<Rightarrow> (Inr (), effect (w \<lparr>pw_faults := faults\<rparr>))
   | Some n # faults \<Rightarrow> (Inl PamStorage, partial n (w \<lparr>pw_faults := faults\<rparr>)))"

abbreviation pam_io :: "(pam_world \<Rightarrow> pam_world) \<Rightarrow> pam_world \<Rightarrow> (PamMfaError + unit) \<times> pam_world" where
  "pam_io effect \<equiv> pam_call effect (\<lambda>_. id)"

definition set_files :: "((string \<times> secret_file) list \<Rightarrow> (string \<times> secret_file) list) \<Rightarrow> pam_world \<Rightarrow> pam_world" where
  "set_files f w = w \<lparr>pw_directory := map_option (\<lambda>d. d \<lparr>pd_files := f (pd_files d)\<rparr>) (pw_directory w)\<rparr>"

definition find_file :: "string \<Rightarrow> pam_world \<Rightarrow> secret_file option" where
  "find_file name w = (case pw_directory w of None \<Rightarrow> None | Some d \<Rightarrow> map_of (pd_files d) name)"

definition random_bytes :: "pam_library \<Rightarrow> nat \<Rightarrow> pam_world \<Rightarrow> (PamMfaError + string) \<times> pam_world" where
  "random_bytes lib n w = (ok_or PamCrypto (pl_random lib (pw_draws w) n), w \<lparr>pw_draws := Suc (pw_draws w)\<rparr>)"

definition private_metadata :: "pam_library \<Rightarrow> file_kind \<Rightarrow> file_kind \<Rightarrow> u32 \<Rightarrow> u32 \<Rightarrow> PamMfaError + unit" where
  "private_metadata lib expected kind uid mode = reject_if (kind \<noteq> expected \<or> uid \<noteq> pl_euid lib \<or> mode AND 0x3F \<noteq> 0) PamStorage"

definition validate_directory :: "pam_library \<Rightarrow> pam_world \<Rightarrow> (PamMfaError + unit) \<times> pam_world" where
  "validate_directory lib w = then_call (pam_io id w) (\<lambda>_ w.
     (case pw_directory w of None \<Rightarrow> Inl PamStorage
      | Some d \<Rightarrow> private_metadata lib Directory (pd_kind d) (pd_uid d) (pd_mode d), w))"

definition ensure_directory :: "pam_library \<Rightarrow> pam_world \<Rightarrow> (PamMfaError + unit) \<times> pam_world" where
  "ensure_directory lib w =
     then_call (if pw_directory w \<noteq> None then validate_directory lib w
                else pam_io (\<lambda>w. w \<lparr>pw_directory := Some \<lparr>pd_kind = Directory, pd_uid = pl_euid lib, pd_mode = 0x1C0, pd_files = []\<rparr>\<rparr>) w)
       (\<lambda>_. pam_io (\<lambda>w. w \<lparr>pw_directory := map_option (\<lambda>d. d \<lparr>pd_mode := 0x1C0\<rparr>) (pw_directory w)\<rparr>))"

definition validate_secret_file :: "pam_library \<Rightarrow> string \<Rightarrow> pam_world \<Rightarrow> (PamMfaError + unit) \<times> pam_world" where
  "validate_secret_file lib name w = then_call (pam_io id w) (\<lambda>_ w.
     (case find_file name w of None \<Rightarrow> Inl PamStorage
      | Some f \<Rightarrow> private_metadata lib RegularFile (sf_kind f) (sf_uid f) (sf_mode f), w))"

definition read_secret :: "pam_library \<Rightarrow> string \<Rightarrow> pam_world \<Rightarrow> (PamMfaError + string) \<times> pam_world" where
  "read_secret lib name w =
     then_call (validate_secret_file lib name w) (\<lambda>_ w.
     then_call (pam_io id w) (\<lambda>_ w. (ok_or PamStorage (map_option sf_bytes (find_file name w)), w)))"

section \<open>Atomic replacement of a file\<close>

definition temporary_name :: "pam_library \<Rightarrow> string \<Rightarrow> string \<Rightarrow> string" where
  "temporary_name lib name random = ''.'' @ name @ ''.'' @ pl_b64_encode lib random @ ''.tmp''"

definition write_temporary :: "pam_library \<Rightarrow> string \<Rightarrow> string \<Rightarrow> pam_world \<Rightarrow> (PamMfaError + unit) \<times> pam_world" where
  "write_temporary lib temporary bytes w =
     (let put = (\<lambda>b. set_files (AList.update temporary \<lparr>sf_kind = RegularFile, sf_uid = pl_euid lib, sf_mode = 0x180, sf_bytes = b\<rparr>))
      in then_call (if find_file temporary w \<noteq> None then (Inl PamStorage, w) else pam_io (put []) w) (\<lambda>_ w.
         then_call (pam_call (put bytes) (\<lambda>n. put (take n bytes)) w) (\<lambda>_. pam_io id)))"

definition rename_file :: "string \<Rightarrow> string \<Rightarrow> pam_world \<Rightarrow> (PamMfaError + unit) \<times> pam_world" where
  "rename_file temporary name w =
     pam_io (set_files (\<lambda>files. case map_of files temporary of None \<Rightarrow> files
        | Some f \<Rightarrow> AList.update name f (AList.delete temporary files))) w"

definition atomic_write :: "pam_library \<Rightarrow> string \<Rightarrow> string \<Rightarrow> pam_world \<Rightarrow> (PamMfaError + unit) \<times> pam_world" where
  "atomic_write lib name bytes w =
     then_call (ensure_directory lib w) (\<lambda>_ w.
     then_call (random_bytes lib 12 w) (\<lambda>random w.
       let temporary = temporary_name lib name random
       in case then_call (write_temporary lib temporary bytes w) (\<lambda>_ w.
               then_call (rename_file temporary name w) (\<lambda>_. pam_io id)) of
            (Inr u, w) \<Rightarrow> (Inr u, w)
          | (Inl e, w) \<Rightarrow> (Inl e, snd (pam_io (set_files (AList.delete temporary)) w))))"

section \<open>Keys, digests and codes\<close>

definition derive_key :: "pam_library \<Rightarrow> string \<Rightarrow> string \<Rightarrow> string" where
  "derive_key lib master_key key_context = pl_sha256 lib (key_context @ master_key)"

definition enrollment_digest_of :: "pam_library \<Rightarrow> string \<Rightarrow> string" where
  "enrollment_digest_of lib v = pl_sha256 lib (ENROLLMENT_CONTEXT @ v)"

definition recovery_digest :: "pam_library \<Rightarrow> string \<Rightarrow> string \<Rightarrow> string \<Rightarrow> string" where
  "recovery_digest lib master_key username code =
     pl_hmac lib (derive_key lib master_key RECOVERY_KEY_CONTEXT) (username @ CHR 0x00 # code)"

definition constant_time_eq :: "string \<Rightarrow> string \<Rightarrow> bool" where
  "constant_time_eq candidate expected \<longleftrightarrow>
     length candidate = length expected
     \<and> fold (\<lambda>(l, r) difference. difference OR (of_nat (byte l) XOR of_nat (byte r))) (zip candidate expected) (0 :: u8) = 0"

definition hex_upper :: "string \<Rightarrow> string" where
  "hex_upper bytes = concat (map (\<lambda>b. to_ascii_uppercase (show_hex 2 (byte b))) bytes)"

definition recovery_code :: "string \<Rightarrow> string" where
  "recovery_code bytes = (let n = hex_upper bytes
     in take 8 n @ ''-'' @ take 8 (drop 8 n) @ ''-'' @ take 8 (drop 16 n) @ ''-'' @ take 8 (drop 24 n))"

fun generate_codes :: "pam_library \<Rightarrow> nat \<Rightarrow> pam_world \<Rightarrow> (PamMfaError + string list) \<times> pam_world" where
  "generate_codes lib 0 w = (Inr [], w)"
| "generate_codes lib (Suc n) w =
     then_call (random_bytes lib 16 w) (\<lambda>bytes w.
     then_call (generate_codes lib n w) (\<lambda>codes w. (Inr (recovery_code bytes # codes), w)))"

definition normalize_recovery_code :: "string \<Rightarrow> string option" where
  "normalize_recovery_code code =
     (let normalized = to_ascii_uppercase (filter (\<lambda>c. c \<noteq> CHR ''-'' \<and> \<not> is_ascii_whitespace c) code)
      in if length normalized = 32 \<and> list_all is_ascii_hexdigit normalized then Some normalized else None)"

definition valid_totp_shape :: "string \<Rightarrow> bool" where
  "valid_totp_shape v \<longleftrightarrow> length v = 6 \<and> list_all is_ascii_digit v"

definition validate_username :: "string \<Rightarrow> PamMfaError + unit" where
  "validate_username username =
     reject_if (\<not> (3 \<le> length username \<and> length username \<le> 32 \<and> is_ascii_alphanumeric (hd username)
       \<and> list_all (\<lambda>c. is_ascii_alphanumeric c \<or> c = CHR ''.'' \<or> c = CHR ''_'' \<or> c = CHR ''-'') username)) InvalidUsername"

section \<open>Sealed credentials\<close>

definition build_totp :: "pam_library \<Rightarrow> string \<Rightarrow> string \<Rightarrow> PamMfaError + unit" where
  "build_totp lib username secret = reject_if (\<not> pl_totp_new lib username secret) PamCrypto"

definition credential_aad :: "string \<Rightarrow> string" where
  "credential_aad username = ''vpsguard-pam-mfa:'' @ show_nat (unat STORE_SCHEMA_VERSION) @ '':'' @ username"

definition seal_credential ::
  "pam_library \<Rightarrow> string \<Rightarrow> string \<Rightarrow> string \<Rightarrow> string list \<Rightarrow> pam_world \<Rightarrow> (PamMfaError + SealedCredential) \<times> pam_world" where
  "seal_credential lib master_key username secret_base32 recovery_digests w =
     then_call (random_bytes lib 24 w) (\<lambda>nonce w.
       (and_then (ok_or PamCrypto (pl_payload_to_json lib secret_base32)) (\<lambda>plaintext.
        and_then (ok_or PamCrypto (pl_seal lib (derive_key lib master_key AEAD_KEY_CONTEXT) nonce (credential_aad username) plaintext))
          (\<lambda>ciphertext. Inr \<lparr>sc_schema_version = STORE_SCHEMA_VERSION, sc_username = username, sc_nonce = pl_b64_encode lib nonce,
             sc_ciphertext = pl_b64_encode lib ciphertext, sc_recovery_digests = recovery_digests\<rparr>)), w))"

definition open_credential :: "pam_library \<Rightarrow> string \<Rightarrow> SealedCredential \<Rightarrow> PamMfaError + string" where
  "open_credential lib master_key credential =
     and_then (ok_or PamStorage (pl_b64_decode lib (sc_nonce credential))) (\<lambda>nonce.
     and_then (ok_or PamStorage (pl_b64_decode lib (sc_ciphertext credential))) (\<lambda>ciphertext.
     and_then (reject_if (length nonce \<noteq> 24) PamStorage) (\<lambda>_.
     and_then (ok_or PamStorage (pl_open lib (derive_key lib master_key AEAD_KEY_CONTEXT) nonce
                 (credential_aad (sc_username credential)) ciphertext)) (\<lambda>plaintext.
     ok_or PamStorage (pl_payload_of_json lib plaintext)))))"

definition read_key :: "pam_library \<Rightarrow> pam_world \<Rightarrow> (PamMfaError + string) \<times> pam_world" where
  "read_key lib w = then_call (read_secret lib KEY_FILE_NAME w) (\<lambda>bytes w.
     (if length bytes = 32 then Inr bytes else Inl PamStorage, w))"

definition load_or_create_key :: "pam_library \<Rightarrow> pam_world \<Rightarrow> (PamMfaError + string) \<times> pam_world" where
  "load_or_create_key lib w =
     (if find_file KEY_FILE_NAME w \<noteq> None then read_key lib w
      else then_call (random_bytes lib 32 w) (\<lambda>key w.
           then_call (atomic_write lib KEY_FILE_NAME key w) (\<lambda>_ w. (Inr key, w))))"

definition load_existing_key :: "pam_library \<Rightarrow> pam_world \<Rightarrow> (PamMfaError + string) \<times> pam_world" where
  "load_existing_key lib w = (if find_file KEY_FILE_NAME w = None then (Inl NotConfigured, w) else read_key lib w)"

definition credential_name :: "string \<Rightarrow> string" where
  "credential_name username = username @ ''.json''"

definition read_credential :: "pam_library \<Rightarrow> string \<Rightarrow> pam_world \<Rightarrow> (PamMfaError + SealedCredential) \<times> pam_world" where
  "read_credential lib name w = then_call (read_secret lib name w) (\<lambda>bytes w.
     (ok_or PamStorage (pl_credential_of_json lib bytes), w))"

definition write_credential :: "pam_library \<Rightarrow> SealedCredential \<Rightarrow> pam_world \<Rightarrow> (PamMfaError + unit) \<times> pam_world" where
  "write_credential lib credential w =
     then_call (validate_username (sc_username credential), w) (\<lambda>_ w.
     then_call (ok_or PamCrypto (pl_credential_to_json lib credential), w) (\<lambda>bytes w.
       atomic_write lib (credential_name (sc_username credential)) bytes w))"

section \<open>The manager\<close>

fun scan_entries :: "pam_library \<Rightarrow> string list \<Rightarrow> pam_world \<Rightarrow> (PamMfaError + bool) \<times> pam_world" where
  "scan_entries lib [] w = (Inr True, w)"
| "scan_entries lib (name # names) w =
     then_call (pam_io id w) (\<lambda>_ w.
       if path_extension name = Some ''json''
       then then_call (read_credential lib name w) (\<lambda>credential w.
              then_call (validate_username (sc_username credential), w) (\<lambda>_ w. (Inr False, w)))
       else scan_entries lib names w)"

definition setup_required :: "pam_library \<Rightarrow> pam_world \<Rightarrow> (PamMfaError + bool) \<times> pam_world" where
  "setup_required lib w = (case pw_directory w of None \<Rightarrow> (Inr True, w)
     | Some d \<Rightarrow> then_call (validate_directory lib w) (\<lambda>_ w.
                 then_call (pam_io id w) (\<lambda>_. scan_entries lib (map fst (pd_files d)))))"

definition start_enrollment ::
  "pam_library \<Rightarrow> string \<Rightarrow> int \<Rightarrow> pam_world \<Rightarrow> (PamMfaError + PamMfaEnrollmentStart) \<times> pam_world" where
  "start_enrollment lib username now w =
     then_call (validate_username username, w) (\<lambda>_ w.
     then_call (setup_required lib w) (\<lambda>required w.
     if \<not> required then (Inl AlreadyConfigured, w)
     else then_call (random_bytes lib 20 w) (\<lambda>secret w.
     then_call (build_totp lib username secret, w) (\<lambda>_ w.
     then_call (random_bytes lib 32 w) (\<lambda>raw_id w.
     let enrollment_id = pl_b64_encode lib raw_id; secret_base32 = pl_totp_base32 lib username secret in
     then_call (generate_codes lib RECOVERY_CODE_COUNT w) (\<lambda>recovery_codes w.
       (Inr \<lparr>es_enrollment_id = enrollment_id, es_secret_base32 = secret_base32, es_otpauth_uri = pl_totp_url lib username secret,
             es_expires_in_seconds = 600\<rparr>,
        w \<lparr>pw_pending := Some \<lparr>pe_enrollment_digest = enrollment_digest_of lib enrollment_id, pe_username = username,
             pe_secret_base32 = secret_base32, pe_recovery_codes = recovery_codes,
             pe_expires_at = min (2 ^ 63 - 1) (now + ENROLLMENT_TTL_SECONDS)\<rparr>\<rparr>)))))))"

definition timestamp_of :: "int \<Rightarrow> PamMfaError + u64" where
  "timestamp_of now = (if now < 0 then Inl PamCrypto else Inr (of_int now))"

definition check_totp :: "pam_library \<Rightarrow> PamMfaError \<Rightarrow> string \<Rightarrow> string \<Rightarrow> string \<Rightarrow> int \<Rightarrow> PamMfaError + bool" where
  "check_totp lib undecodable username secret_base32 code now =
     and_then (ok_or undecodable (pl_base32_decode lib secret_base32)) (\<lambda>secret.
     and_then (timestamp_of now) (\<lambda>timestamp.
     and_then (build_totp lib username secret) (\<lambda>_. Inr (pl_totp_check lib username secret code timestamp))))"

fun code_digests :: "pam_library \<Rightarrow> string \<Rightarrow> string \<Rightarrow> string list \<Rightarrow> PamMfaError + string list" where
  "code_digests lib key username [] = Inr []"
| "code_digests lib key username (code # codes) =
     and_then (ok_or PamCrypto (normalize_recovery_code code)) (\<lambda>normalized.
     and_then (code_digests lib key username codes) (\<lambda>digests.
       Inr (pl_b64_encode lib (recovery_digest lib key username normalized) # digests)))"

definition persist_enrollment ::
  "pam_library \<Rightarrow> PendingEnrollment \<Rightarrow> pam_world \<Rightarrow> (PamMfaError + PamMfaEnrollmentComplete) \<times> pam_world" where
  "persist_enrollment lib pending w =
     then_call (ensure_directory lib w) (\<lambda>_ w.
     then_call (load_or_create_key lib w) (\<lambda>key w.
     then_call (code_digests lib key (pe_username pending) (pe_recovery_codes pending), w) (\<lambda>digests w.
     then_call (seal_credential lib key (pe_username pending) (pe_secret_base32 pending) digests w) (\<lambda>credential w.
     then_call (write_credential lib credential w) (\<lambda>_ w.
       (Inr \<lparr>em_actor = pe_username pending, em_recovery_codes = pe_recovery_codes pending\<rparr>, w \<lparr>pw_pending := None\<rparr>))))))"

definition confirm_enrollment ::
  "pam_library \<Rightarrow> string \<Rightarrow> string \<Rightarrow> int \<Rightarrow> pam_world \<Rightarrow> (PamMfaError + PamMfaEnrollmentComplete) \<times> pam_world" where
  "confirm_enrollment lib enrollment_id totp_code now w =
     (if \<not> valid_totp_shape totp_code then (Inl InvalidTotp, w)
      else case pw_pending w of None \<Rightarrow> (Inl EnrollmentUnavailable, w)
      | Some pending \<Rightarrow>
          if pe_expires_at pending \<le> now
             \<or> \<not> constant_time_eq (enrollment_digest_of lib enrollment_id) (pe_enrollment_digest pending)
          then (Inl EnrollmentUnavailable, if pe_expires_at pending \<le> now then w \<lparr>pw_pending := None\<rparr> else w)
          else then_call (check_totp lib PamCrypto (pe_username pending) (pe_secret_base32 pending) totp_code now, w) (\<lambda>ok w.
               if \<not> ok then (Inl InvalidTotp, w) else persist_enrollment lib pending w))"

fun find_position :: "('a \<Rightarrow> bool) \<Rightarrow> 'a list \<Rightarrow> nat option" where
  "find_position P [] = None"
| "find_position P (x # xs) = (if P x then Some 0 else map_option Suc (find_position P xs))"

definition digest_is :: "pam_library \<Rightarrow> string \<Rightarrow> string \<Rightarrow> bool" where
  "digest_is lib expected encoded = (case pl_b64_decode lib encoded of None \<Rightarrow> False | Some candidate \<Rightarrow> constant_time_eq candidate expected)"

definition verify_recovery ::
  "pam_library \<Rightarrow> string \<Rightarrow> SealedCredential \<Rightarrow> string \<Rightarrow> string \<Rightarrow> pam_world \<Rightarrow> (PamMfaError + PamMfaMethod) \<times> pam_world" where
  "verify_recovery lib key credential username factor w =
     then_call (ok_or InvalidFactor (normalize_recovery_code factor), w) (\<lambda>normalized w.
     case find_position (digest_is lib (recovery_digest lib key username normalized)) (sc_recovery_digests credential) of
       None \<Rightarrow> (Inl InvalidFactor, w)
     | Some index \<Rightarrow>
         (let digests = sc_recovery_digests credential
          in then_call (write_credential lib (credential \<lparr>sc_recovery_digests := take index digests @ drop (Suc index) digests\<rparr>) w)
               (\<lambda>_ w. (Inr RecoveryMethod, w))))"

definition verify_factor ::
  "pam_library \<Rightarrow> string \<Rightarrow> string \<Rightarrow> int \<Rightarrow> pam_world \<Rightarrow> (PamMfaError + PamMfaMethod) \<times> pam_world" where
  "verify_factor lib username factor now w =
     then_call (validate_username username, w) (\<lambda>_ w.
     then_call (validate_directory lib w) (\<lambda>_ w.
     then_call (load_existing_key lib w) (\<lambda>key w.
     if find_file (credential_name username) w = None then (Inl NotConfigured, w)
     else then_call (read_credential lib (credential_name username) w) (\<lambda>credential w.
     if sc_username credential \<noteq> username \<or> sc_schema_version credential \<noteq> STORE_SCHEMA_VERSION then (Inl PamStorage, w)
     else then_call (open_credential lib key credential, w) (\<lambda>secret_base32 w.
     if valid_totp_shape factor
     then then_call (check_totp lib PamStorage username secret_base32 factor now, w) (\<lambda>ok w.
            (if ok then Inr TotpMethod else Inl InvalidFactor, w))
     else verify_recovery lib key credential username factor w)))))"

section \<open>Comparison in constant time\<close>

lemma or_fold_zero:
  "fold (\<lambda>(l, r) d. d OR (f l XOR f r)) ps (d :: u8) = 0 \<longleftrightarrow> d = 0 \<and> (\<forall>(l, r) \<in> set ps. f l = f r)"
proof (induction ps arbitrary: d)
  case (Cons p ps)
  obtain l r where p: "p = (l, r)" by (cases p)
  have "d OR (f l XOR f r) = 0 \<longleftrightarrow> d = 0 \<and> f l = f r"
    by (metis or_eq_0_iff xor_self_eq word_bw_same(1) xor.left_neutral xor.assoc)
  with Cons p show ?case by auto
qed simp

lemma byte_word_inject: "(of_nat (byte a) :: u8) = of_nat (byte b) \<longleftrightarrow> a = b"
proof
  assume "(of_nat (byte a) :: u8) = of_nat (byte b)"
  then have "unat (of_nat (byte a) :: u8) = unat (of_nat (byte b) :: u8)" by simp
  then have "byte a = byte b" by (simp add: unsigned_of_nat take_bit_nat_eq_self)
  then show "a = b" by (rule byte_inj)
qed simp

lemma constant_time_eq_iff: "constant_time_eq a b \<longleftrightarrow> a = b"
proof -
  have "(\<forall>(l, r) \<in> set (zip a b). l = r) \<longleftrightarrow> a = b" if "length a = length b"
    using that by (induction a b rule: list_induct2) auto
  then show ?thesis
    using or_fold_zero [of "\<lambda>c. of_nat (byte c)" "zip a b" 0] by (auto simp: constant_time_eq_def byte_word_inject)
qed

section \<open>What the operations do to the files\<close>

lemma pam_call_elim:
  assumes "pam_call effect partial w = (r, w')"
  obtains faults where "r = Inr ()" "w' = effect (w \<lparr>pw_faults := faults\<rparr>)"
  | faults n where "r = Inl PamStorage" "w' = partial n (w \<lparr>pw_faults := faults\<rparr>)"
proof (cases "pw_faults w")
  case Nil
  with assms have "r = Inr ()" "w' = effect w" by (simp_all add: pam_call_def)
  then show ?thesis using that(1) [of "pw_faults w"] by simp
next
  case (Cons f faults)
  with assms that show ?thesis by (cases f) (auto simp: pam_call_def)
qed

lemma find_file_faults [simp]: "find_file x (w \<lparr>pw_faults := f\<rparr>) = find_file x w"
  by (simp add: find_file_def)

lemma find_file_pending [simp]: "find_file x (w \<lparr>pw_pending := f\<rparr>) = find_file x w"
  by (simp add: find_file_def)

lemma find_file_draws [simp]: "find_file x (w \<lparr>pw_draws := f\<rparr>) = find_file x w"
  by (simp add: find_file_def)

lemma find_set_files: "pw_directory w \<noteq> None \<Longrightarrow> find_file x (set_files f w) = map_of (f (pd_files (the (pw_directory w)))) x"
  by (auto simp: find_file_def set_files_def)

lemma find_update: "x \<noteq> y \<Longrightarrow> find_file x (set_files (AList.update y f) w) = find_file x w"
  by (cases "pw_directory w") (simp_all add: find_file_def set_files_def update_conv')

lemma find_delete: "x \<noteq> y \<Longrightarrow> find_file x (set_files (AList.delete y) w) = find_file x w"
  by (cases "pw_directory w") (simp_all add: find_file_def set_files_def delete_conv')

lemma find_file_directory: "pw_directory w = pw_directory w' \<Longrightarrow> find_file x w = find_file x w'"
  by (simp add: find_file_def)

lemma set_files_pending [simp]: "pw_pending (set_files f w) = pw_pending w"
  by (simp add: set_files_def)

lemma validate_directory_keeps:
  "validate_directory lib w = (r, w') \<Longrightarrow> pw_directory w' = pw_directory w \<and> pw_pending w' = pw_pending w"
  by (auto simp: validate_directory_def elim!: then_call_elim pam_call_elim split: option.splits)

lemma ensure_directory_keeps:
  assumes "ensure_directory lib w = (r, w')"
  shows "find_file x w' = find_file x w \<and> pw_pending w' = pw_pending w"
proof -
  have chmod: "find_file x (v \<lparr>pw_directory := map_option (\<lambda>d. d \<lparr>pd_mode := m\<rparr>) (pw_directory v)\<rparr>) = find_file x v" for v m
    by (cases "pw_directory v") (simp_all add: find_file_def)
  from assms show ?thesis
    by (auto simp: ensure_directory_def chmod find_file_def elim!: then_call_elim pam_call_elim split: if_splits
        dest!: validate_directory_keeps)
qed

text \<open>
  Replacing a file atomically leaves every other file alone, temporary files apart, and the replaced
  one has the old or the new content.
\<close>

definition plain_name :: "string \<Rightarrow> bool" where
  "plain_name x \<longleftrightarrow> \<not> suffix ''.tmp'' x"

lemma plain_not_temporary: "plain_name x \<Longrightarrow> x \<noteq> temporary_name lib name random"
  by (auto simp: plain_name_def temporary_name_def suffix_def)

lemma write_temporary_keeps:
  assumes "write_temporary lib temporary bytes w = (r, w')" and "x \<noteq> temporary"
  shows "find_file x w' = find_file x w \<and> pw_pending w' = pw_pending w"
  using assms
  by (auto simp: write_temporary_def find_update elim!: then_call_elim pam_call_elim split: if_splits)

lemma write_temporary_written:
  assumes "write_temporary lib temporary bytes w = (Inr u, w')" and "pw_directory w \<noteq> None"
  shows "pw_directory w' \<noteq> None \<and> find_file temporary w' =
    Some \<lparr>sf_kind = RegularFile, sf_uid = pl_euid lib, sf_mode = 0x180, sf_bytes = bytes\<rparr>"
  using assms
  by (auto simp: write_temporary_def find_set_files elim!: then_call_elim pam_call_elim split: if_splits)
     (auto simp: find_file_def set_files_def update_conv')

lemma find_rename:
  assumes "x \<noteq> temporary"
  shows "find_file x (set_files (\<lambda>files. case map_of files temporary of None \<Rightarrow> files
           | Some f \<Rightarrow> AList.update name f (AList.delete temporary files)) w)
         = (if x = name \<and> find_file temporary w \<noteq> None then find_file temporary w else find_file x w)"
  using assms
  by (cases "pw_directory w") (auto simp: find_file_def set_files_def update_conv' delete_conv' split: option.splits)

lemma rename_file_keeps:
  assumes "rename_file temporary name w = (r, w')" and "x \<noteq> temporary"
  shows "find_file x w' = find_file x w \<or> x = name \<and> find_file temporary w \<noteq> None \<and> find_file x w' = find_file temporary w"
    and "r = Inr () \<Longrightarrow> find_file temporary w \<noteq> None \<Longrightarrow> name \<noteq> temporary \<Longrightarrow> find_file name w' = find_file temporary w"
    and "pw_pending w' = pw_pending w"
  using assms by (auto simp: rename_file_def find_rename elim!: pam_call_elim split: if_splits)

definition file_of :: "pam_library \<Rightarrow> string \<Rightarrow> secret_file" where
  "file_of lib bytes = \<lparr>sf_kind = RegularFile, sf_uid = pl_euid lib, sf_mode = 0x180, sf_bytes = bytes\<rparr>"

lemma ensure_directory_exists: "ensure_directory lib w = (Inr u, w') \<Longrightarrow> pw_directory w' \<noteq> None"
  by (auto simp: ensure_directory_def elim!: then_call_elim pam_call_elim split: if_splits dest!: validate_directory_keeps)

lemma random_bytes_keeps:
  "random_bytes lib n w = (r, w') \<Longrightarrow> pw_directory w' = pw_directory w \<and> pw_pending w' = pw_pending w \<and> find_file x w' = find_file x w"
  by (auto simp: random_bytes_def)

lemma swap_effect:
  assumes "then_call (write_temporary lib temporary bytes w) (\<lambda>_ w. then_call (rename_file temporary name w) (\<lambda>_. pam_io id)) = (r, w')"
    and "x \<noteq> temporary" and "pw_directory w \<noteq> None"
  shows "(find_file x w' = find_file x w \<or> x = name \<and> find_file x w' = Some (file_of lib bytes))
    \<and> (r = Inr () \<longrightarrow> name \<noteq> temporary \<longrightarrow> find_file name w' = Some (file_of lib bytes)) \<and> pw_pending w' = pw_pending w"
  using assms(1)
proof (cases rule: then_call_elim)
  case (stop e)
  with write_temporary_keeps [OF stop(1) assms(2)] show ?thesis by simp
next
  case (go u w1)
  note kept = write_temporary_keeps [OF go(1) assms(2)]
  have temp: "find_file temporary w1 = Some (file_of lib bytes)"
    using write_temporary_written [OF go(1) assms(3)] by (simp add: file_of_def)
  from go(2) show ?thesis
  proof (cases rule: then_call_elim)
    case (stop e)
    with rename_file_keeps [OF stop(1) assms(2)] kept temp show ?thesis by auto
  next
    case (go v w2)
    have "find_file y w' = find_file y w2" "pw_pending w' = pw_pending w2" for y
      using go(2) by (auto elim!: pam_call_elim)
    with rename_file_keeps [OF go(1) assms(2)] kept temp show ?thesis by auto
  qed
qed

lemma name_not_temporary: "name \<noteq> temporary_name lib name random"
proof
  assume "name = temporary_name lib name random"
  then have "length name = length (temporary_name lib name random)" by simp
  then show False by (simp add: temporary_name_def)
qed

lemma atomic_write_effect:
  assumes "atomic_write lib name bytes w = (r, w')" and "plain_name x"
  shows "(find_file x w' = find_file x w \<or> x = name \<and> find_file x w' = Some (file_of lib bytes))
    \<and> (r = Inr () \<longrightarrow> find_file name w' = Some (file_of lib bytes)) \<and> pw_pending w' = pw_pending w"
  using assms(1) unfolding atomic_write_def
proof (cases rule: then_call_elim)
  case (stop e)
  with ensure_directory_keeps [OF stop(1)] show ?thesis by simp
next
  case (go u w1)
  note first = ensure_directory_keeps [OF go(1), of x] ensure_directory_exists [OF go(1) [unfolded unit_eq]]
  from go(2) show ?thesis
  proof (cases rule: then_call_elim)
    case (stop e)
    with random_bytes_keeps [OF stop(1), of x] first show ?thesis by simp
  next
    case (go random w2)
    let ?t = "temporary_name lib name random"
    note x = plain_not_temporary [OF assms(2), of lib name random]
    have dir: "pw_directory w2 \<noteq> None" using random_bytes_keeps [OF go(1)] first by simp
    obtain r3 w3 where swap: "then_call (write_temporary lib ?t bytes w2) (\<lambda>_ w. then_call (rename_file ?t name w) (\<lambda>_. pam_io id)) = (r3, w3)"
      by fastforce
    note effect = swap_effect [OF swap x dir]
    show ?thesis
    proof (cases r3)
      case (Inl e)
      have "find_file x (snd (pam_io (set_files (AList.delete ?t)) w3)) = find_file x w3"
        "pw_pending (snd (pam_io (set_files (AList.delete ?t)) w3)) = pw_pending w3"
        using x by (cases "pam_io (set_files (AList.delete ?t)) w3"; auto simp: find_delete elim!: pam_call_elim)+
      with Inl go(2) swap effect first random_bytes_keeps [OF go(1), of x] show ?thesis by (auto simp: Let_def)
    next
      case (Inr v)
      with go(2) swap effect first random_bytes_keeps [OF go(1), of x] name_not_temporary [of name lib random]
      show ?thesis by (auto simp: Let_def)
    qed
  qed
qed

definition same_store :: "pam_world \<Rightarrow> pam_world \<Rightarrow> bool" where
  "same_store w w' \<longleftrightarrow> pw_directory w' = pw_directory w \<and> pw_pending w' = pw_pending w"

lemma same_store_trans: "same_store w w1 \<Longrightarrow> same_store w1 w2 \<Longrightarrow> same_store w w2"
  by (simp add: same_store_def)

lemma same_store_find: "same_store w w' \<Longrightarrow> find_file x w' = find_file x w"
  by (simp add: same_store_def find_file_def)

lemma pam_io_id: "pam_io id w = (r, w') \<Longrightarrow> same_store w w'"
  by (auto simp: same_store_def elim!: pam_call_elim)

lemma same_store_refl [simp]: "same_store w w"
  by (simp add: same_store_def)

lemma validate_directory_same: "validate_directory lib w = (r, w') \<Longrightarrow> same_store w w'"
  using validate_directory_keeps by (simp add: same_store_def)

lemma read_secret_same:
  assumes "read_secret lib name w = (r, w')"
  shows "same_store w w' \<and> (\<forall>bytes. r = Inr bytes \<longrightarrow> (\<exists>f. find_file name w = Some f \<and> bytes = sf_bytes f
           \<and> private_metadata lib RegularFile (sf_kind f) (sf_uid f) (sf_mode f) = Inr ()))"
proof -
  have valid: "same_store v v' \<and> (q = Inr () \<longrightarrow> (\<exists>f. find_file name v = Some f
      \<and> private_metadata lib RegularFile (sf_kind f) (sf_uid f) (sf_mode f) = Inr ()))"
    if "validate_secret_file lib name v = (q, v')" for q v v'
    using that unfolding validate_secret_file_def
    by (auto elim!: then_call_elim dest!: pam_io_id split: option.splits simp: same_store_find)
  from assms show ?thesis
    unfolding read_secret_def
    by (auto elim!: then_call_elim dest!: valid pam_io_id simp: same_store_find outcome_simps intro: same_store_trans)
qed

lemma read_credential_same:
  assumes "read_credential lib name w = (r, w')"
  shows "same_store w w' \<and> (\<forall>c. r = Inr c \<longrightarrow> (\<exists>f. find_file name w = Some f \<and> pl_credential_of_json lib (sf_bytes f) = Some c))"
  using assms unfolding read_credential_def
  by (auto elim!: then_call_elim dest!: read_secret_same simp: outcome_simps)

lemma load_existing_key_same: "load_existing_key lib w = (r, w') \<Longrightarrow> same_store w w'"
  by (auto simp: load_existing_key_def read_key_def elim!: then_call_elim dest!: read_secret_same split: if_splits)

section \<open>Recovery codes are consumed\<close>

text \<open>The codes that are left for a user are the digests of the stored credential.\<close>

definition stored_credential :: "pam_library \<Rightarrow> string \<Rightarrow> pam_world \<Rightarrow> SealedCredential option" where
  "stored_credential lib username w = (case find_file (credential_name username) w of
     None \<Rightarrow> None | Some f \<Rightarrow> pl_credential_of_json lib (sf_bytes f))"

definition codes_left :: "pam_library \<Rightarrow> string \<Rightarrow> pam_world \<Rightarrow> nat" where
  "codes_left lib username w = (case stored_credential lib username w of None \<Rightarrow> 0 | Some c \<Rightarrow> length (sc_recovery_digests c))"

definition json_faithful :: "pam_library \<Rightarrow> bool" where
  "json_faithful lib \<longleftrightarrow> (\<forall>c bytes. pl_credential_to_json lib c = Some bytes \<longrightarrow> pl_credential_of_json lib bytes = Some c)"

lemma credential_name_plain: "plain_name (credential_name u)"
  by (auto simp: plain_name_def credential_name_def suffix_def)

lemma credential_name_inject [simp]: "credential_name u = credential_name v \<longleftrightarrow> u = v"
  by (simp add: credential_name_def)

lemma find_position_bound: "find_position P xs = Some i \<Longrightarrow> i < length xs \<and> P (xs ! i)"
  by (induction xs arbitrary: i) (auto split: if_splits)

text \<open>A verification changes the store only by writing the credential of its user with one digest less.\<close>

lemma verify_recovery_effect:
  assumes "verify_recovery lib key c u factor w = (r, w')" and "json_faithful lib" and "sc_username c = u"
  shows "(same_store w w' \<and> r \<noteq> Inr RecoveryMethod) \<or>
    (\<exists>i < length (sc_recovery_digests c).
       (\<forall>v. v \<noteq> u \<longrightarrow> stored_credential lib v w' = stored_credential lib v w)
       \<and> (stored_credential lib u w' = stored_credential lib u w \<and> r \<noteq> Inr RecoveryMethod
          \<or> stored_credential lib u w' = Some (c \<lparr>sc_recovery_digests := take i (sc_recovery_digests c) @ drop (Suc i) (sc_recovery_digests c)\<rparr>)))"
  using assms(1) unfolding verify_recovery_def
proof (cases rule: then_call_elim)
  case (go normalized w1)
  then have w1: "w1 = w" by simp
  show ?thesis
  proof (cases "find_position (digest_is lib (recovery_digest lib key u normalized)) (sc_recovery_digests c)")
    case None
    with go w1 show ?thesis by auto
  next
    case (Some i)
    let ?c = "c \<lparr>sc_recovery_digests := take i (sc_recovery_digests c) @ drop (Suc i) (sc_recovery_digests c)\<rparr>"
    from Some go(2) w1 have "then_call (write_credential lib ?c w) (\<lambda>_ w. (Inr RecoveryMethod, w)) = (r, w')"
      by (simp add: Let_def)
    then obtain r0 where wrote: "write_credential lib ?c w = (r0, w')" and r: "r = Inr RecoveryMethod \<longrightarrow> r0 = Inr ()"
      by (auto elim!: then_call_elim)
    show ?thesis
    proof (cases "\<exists>bytes. validate_username u = Inr () \<and> pl_credential_to_json lib ?c = Some bytes")
      case True
      then obtain bytes where bytes: "validate_username u = Inr ()" "pl_credential_to_json lib ?c = Some bytes" by blast
      with wrote assms(3) have "atomic_write lib (credential_name u) bytes w = (r0, w')" by (simp add: write_credential_def)
      note effect = atomic_write_effect [OF this credential_name_plain]
      have "pl_credential_of_json lib bytes = Some ?c" using assms(2) bytes(2) by (simp add: json_faithful_def)
      then have "stored_credential lib u w' = Some ?c" if "find_file (credential_name u) w' = Some (file_of lib bytes)"
        using that by (simp add: stored_credential_def file_of_def)
      moreover have "find_file (credential_name u) w' = find_file (credential_name u) w
          \<Longrightarrow> stored_credential lib u w' = stored_credential lib u w" by (simp add: stored_credential_def)
      ultimately have "stored_credential lib u w' = stored_credential lib u w \<and> r \<noteq> Inr RecoveryMethod
          \<or> stored_credential lib u w' = Some ?c" using effect [of u] r by blast
      moreover have "stored_credential lib v w' = stored_credential lib v w" if "v \<noteq> u" for v
        using effect [of v] that by (auto simp: stored_credential_def)
      ultimately show ?thesis using find_position_bound [OF Some] by blast
    next
      case False
      with wrote assms(3) have "same_store w w' \<and> r0 \<noteq> Inr ()"
        by (cases "validate_username u") (auto simp: write_credential_def elim!: then_call_elim simp: outcome_simps)
      with r show ?thesis by blast
    qed
  qed
qed auto

lemma verify_factor_elim:
  assumes "verify_factor lib u factor now w = (r, w')"
  obtains (unchanged) "same_store w w'" "r \<noteq> Inr RecoveryMethod"
  | (recovery) key c w1 where "same_store w w1" "stored_credential lib u w = Some c" "sc_username c = u"
      "verify_recovery lib key c u factor w1 = (r, w')"
  using assms unfolding verify_factor_def
proof (cases rule: then_call_elim)
  case (go _ w0)
  then have "w0 = w" by simp
  from go(2) [unfolded this] show ?thesis
  proof (cases rule: then_call_elim)
    case (stop e)
    with unchanged validate_directory_same show ?thesis by blast
  next
    case (go _ w1)
    note s1 = validate_directory_same [OF go(1)]
    from go(2) show ?thesis
    proof (cases rule: then_call_elim)
      case (stop e)
      with unchanged same_store_trans [OF s1 load_existing_key_same] show ?thesis by blast
    next
      case (go key w2)
      note s2 = same_store_trans [OF s1 load_existing_key_same [OF go(1)]]
      show ?thesis
      proof (cases "find_file (credential_name u) w2 = None")
        case True
        with go(2) have "w' = w2" "r = Inl NotConfigured" by simp_all
        with s2 unchanged show ?thesis by simp
      next
        case False
        with go(2) have "then_call (read_credential lib (credential_name u) w2) (\<lambda>credential w.
            if sc_username credential \<noteq> u \<or> sc_schema_version credential \<noteq> STORE_SCHEMA_VERSION then (Inl PamStorage, w)
            else then_call (open_credential lib key credential, w) (\<lambda>secret_base32 w.
              if valid_totp_shape factor
              then then_call (check_totp lib PamStorage u secret_base32 factor now, w) (\<lambda>ok w.
                     (if ok then Inr TotpMethod else Inl InvalidFactor, w))
              else verify_recovery lib key credential u factor w)) = (r, w')" by simp
        then show ?thesis
        proof (cases rule: then_call_elim)
          case (stop e)
          with unchanged same_store_trans [OF s2] read_credential_same show ?thesis by blast
        next
          case (go c w3)
          note c = read_credential_same [OF go(1)]
          have s3: "same_store w w3" using c same_store_trans [OF s2] by blast
          have stored: "stored_credential lib u w = Some c"
            using c same_store_find [OF s2] by (auto simp: stored_credential_def)
          show ?thesis
          proof (cases "(same_store w3 w' \<and> r \<noteq> Inr RecoveryMethod)")
            case True
            with unchanged same_store_trans [OF s3] show ?thesis by blast
          next
            case False
            with go(2) have "sc_username c = u" "verify_recovery lib key c u factor w3 = (r, w')"
              by (auto elim!: then_call_elim split: if_splits)
            with recovery s3 stored show ?thesis by blast
          qed
        qed
      qed
    qed
  qed
qed (use unchanged in simp)

type_synonym verification = "string \<times> string \<times> int"

definition verify_step :: "pam_library \<Rightarrow> pam_world \<Rightarrow> verification \<Rightarrow> pam_world" where
  "verify_step lib w e = (case e of (u, factor, now) \<Rightarrow> snd (verify_factor lib u factor now w))"

definition recovers :: "pam_library \<Rightarrow> string \<Rightarrow> pam_world \<Rightarrow> verification \<Rightarrow> bool" where
  "recovers lib username w e = (case e of (u, factor, now) \<Rightarrow> u = username \<and> fst (verify_factor lib u factor now w) = Inr RecoveryMethod)"

lemma verify_step_codes:
  assumes "json_faithful lib"
  shows "codes_left lib u (verify_step lib w e) \<le> codes_left lib u w
    \<and> (recovers lib u w e \<longrightarrow> Suc (codes_left lib u (verify_step lib w e)) = codes_left lib u w)"
proof -
  obtain v factor now where e: "e = (v, factor, now)" by (cases e)
  obtain r w' where run: "verify_factor lib v factor now w = (r, w')" by fastforce
  from run show ?thesis
  proof (cases rule: verify_factor_elim)
    case unchanged
    then have "codes_left lib u w' = codes_left lib u w"
      using same_store_find by (simp add: codes_left_def stored_credential_def)
    with unchanged run e show ?thesis by (simp add: verify_step_def recovers_def)
  next
    case (recovery key c w1)
    have same: "stored_credential lib x w1 = stored_credential lib x w" for x
      using same_store_find [OF recovery(1)] by (simp add: stored_credential_def)
    have "codes_left lib u w' \<le> codes_left lib u w \<and> (u = v \<and> r = Inr RecoveryMethod \<longrightarrow> Suc (codes_left lib u w') = codes_left lib u w)"
      using verify_recovery_effect [OF recovery(4) assms recovery(3)]
    proof (elim disjE exE conjE)
      assume "same_store w1 w'" "r \<noteq> Inr RecoveryMethod"
      then show ?thesis using same_store_find [of w1 w'] same by (simp add: codes_left_def stored_credential_def)
    qed (use recovery(2) same in \<open>cases "u = v"; auto simp: codes_left_def\<close>)+
    with run e show ?thesis by (auto simp: verify_step_def recovers_def)
  qed
qed

interpretation recovery_meter: metered "verify_step lib" "\<lambda>w. json_faithful lib \<and> codes_left lib u w \<le> n" "\<lambda>_. True"
  "recovers lib u" "\<lambda>w. n - codes_left lib u w" n
proof unfold_locales
  fix w e
  assume w: "json_faithful lib \<and> codes_left lib u w \<le> n"
  note step = verify_step_codes [of lib u w e]
  from w step show "json_faithful lib \<and> codes_left lib u (verify_step lib w e) \<le> n" by simp
  from w step show "n - codes_left lib u w \<le> n - codes_left lib u (verify_step lib w e)" by (simp add: diff_le_mono2)
  assume "recovers lib u w e"
  with w step show "n - codes_left lib u w < n \<and> n - codes_left lib u w < n - codes_left lib u (verify_step lib w e)" by auto
qed

text \<open>
  (C6) A recovery code is spent by its use. In any sequence of verifications, whatever factors the users
  present and whatever system calls fail, a user is let in by recovery codes at most as often as there
  were codes stored, and never again once they are used up.
\<close>

theorem recovery_codes_consumed:
  assumes "json_faithful lib"
  shows "count_run (verify_step lib) (recovers lib u) w es \<le> codes_left lib u w"
  using recovery_meter.admissions_bounded [of lib u w "codes_left lib u w" es] assms by (simp add: list_all_iff)

section \<open>Enrollment\<close>

lemma load_or_create_key_keeps:
  assumes "load_or_create_key lib w = (r, w')"
  shows "find_file (credential_name x) w' = find_file (credential_name x) w \<and> pw_pending w' = pw_pending w"
proof -
  have "credential_name x \<noteq> KEY_FILE_NAME"
  proof
    assume "credential_name x = KEY_FILE_NAME"
    then have "last (credential_name x) = last KEY_FILE_NAME" by simp
    then show False by (simp add: credential_name_def KEY_FILE_NAME_def)
  qed
  show ?thesis
  proof (cases "find_file KEY_FILE_NAME w = None")
    case False
    with assms have "read_key lib w = (r, w')" by (simp add: load_or_create_key_def)
    then have "same_store w w'" by (auto simp: read_key_def elim!: then_call_elim dest!: read_secret_same)
    then show ?thesis by (simp add: same_store_find) (simp add: same_store_def)
  next
    case True
    with assms have "then_call (random_bytes lib 32 w) (\<lambda>key w.
        then_call (atomic_write lib KEY_FILE_NAME key w) (\<lambda>_ w. (Inr key, w))) = (r, w')" by (simp add: load_or_create_key_def)
    then show ?thesis
    proof (cases rule: then_call_elim)
      case (stop e)
      then show ?thesis using random_bytes_keeps by blast
    next
      case (go key w1)
      from go(2) obtain q where "atomic_write lib KEY_FILE_NAME key w1 = (q, w')" by (auto elim!: then_call_elim)
      from atomic_write_effect [OF this credential_name_plain [of x]] \<open>credential_name x \<noteq> KEY_FILE_NAME\<close>
        random_bytes_keeps [OF go(1), of "credential_name x"]
      show ?thesis by simp
    qed
  qed
qed

lemma ensure_directory_same_file: "ensure_directory lib w = (r, w') \<Longrightarrow> find_file x w' = find_file x w"
  using ensure_directory_keeps by blast

lemma code_digests_Inr:
  "code_digests lib key u codes = Inr digests \<longleftrightarrow>
   (\<exists>ns. map normalize_recovery_code codes = map Some ns \<and> digests = map (\<lambda>n. pl_b64_encode lib (recovery_digest lib key u n)) ns)"
proof (induction codes arbitrary: digests)
  case (Cons c codes)
  show ?case
  proof
    assume "code_digests lib key u (c # codes) = Inr digests"
    with Cons obtain n ns where "normalize_recovery_code c = Some n" "map normalize_recovery_code codes = map Some ns"
      "digests = pl_b64_encode lib (recovery_digest lib key u n) # map (\<lambda>n. pl_b64_encode lib (recovery_digest lib key u n)) ns"
      by (auto simp: outcome_simps)
    then show "\<exists>ns. map normalize_recovery_code (c # codes) = map Some ns
        \<and> digests = map (\<lambda>n. pl_b64_encode lib (recovery_digest lib key u n)) ns"
      by (intro exI [of _ "n # ns"]) simp
  next
    assume "\<exists>ns. map normalize_recovery_code (c # codes) = map Some ns
        \<and> digests = map (\<lambda>n. pl_b64_encode lib (recovery_digest lib key u n)) ns"
    with Cons show "code_digests lib key u (c # codes) = Inr digests"
      by (auto simp: outcome_simps map_eq_Cons_conv Cons_eq_map_conv)
  qed
qed auto

lemma persist_enrollment_stored:
  assumes "persist_enrollment lib p w = (Inr c, w')" and "json_faithful lib"
  shows "pw_pending w' = None \<and> em_actor c = pe_username p \<and> em_recovery_codes c = pe_recovery_codes p
    \<and> codes_left lib (pe_username p) w' = length (pe_recovery_codes p)
    \<and> (\<forall>v. v \<noteq> pe_username p \<longrightarrow> stored_credential lib v w' = stored_credential lib v w)"
proof -
  let ?u = "pe_username p"
  from assms(1) obtain w1 key w2 digests credential w3 w4 where run:
    "ensure_directory lib w = (Inr (), w1)" "load_or_create_key lib w1 = (Inr key, w2)"
    "code_digests lib key ?u (pe_recovery_codes p) = Inr digests"
    "seal_credential lib key ?u (pe_secret_base32 p) digests w2 = (Inr credential, w3)"
    "write_credential lib credential w3 = (Inr (), w4)" "w' = w4 \<lparr>pw_pending := None\<rparr>"
    "c = \<lparr>em_actor = ?u, em_recovery_codes = pe_recovery_codes p\<rparr>"
    unfolding persist_enrollment_def by (auto elim!: then_call_elim)
  have digests: "length digests = length (pe_recovery_codes p)"
    using run(3) by (auto simp: code_digests_Inr dest: arg_cong [of _ _ length])
  from run(4) have credential: "sc_username credential = ?u" "sc_recovery_digests credential = digests" "same_store w2 w3"
    by (auto simp: seal_credential_def outcome_simps same_store_def elim!: then_call_elim dest!: random_bytes_keeps)
  from run(5) credential obtain bytes where bytes: "pl_credential_to_json lib credential = Some bytes"
    "atomic_write lib (credential_name ?u) bytes w3 = (Inr (), w4)"
    by (auto simp: write_credential_def outcome_simps elim!: then_call_elim)
  note effect = atomic_write_effect [OF bytes(2) credential_name_plain]
  have "stored_credential lib ?u w' = Some credential"
    using effect [of ?u] assms(2) bytes(1) run(6) by (simp add: stored_credential_def file_of_def json_faithful_def)
  moreover have "stored_credential lib v w' = stored_credential lib v w" if "v \<noteq> ?u" for v
    using effect [of v] that run(6) same_store_find [OF credential(3)] load_or_create_key_keeps [OF run(2), of v]
      ensure_directory_same_file [OF run(1)] by (simp add: stored_credential_def)
  ultimately show ?thesis using run(6,7) credential digests by (simp add: codes_left_def)
qed

definition store_error :: "PamMfaError \<Rightarrow> bool" where
  "store_error e \<longleftrightarrow> e = PamStorage \<or> e = PamCrypto \<or> e = InvalidUsername"

lemma store_errors:
  "pam_call effect partial w = (Inl e, w') \<Longrightarrow> store_error e"
  "random_bytes lib n w = (Inl e, w') \<Longrightarrow> store_error e"
  "private_metadata lib k k' i m = Inl e \<Longrightarrow> store_error e"
  "validate_username u = Inl e \<Longrightarrow> store_error e"
  by (auto simp: store_error_def random_bytes_def private_metadata_def validate_username_def outcome_simps elim!: pam_call_elim)

lemma validate_directory_error: "validate_directory lib w = (Inl e, w') \<Longrightarrow> store_error e"
  by (auto simp: validate_directory_def private_metadata_def store_error_def outcome_simps elim!: then_call_elim pam_call_elim
      split: option.splits)

lemma ensure_directory_error: "ensure_directory lib w = (Inl e, w') \<Longrightarrow> store_error e"
  by (auto simp: ensure_directory_def elim!: then_call_elim dest: store_errors validate_directory_error split: if_splits)

lemma read_secret_error: "read_secret lib name w = (Inl e, w') \<Longrightarrow> store_error e"
  by (auto simp: read_secret_def validate_secret_file_def private_metadata_def store_error_def outcome_simps
      elim!: then_call_elim pam_call_elim split: option.splits)

lemma write_temporary_error: "write_temporary lib t b w = (Inl e, w') \<Longrightarrow> store_error e"
  by (auto simp: write_temporary_def Let_def elim!: then_call_elim dest: store_errors split: if_splits) (simp add: store_error_def)

lemma atomic_write_error: "atomic_write lib name bytes w = (Inl e, w') \<Longrightarrow> store_error e"
  by (auto simp: atomic_write_def Let_def rename_file_def elim!: then_call_elim
      dest: store_errors ensure_directory_error write_temporary_error split: prod.splits sum.splits)

lemma load_or_create_key_error: "load_or_create_key lib w = (Inl e, w') \<Longrightarrow> store_error e"
  by (auto simp: load_or_create_key_def read_key_def elim!: then_call_elim
      dest: store_errors read_secret_error atomic_write_error split: if_splits) (simp add: store_error_def)

lemma code_digests_error: "code_digests lib key u codes = Inl e \<Longrightarrow> store_error e"
  by (induction codes) (auto simp: outcome_simps store_error_def)

lemma persist_enrollment_error: "persist_enrollment lib p w = (Inl e, w') \<Longrightarrow> store_error e"
  unfolding persist_enrollment_def
  by (auto elim!: then_call_elim dest: ensure_directory_error load_or_create_key_error code_digests_error)
     (auto simp: seal_credential_def write_credential_def outcome_simps elim!: then_call_elim dest: store_errors atomic_write_error,
      simp_all add: store_error_def)

lemma confirm_enrollment_elim:
  assumes "confirm_enrollment lib enrollment_id totp_code now w = (r, w')"
  obtains (refused) "pw_directory w' = pw_directory w" "\<exists>e. r = Inl e"
  | (accepted) p secret where "pw_pending w = Some p" "now < pe_expires_at p"
      "enrollment_digest_of lib enrollment_id = pe_enrollment_digest p" "pl_base32_decode lib (pe_secret_base32 p) = Some secret"
      "pl_totp_check lib (pe_username p) secret totp_code (of_int now)" "persist_enrollment lib p w = (r, w')"
proof (cases "pw_directory w' = pw_directory w \<and> (\<exists>e. r = Inl e)")
  case True
  then show ?thesis using refused by blast
next
  case False
  with assms obtain p where p: "pw_pending w = Some p" "now < pe_expires_at p"
    "enrollment_digest_of lib enrollment_id = pe_enrollment_digest p"
    "check_totp lib PamCrypto (pe_username p) (pe_secret_base32 p) totp_code now = Inr True" "persist_enrollment lib p w = (r, w')"
    by (auto simp: confirm_enrollment_def constant_time_eq_iff elim!: then_call_elim split: if_splits option.splits)
  from p(4) obtain secret where "pl_base32_decode lib (pe_secret_base32 p) = Some secret"
    "pl_totp_check lib (pe_username p) secret totp_code (of_int now)"
    by (auto simp: check_totp_def timestamp_of_def outcome_simps split: if_splits)
  with p accepted show ?thesis by blast
qed

text \<open>
  (C16) No administrator is enrolled without the password holder's authenticator. A confirmation succeeds
  only while an enrollment is pending and not expired, for the identifier that was handed out, and with
  a code that the pending secret generates now; it then stores the credential of exactly that user with
  one digest for each recovery code and closes the enrollment. A confirmation refused for its code or
  its identifier leaves the stored credentials as they were.
\<close>

theorem enrollment_needs_possession:
  assumes "json_faithful lib"
    and "confirm_enrollment lib enrollment_id totp_code now w = (r, w')"
  shows "(\<forall>c. r = Inr c \<longrightarrow> (\<exists>p secret. pw_pending w = Some p \<and> now < pe_expires_at p
            \<and> enrollment_digest_of lib enrollment_id = pe_enrollment_digest p
            \<and> pl_base32_decode lib (pe_secret_base32 p) = Some secret
            \<and> pl_totp_check lib (pe_username p) secret totp_code (of_int now)
            \<and> em_actor c = pe_username p \<and> em_recovery_codes c = pe_recovery_codes p
            \<and> codes_left lib (pe_username p) w' = length (pe_recovery_codes p)
            \<and> (\<forall>v. v \<noteq> pe_username p \<longrightarrow> stored_credential lib v w' = stored_credential lib v w)
            \<and> pw_pending w' = None))
       \<and> (r = Inl InvalidTotp \<or> r = Inl EnrollmentUnavailable \<longrightarrow> stored_credential lib v w' = stored_credential lib v w)"
  using assms(2)
proof (cases rule: confirm_enrollment_elim)
  case refused
  then show ?thesis by (auto simp: stored_credential_def find_file_def)
next
  case (accepted p secret)
  show ?thesis
  proof (cases r)
    case (Inl e)
    with accepted(6) have "store_error e" by (intro persist_enrollment_error [of lib p w e w']) simp
    with Inl show ?thesis by (auto simp: store_error_def)
  next
    case (Inr c)
    with accepted persist_enrollment_stored [OF _ assms(1), of p w c w'] show ?thesis by auto
  qed
qed

section \<open>A concrete enrollment\<close>

definition sample_normalized :: string where
  "sample_normalized = replicate 32 (CHR ''A'')"

definition sample_code :: string where
  "sample_code = recovery_code (replicate 16 (char_of (170 :: nat)))"

definition sample_credential :: "nat \<Rightarrow> SealedCredential" where
  "sample_credential n = \<lparr>sc_schema_version = 1, sc_username = ''operator'', sc_nonce = replicate 24 (CHR ''n''),
     sc_ciphertext = ''seed'', sc_recovery_digests = replicate n (''operator'' @ CHR 0x00 # sample_normalized)\<rparr>"

definition sample_pam_library :: pam_library where
  "sample_pam_library = \<lparr>pl_sha256 = (\<lambda>s. s), pl_hmac = (\<lambda>_ s. s), pl_seal = (\<lambda>_ _ _ s. Some s), pl_open = (\<lambda>_ _ _ s. Some s),
     pl_b64_encode = (\<lambda>s. s), pl_b64_decode = Some, pl_base32_decode = Some, pl_totp_new = (\<lambda>_ _. True),
     pl_totp_base32 = (\<lambda>_ s. s), pl_totp_url = (\<lambda>_ s. s), pl_totp_check = (\<lambda>_ _ code _. code = ''123456''),
     pl_payload_to_json = Some, pl_payload_of_json = Some,
     pl_credential_to_json = (\<lambda>c. if c = sample_credential 0 then Some ''0'' else if c = sample_credential 1 then Some ''1'' else None),
     pl_credential_of_json = (\<lambda>s. if s = ''0'' then Some (sample_credential 0) else if s = ''1'' then Some (sample_credential 1) else None),
     pl_random = (\<lambda>_ n. Some (replicate n (CHR ''n''))), pl_euid = 0\<rparr>"

definition enrolled_world :: pam_world where
  "enrolled_world = \<lparr>pw_directory = Some \<lparr>pd_kind = Directory, pd_uid = 0, pd_mode = 0x1C0,
       pd_files = [(KEY_FILE_NAME, file_of sample_pam_library (replicate 32 (CHR ''k''))), (''operator.json'', file_of sample_pam_library ''1'')]\<rparr>,
     pw_pending = None, pw_faults = [], pw_draws = 0\<rparr>"

definition enrolling_world :: pam_world where
  "enrolling_world = \<lparr>pw_directory = None, pw_pending = Some \<lparr>pe_enrollment_digest = ENROLLMENT_CONTEXT @ ''id'', pe_username = ''operator'',
     pe_secret_base32 = ''seed'', pe_recovery_codes = [sample_code], pe_expires_at = 600\<rparr>, pw_faults = [], pw_draws = 0\<rparr>"

lemma sample_json_faithful: "json_faithful sample_pam_library"
  by (simp add: json_faithful_def sample_pam_library_def)

theorem recovery_codes_consumed_witness:
  "count_run (verify_step sample_pam_library) (recovers sample_pam_library ''operator'') enrolled_world
     [(''operator'', sample_code, 5), (''operator'', sample_code, 6)] \<le> 1
   \<and> recovers sample_pam_library ''operator'' enrolled_world (''operator'', sample_code, 5)"
proof -
  have "codes_left sample_pam_library ''operator'' enrolled_world = 1" by code_simp
  moreover have "recovers sample_pam_library ''operator'' enrolled_world (''operator'', sample_code, 5)" by code_simp
  ultimately show ?thesis using recovery_codes_consumed [OF sample_json_faithful, of "''operator''" enrolled_world] by metis
qed

theorem enrollment_needs_possession_witness:
  "\<exists>c w'. confirm_enrollment sample_pam_library ''id'' ''123456'' 5 enrolling_world = (Inr c, w')
     \<and> em_actor c = ''operator'' \<and> codes_left sample_pam_library ''operator'' w' = 1 \<and> pw_pending w' = None"
proof -
  obtain r w' where run: "confirm_enrollment sample_pam_library ''id'' ''123456'' 5 enrolling_world = (r, w')"
    by (cases "confirm_enrollment sample_pam_library ''id'' ''123456'' 5 enrolling_world")
  have "\<not> isl (fst (confirm_enrollment sample_pam_library ''id'' ''123456'' 5 enrolling_world))" by code_simp
  with run obtain c where "r = Inr c" by (cases r) auto
  with enrollment_needs_possession [OF sample_json_faithful run] show ?thesis
    using run by (auto simp: enrolling_world_def)
qed

end
