(* ===== verification/Root_Helper.thy ===== *)
theory Root_Helper
  imports Firewall_Manager Pam_Mfa
begin

text \<open>
  The root helper of \<open>guard-control/src/privileged.rs\<close>: the two kinds of work the unprivileged
  control process may ask of it, the checks it makes before it does them, and the client that reaches
  it through a local socket; with the password check of \<open>guard-control/src/pam_auth.rs\<close>. Linux-PAM,
  the user database, the JSON codec and the socket are parameters. A task that panics is not modelled.
\<close>

section \<open>Password check\<close>

datatype PamAuthError = InvalidCredentials | AccountRejected | SystemAccount | GroupRejected | MfaNotEnrolled
  | AuthEnrollmentUnavailable | AuthAlreadyConfigured | AuthInvalidTotp | Busy | Unavailable

definition MIN_HUMAN_UID :: u32 where "MIN_HUMAN_UID = 1000"
definition MAX_HUMAN_UID_EXCLUSIVE :: u32 where "MAX_HUMAN_UID_EXCLUSIVE = 60000"

definition validate_unix_identity :: "string \<Rightarrow> u32 \<Rightarrow> string list \<Rightarrow> string \<Rightarrow> PamAuthError + string" where
  "validate_unix_identity username uid groups allowed_group =
     (if eq_ignore_ascii_case username ''root'' \<or> \<not> (MIN_HUMAN_UID \<le> uid \<and> uid < MAX_HUMAN_UID_EXCLUSIVE)
      then Inl SystemAccount
      else if allowed_group \<notin> set groups then Inl GroupRejected
      else Inr username)"

datatype pam_prompt = EchoOn | EchoOff

text \<open>
  The modules of the service ask a list of questions and decide on the answers; a question without an
  answer ended in a conversation error.
\<close>

record pam_host =
  ph_context :: "string \<Rightarrow> string \<Rightarrow> bool"
  ph_prompts :: "string \<Rightarrow> string \<Rightarrow> pam_prompt list"
  ph_authenticate :: "string \<Rightarrow> string \<Rightarrow> string option list \<Rightarrow> bool"
  ph_acct_mgmt :: "string \<Rightarrow> string \<Rightarrow> bool"
  ph_user :: "string \<Rightarrow> string \<Rightarrow> string option"
  ph_lookup :: "string \<Rightarrow> (u32 \<times> string list option) option"

definition c_string :: "string \<Rightarrow> string option" where
  "c_string s = (if CHR 0x00 \<in> set s then None else Some s)"

fun converse :: "string \<Rightarrow> string \<Rightarrow> nat \<Rightarrow> pam_prompt list \<Rightarrow> string option list \<times> nat" where
  "converse username password n [] = ([], n)"
| "converse username password n (EchoOn # prompts) =
     (let (answers, m) = converse username password n prompts in (c_string username # answers, m))"
| "converse username password n (EchoOff # prompts) =
     (let (answers, m) = converse username password (Suc n) prompts
      in ((if Suc n = 1 then c_string password else None) # answers, m))"

definition authenticate_password ::
  "pam_host \<Rightarrow> string \<Rightarrow> string \<Rightarrow> bool \<Rightarrow> string \<Rightarrow> string \<Rightarrow> PamAuthError + string" where
  "authenticate_password ph service allowed_group gate_held username password =
     and_then (reject_if gate_held Busy) (\<lambda>_.
     and_then (reject_if (\<not> ph_context ph service username) Unavailable) (\<lambda>_.
     let (answers, secret_prompts) = converse username password 0 (ph_prompts ph service username) in
     and_then (reject_if (\<not> ph_authenticate ph service username answers) InvalidCredentials) (\<lambda>_.
     and_then (reject_if (secret_prompts \<noteq> 1) Unavailable) (\<lambda>_.
     and_then (reject_if (\<not> ph_acct_mgmt ph service username) AccountRejected) (\<lambda>_.
     and_then (ok_or AccountRejected (ph_user ph service username)) (\<lambda>user.
     and_then (ok_or AccountRejected (ph_lookup ph user)) (\<lambda>(uid, groups).
     and_then (ok_or GroupRejected groups) (\<lambda>groups. validate_unix_identity user uid groups allowed_group))))))))"

section \<open>Requests and responses\<close>

datatype PrivilegedRequest =
    ReqSetupStatus string string
  | ReqEnrollmentStart string string string string int
  | ReqEnrollmentConfirm string string string string int
  | ReqAuthenticate string string string string string
  | ReqUfw "string list"

datatype PrivilegedResponse =
    RespSetupStatus bool
  | RespEnrollmentStarted PamMfaEnrollmentStart
  | RespEnrollmentCompleted PamMfaEnrollmentComplete
  | RespAuthenticated string PamMfaMethod
  | RespUfwOutput CommandOutput
  | RespError string

definition MAX_REQUEST_BYTES :: nat where "MAX_REQUEST_BYTES = 32 * 1024"
definition MAX_RESPONSE_BYTES :: nat where "MAX_RESPONSE_BYTES = 1024 * 1024"

definition ufw_mode_allows_mutation :: "firewall_mode \<Rightarrow> bool" where
  "ufw_mode_allows_mutation mode \<longleftrightarrow> mode = StandaloneUfw"

fun pam_code :: "PamAuthError \<Rightarrow> string" where
  "pam_code InvalidCredentials = ''invalid_credentials''"
| "pam_code AccountRejected = ''account_rejected''"
| "pam_code SystemAccount = ''system_account''"
| "pam_code GroupRejected = ''group_rejected''"
| "pam_code MfaNotEnrolled = ''mfa_not_enrolled''"
| "pam_code AuthEnrollmentUnavailable = ''enrollment_unavailable''"
| "pam_code AuthAlreadyConfigured = ''already_configured''"
| "pam_code AuthInvalidTotp = ''invalid_totp''"
| "pam_code Busy = ''busy''"
| "pam_code Unavailable = ''unavailable''"

fun pam_mfa_code :: "PamMfaError \<Rightarrow> string" where
  "pam_mfa_code AlreadyConfigured = ''already_configured''"
| "pam_mfa_code EnrollmentUnavailable = ''enrollment_unavailable''"
| "pam_mfa_code InvalidTotp = ''invalid_totp''"
| "pam_mfa_code NotConfigured = ''mfa_not_enrolled''"
| "pam_mfa_code InvalidFactor = ''invalid_credentials''"
| "pam_mfa_code PamStorage = ''unavailable''"
| "pam_mfa_code PamCrypto = ''unavailable''"
| "pam_mfa_code InvalidUsername = ''unavailable''"

fun map_mfa_error :: "PamMfaError \<Rightarrow> PamAuthError" where
  "map_mfa_error AlreadyConfigured = AuthAlreadyConfigured"
| "map_mfa_error EnrollmentUnavailable = AuthEnrollmentUnavailable"
| "map_mfa_error InvalidTotp = AuthInvalidTotp"
| "map_mfa_error NotConfigured = MfaNotEnrolled"
| "map_mfa_error InvalidFactor = InvalidCredentials"
| "map_mfa_error PamStorage = Unavailable"
| "map_mfa_error PamCrypto = Unavailable"
| "map_mfa_error InvalidUsername = Unavailable"

definition pam_error :: "string \<Rightarrow> PamAuthError" where
  "pam_error code =
     (if code = ''account_rejected'' then AccountRejected
      else if code = ''system_account'' then SystemAccount
      else if code = ''group_rejected'' then GroupRejected
      else if code = ''mfa_not_enrolled'' then MfaNotEnrolled
      else if code = ''enrollment_unavailable'' then AuthEnrollmentUnavailable
      else if code = ''already_configured'' then AuthAlreadyConfigured
      else if code = ''invalid_totp'' then AuthInvalidTotp
      else if code = ''busy'' then Busy
      else if code = ''invalid_credentials'' then InvalidCredentials
      else Unavailable)"

section \<open>The helper\<close>

record ('net, 'h) helper =
  rh_pam_service :: string
  rh_allowed_group :: string
  rh_firewall_mode :: firewall_mode
  rh_ssh_port :: u16
  rh_pam_host :: pam_host
  rh_pam_library :: pam_library
  rh_ufw_library :: "'net ufw_library"
  rh_executor :: "'h ufw_executor"
  rh_unix_seconds :: "'h \<Rightarrow> int"

record 'h helper_world =
  hw_mfa :: pam_world
  hw_host :: 'h

definition on_mfa :: "(pam_world \<Rightarrow> ('e + 'a) \<times> pam_world) \<Rightarrow> 'h helper_world \<Rightarrow> ('e + 'a) \<times> 'h helper_world" where
  "on_mfa f w = (case f (hw_mfa w) of (r, m) \<Rightarrow> (r, w \<lparr>hw_mfa := m\<rparr>))"

definition respond_with ::
  "('e \<Rightarrow> string) \<Rightarrow> ('a \<Rightarrow> PrivilegedResponse) \<Rightarrow> ('e + 'a) \<times> 'h helper_world \<Rightarrow> PrivilegedResponse \<times> 'h helper_world" where
  "respond_with code answer rw = (case rw of (Inl e, w) \<Rightarrow> (RespError (code e), w) | (Inr x, w) \<Rightarrow> (answer x, w))"

definition validate_ufw_arguments ::
  "'net ufw_library \<Rightarrow> 'h ufw_executor \<Rightarrow> string list \<Rightarrow> u16 \<Rightarrow> 'h \<Rightarrow> (string + unit) \<times> 'h" where
  "validate_ufw_arguments lib ex arguments ssh_port h =
     (if arguments = [''status'', ''numbered''] then (Inr (), h)
      else if length arguments = 3 \<and> arguments ! 0 = ''--force'' \<and> arguments ! 1 = ''delete'' then
        then_call (ok_or ''ufw_arguments'' (map_option of_nat (parse_unsigned 32 (arguments ! 2))), h) (\<lambda>number h.
        case ufw_snapshot lib ex h of
          (Inl _, h) \<Rightarrow> (Inl ''ufw_status_failed'', h)
        | (Inr (snapshot, _), h) \<Rightarrow>
            (if list_ex (\<lambda>rule. uo_number rule = number) (us_owned_rules snapshot) then Inr () else Inl ''ufw_foreign_delete'', h))
      else (map_err (\<lambda>_. ''ufw_arguments'') (validate_ufw_add_arguments lib arguments ssh_port), h))"

definition helper_ufw :: "('net, 'h) helper \<Rightarrow> string list \<Rightarrow> 'h \<Rightarrow> (string + CommandOutput) \<times> 'h" where
  "helper_ufw rh arguments h =
     then_call (validate_ufw_arguments (rh_ufw_library rh) (rh_executor rh) arguments (rh_ssh_port rh) h) (\<lambda>_ h.
       case rh_executor rh arguments h of (r, h) \<Rightarrow> (map_err (\<lambda>_. ''ufw_failed'') r, h))"

text \<open>The password authenticator is made anew for each request, so its gate is never held.\<close>

definition helper_password :: "('net, 'h) helper \<Rightarrow> string \<Rightarrow> string \<Rightarrow> PamAuthError + string" where
  "helper_password rh username password =
     authenticate_password (rh_pam_host rh) (rh_pam_service rh) (rh_allowed_group rh) False username password"

definition policy_matches :: "('net, 'h) helper \<Rightarrow> string \<Rightarrow> string \<Rightarrow> bool" where
  "policy_matches rh service requested_group \<longleftrightarrow> service = rh_pam_service rh \<and> requested_group = rh_allowed_group rh"

fun dispatch :: "('net, 'h) helper \<Rightarrow> PrivilegedRequest \<Rightarrow> 'h helper_world \<Rightarrow> PrivilegedResponse \<times> 'h helper_world" where
  "dispatch rh (ReqSetupStatus service requested_group) w =
     (if policy_matches rh service requested_group
      then respond_with pam_mfa_code RespSetupStatus (on_mfa (setup_required (rh_pam_library rh)) w)
      else (RespError ''policy_mismatch'', w))"
| "dispatch rh (ReqEnrollmentStart service requested_group username password now) w =
     (if policy_matches rh service requested_group
      then respond_with pam_code RespEnrollmentStarted
             (then_call (helper_password rh username password, w) (\<lambda>actor w.
               case on_mfa (start_enrollment (rh_pam_library rh) actor now) w of (r, w) \<Rightarrow> (map_err map_mfa_error r, w)))
      else (RespError ''policy_mismatch'', w))"
| "dispatch rh (ReqEnrollmentConfirm service requested_group enrollment_id totp_code now) w =
     (if policy_matches rh service requested_group
      then respond_with pam_mfa_code RespEnrollmentCompleted (on_mfa (confirm_enrollment (rh_pam_library rh) enrollment_id totp_code now) w)
      else (RespError ''policy_mismatch'', w))"
| "dispatch rh (ReqAuthenticate service requested_group username password second_factor) w =
     (if policy_matches rh service requested_group
      then respond_with pam_code (\<lambda>(actor, mfa_method). RespAuthenticated actor mfa_method)
             (then_call (helper_password rh username password, w) (\<lambda>actor w.
               case on_mfa (verify_factor (rh_pam_library rh) actor second_factor (rh_unix_seconds rh (hw_host w))) w of
                 (r, w) \<Rightarrow> (and_then (map_err map_mfa_error r) (\<lambda>mfa_method. Inr (actor, mfa_method)), w)))
      else (RespError ''policy_mismatch'', w))"
| "dispatch rh (ReqUfw arguments) w =
     (if ufw_mode_allows_mutation (rh_firewall_mode rh)
      then (case helper_ufw rh arguments (hw_host w) of
              (Inr output, h) \<Rightarrow> (RespUfwOutput output, w \<lparr>hw_host := h\<rparr>)
            | (Inl code, h) \<Rightarrow> (RespError code, w \<lparr>hw_host := h\<rparr>))
      else (RespError ''ownership_denied'', w))"

section \<open>The socket\<close>

datatype PrivilegedError = PrivilegedIo string | Protocol | Rejected string | Unsupported

text \<open>The JSON codec and the displayed text of an error.\<close>

record helper_codec =
  hc_request_to_json :: "PrivilegedRequest \<Rightarrow> string option"
  hc_request_of_json :: "string \<Rightarrow> PrivilegedRequest option"
  hc_response_to_json :: "PrivilegedResponse \<Rightarrow> string option"
  hc_response_of_json :: "string \<Rightarrow> PrivilegedResponse option"
  hc_error_text :: "PrivilegedError \<Rightarrow> string"

definition handle ::
  "('net, 'h) helper \<Rightarrow> helper_codec \<Rightarrow> string \<Rightarrow> 'h helper_world \<Rightarrow> (PrivilegedError + string) \<times> 'h helper_world" where
  "handle rh codec payload w =
     (let (response, w) =
        (if length (take (MAX_REQUEST_BYTES + 1) payload) > MAX_REQUEST_BYTES then (RespError ''request_too_large'', w)
         else case hc_request_of_json codec payload of
                Some request \<Rightarrow> dispatch rh request w
              | None \<Rightarrow> (RespError ''protocol'', w))
      in (ok_or Protocol (hc_response_to_json codec response), w))"

text \<open>
  A connection is served when the peer is the service user or root and one of eight permits is free;
  otherwise it is closed and the client reads nothing.
\<close>

definition served :: "u32 \<Rightarrow> u32 \<Rightarrow> nat \<Rightarrow> bool" where
  "served service_uid peer_uid busy \<longleftrightarrow> (peer_uid = service_uid \<or> peer_uid = 0) \<and> busy < 8"

definition connection ::
  "('net, 'h) helper \<Rightarrow> helper_codec \<Rightarrow> u32 \<Rightarrow> u32 \<Rightarrow> nat \<Rightarrow> string \<Rightarrow> 'h helper_world \<Rightarrow> (PrivilegedError + string) \<times> 'h helper_world" where
  "connection rh codec service_uid peer_uid busy payload w =
     (if served service_uid peer_uid busy
      then (case handle rh codec payload w of (Inr bytes, w) \<Rightarrow> (Inr bytes, w) | (Inl _, w) \<Rightarrow> (Inr [], w))
      else (Inr [], w))"

text \<open>The client; the socket carries the payload to the helper and its answer back, or fails.\<close>

type_synonym 'w socket = "string \<Rightarrow> 'w \<Rightarrow> (PrivilegedError + string) \<times> 'w"

definition round_trip :: "helper_codec \<Rightarrow> 'w socket \<Rightarrow> PrivilegedRequest \<Rightarrow> 'w \<Rightarrow> (PrivilegedError + PrivilegedResponse) \<times> 'w" where
  "round_trip codec socket request w =
     then_call (ok_or Protocol (hc_request_to_json codec request), w) (\<lambda>payload w.
     if length payload > MAX_REQUEST_BYTES then (Inl Protocol, w)
     else then_call (socket payload w) (\<lambda>answer w.
       let response = take (MAX_RESPONSE_BYTES + 1) answer
       in (if length response > MAX_RESPONSE_BYTES then Inl Protocol else ok_or Protocol (hc_response_of_json codec response), w)))"

definition ask ::
  "helper_codec \<Rightarrow> 'w socket \<Rightarrow> PrivilegedRequest \<Rightarrow> (PrivilegedResponse \<Rightarrow> 'a option) \<Rightarrow> 'w \<Rightarrow> (PamAuthError + 'a) \<times> 'w" where
  "ask codec socket request expect w =
     (case round_trip codec socket request w of
        (Inl _, w) \<Rightarrow> (Inl Unavailable, w)
      | (Inr response, w) \<Rightarrow>
          ((case expect response of Some x \<Rightarrow> Inr x
            | None \<Rightarrow> (case response of RespError code \<Rightarrow> Inl (pam_error code) | _ \<Rightarrow> Inl Unavailable)), w))"

definition client_setup_required ::
  "helper_codec \<Rightarrow> 'w socket \<Rightarrow> string \<Rightarrow> string \<Rightarrow> 'w \<Rightarrow> (PamAuthError + bool) \<times> 'w" where
  "client_setup_required codec socket service allowed_group =
     ask codec socket (ReqSetupStatus service allowed_group) (\<lambda>r. case r of RespSetupStatus b \<Rightarrow> Some b | _ \<Rightarrow> None)"

definition client_start_enrollment ::
  "helper_codec \<Rightarrow> 'w socket \<Rightarrow> string \<Rightarrow> string \<Rightarrow> string \<Rightarrow> string \<Rightarrow> int \<Rightarrow> 'w \<Rightarrow> (PamAuthError + PamMfaEnrollmentStart) \<times> 'w" where
  "client_start_enrollment codec socket service allowed_group username password now =
     ask codec socket (ReqEnrollmentStart service allowed_group username password now)
       (\<lambda>r. case r of RespEnrollmentStarted e \<Rightarrow> Some e | _ \<Rightarrow> None)"

definition client_confirm_enrollment ::
  "helper_codec \<Rightarrow> 'w socket \<Rightarrow> string \<Rightarrow> string \<Rightarrow> string \<Rightarrow> string \<Rightarrow> int \<Rightarrow> 'w \<Rightarrow> (PamAuthError + PamMfaEnrollmentComplete) \<times> 'w" where
  "client_confirm_enrollment codec socket service allowed_group enrollment_id totp_code now =
     ask codec socket (ReqEnrollmentConfirm service allowed_group enrollment_id totp_code now)
       (\<lambda>r. case r of RespEnrollmentCompleted e \<Rightarrow> Some e | _ \<Rightarrow> None)"

definition client_authenticate ::
  "helper_codec \<Rightarrow> 'w socket \<Rightarrow> string \<Rightarrow> string \<Rightarrow> string \<Rightarrow> string \<Rightarrow> string \<Rightarrow> 'w \<Rightarrow> (PamAuthError + string \<times> PamMfaMethod) \<times> 'w" where
  "client_authenticate codec socket service allowed_group username password second_factor =
     ask codec socket (ReqAuthenticate service allowed_group username password second_factor)
       (\<lambda>r. case r of RespAuthenticated actor mfa_method \<Rightarrow> Some (actor, mfa_method) | _ \<Rightarrow> None)"

definition privileged_ufw_executor :: "helper_codec \<Rightarrow> 'w socket \<Rightarrow> 'w ufw_executor" where
  "privileged_ufw_executor codec socket arguments w =
     (case round_trip codec socket (ReqUfw arguments) w of
        (Inr (RespUfwOutput output), w) \<Rightarrow> (Inr output, w)
      | (Inr (RespError code), w) \<Rightarrow> (Inl (CommandIo (PermissionDenied code)), w)
      | (Inr _, w) \<Rightarrow> (Inl (CommandIo (InvalidData ''helper response mismatch'')), w)
      | (Inl e, w) \<Rightarrow> (Inl (CommandIo (OtherFailure (hc_error_text codec e))), w))"

section \<open>What the helper runs as root\<close>

definition logged_helper :: "('net, 'h) helper \<Rightarrow> ('net, 'h \<times> string list list) helper" where
  "logged_helper rh = \<lparr>rh_pam_service = rh_pam_service rh, rh_allowed_group = rh_allowed_group rh, rh_firewall_mode = rh_firewall_mode rh,
     rh_ssh_port = rh_ssh_port rh, rh_pam_host = rh_pam_host rh, rh_pam_library = rh_pam_library rh, rh_ufw_library = rh_ufw_library rh,
     rh_executor = logged (rh_executor rh), rh_unix_seconds = (\<lambda>(h, _). rh_unix_seconds rh h)\<rparr>"

lemma on_mfa_host: "hw_host (snd (on_mfa f w)) = hw_host w"
  by (simp add: on_mfa_def split: prod.splits)

lemma respond_with_world: "snd (respond_with code answer rw) = snd rw"
  by (cases rw; cases "fst rw") (auto simp: respond_with_def)

lemma then_mfa_host:
  "hw_host (snd (then_call (password, w) (\<lambda>actor w. case on_mfa (f actor w) w of (r, w) \<Rightarrow> (g actor r, w)))) = hw_host w"
  using on_mfa_host [of "f _ w" w] by (cases password) (auto simp: split_beta)

lemma pam_requests_keep_host:
  assumes "\<And>arguments. request \<noteq> ReqUfw arguments"
  shows "hw_host (snd (dispatch rh request w)) = hw_host w"
proof (cases request)
  case (ReqUfw arguments)
  with assms show ?thesis by blast
qed (simp_all add: respond_with_world on_mfa_host then_mfa_host)

lemma validate_ufw_arguments_elim:
  assumes "validate_ufw_arguments lib ex arguments ssh_port h = (r, h')"
  obtains (status) "arguments = status_arguments" "r = Inr ()" "h' = h"
  | (delete) t n q where "arguments = [''--force'', ''delete'', t]" "parse_unsigned 32 t = Some n" "ufw_snapshot lib ex h = (q, h')"
      "r = Inr () \<Longrightarrow> \<exists>snapshot a. q = Inr (snapshot, a) \<and> list_ex (\<lambda>rule. uo_number rule = of_nat n) (us_owned_rules snapshot)"
  | (add) "r = Inr () \<Longrightarrow> validate_ufw_add_arguments lib arguments ssh_port = Inr ()" "h' = h" 
proof -
  consider "arguments = status_arguments"
    | t where "arguments \<noteq> status_arguments" "arguments = [''--force'', ''delete'', t]"
    | "arguments \<noteq> status_arguments" "\<not> (length arguments = 3 \<and> arguments ! 0 = ''--force'' \<and> arguments ! 1 = ''delete'')"
    by (cases arguments; cases "tl arguments"; cases "tl (tl arguments)"; cases "tl (tl (tl arguments))") auto
  then show ?thesis
  proof cases
    case 1
    with assms have "r = Inr ()" "h' = h" by (simp_all add: validate_ufw_arguments_def status_arguments_def)
    with 1 status show ?thesis by blast
  next
    case (2 t)
    show ?thesis
    proof (cases "parse_unsigned 32 t")
      case None
      with 2 assms have "r = Inl ''ufw_arguments''" "h' = h" by (simp_all add: validate_ufw_arguments_def status_arguments_def)
      with add show ?thesis by simp
    next
      case (Some n)
      obtain q h1 where snap: "ufw_snapshot lib ex h = (q, h1)" by (metis surj_pair)
      have "h' = h1" "r = Inr () \<Longrightarrow> \<exists>snapshot a. q = Inr (snapshot, a) \<and> list_ex (\<lambda>rule. uo_number rule = of_nat n) (us_owned_rules snapshot)"
        using assms 2 Some snap
        by (cases q; simp add: validate_ufw_arguments_def status_arguments_def split: prod.splits if_splits)+
      with 2 Some snap delete show ?thesis by blast
    qed
  next
    case 3
    with assms have "r = map_err (\<lambda>_. ''ufw_arguments'') (validate_ufw_add_arguments lib arguments ssh_port)" "h' = h"
      by (auto simp: validate_ufw_arguments_def status_arguments_def)
    then show ?thesis using add by (auto simp: outcome_simps)
  qed
qed

text \<open>
  The only sequences of commands a request may cause: none, a status, the addition of a valid rule,
  or a status followed by the deletion of a rule that this very status shows as owned.
\<close>

definition confined :: "('net, 'h) helper \<Rightarrow> 'h \<Rightarrow> string list list \<Rightarrow> bool" where
  "confined rh h commands \<longleftrightarrow>
     commands = [] \<or> rh_firewall_mode rh = StandaloneUfw \<and>
       (commands = [status_arguments]
        \<or> (\<exists>arguments rule. commands = [arguments] \<and> parse_ufw_add_arguments (rh_ufw_library rh) arguments = Inr rule
             \<and> ufw_validate rule (rh_ssh_port rh) = Inr ())
        \<or> (\<exists>t n out h'. commands = [status_arguments, [''--force'', ''delete'', t]] \<and> parse_unsigned 32 t = Some n
             \<and> rh_executor rh status_arguments h = (Inr out, h')
             \<and> of_nat n \<in> uo_number ` set (us_owned_rules (snapshot_parse (rh_ufw_library rh) (co_stdout out)))))"

lemma logged_snapshot:
  assumes "ufw_snapshot lib (logged ex) (h, log) = (q, (h', log'))"
  shows "log' = log @ [status_arguments] \<and> (\<forall>snapshot a. q = Inr (snapshot, a) \<longrightarrow>
     (\<exists>out. ex status_arguments h = (Inr out, h') \<and> snapshot = snapshot_parse lib (co_stdout out)))"
  using assms
  by (cases "ex status_arguments h"; cases "fst (ex status_arguments h)")
     (auto simp: ufw_snapshot_def run_ufw_def logged_def)

lemma logged_fst: "snd (snd (logged ex arguments (h, log))) = log @ [arguments]"
  by (simp add: logged_def split: prod.splits)

lemma helper_ufw_confined:
  assumes "helper_ufw (logged_helper rh) arguments (h, log) = (r, (h', log'))" and "rh_firewall_mode rh = StandaloneUfw"
  shows "\<exists>commands. log' = log @ commands \<and> confined rh h commands"
proof -
  let ?lib = "rh_ufw_library rh" and ?ex = "logged (rh_executor rh)"
  obtain v hv where valid: "validate_ufw_arguments ?lib ?ex arguments (rh_ssh_port rh) (h, log) = (v, hv)" by (metis surj_pair)
  have run: "snd (snd (?ex arguments k)) = snd k @ [arguments]" for k using logged_fst [of "rh_executor rh" arguments "fst k" "snd k"] by simp
  have final: "log' = (if isl v then snd hv else snd hv @ [arguments])"
    using assms(1) valid run [of hv]
    by (cases v; cases "?ex arguments hv") (auto simp: helper_ufw_def logged_helper_def)
  from valid show ?thesis
  proof (cases rule: validate_ufw_arguments_elim)
    case status
    with final assms(2) show ?thesis by (auto simp: confined_def)
  next
    case (delete t n q)
    obtain h1 log1 where hv: "hv = (h1, log1)" by (cases hv)
    note snap = logged_snapshot [OF delete(3) [unfolded hv]]
    show ?thesis
    proof (cases v)
      case (Inl e)
      with final hv snap assms(2) show ?thesis by (auto simp: confined_def)
    next
      case (Inr u)
      with delete(4) obtain snapshot a where q: "q = Inr (snapshot, a)" "list_ex (\<lambda>rule. uo_number rule = of_nat n) (us_owned_rules snapshot)"
        by auto
      with snap obtain out where out: "rh_executor rh status_arguments h = (Inr out, h1)" "snapshot = snapshot_parse ?lib (co_stdout out)"
        by auto
      have "confined rh h [status_arguments, [''--force'', ''delete'', t]]"
        unfolding confined_def using assms(2) delete(2) out q(2) by (auto simp: list_ex_iff intro!: image_eqI [OF sym])
      with final Inr hv snap delete(1) show ?thesis by auto
    qed
  next
    case add
    with final assms(2) show ?thesis
      by (cases v) (auto simp: confined_def validate_ufw_add_arguments_def outcome_simps)
  qed
qed

text \<open>
  (C5) Whatever the unprivileged side sends, the commands that one request makes the helper run as root
  are confined: nothing for the authentication requests and when VPSGuard does not own the firewall,
  and otherwise a status, the addition of one rule that keeps the SSH contract, or the deletion of one
  rule whose number the status taken just before shows as owned.
\<close>

theorem helper_confined:
  assumes "dispatch (logged_helper rh) request w = (response, w')"
  shows "\<exists>commands. snd (hw_host w') = snd (hw_host w) @ commands \<and> confined rh (fst (hw_host w)) commands"
proof (cases "\<exists>arguments. request = ReqUfw arguments \<and> rh_firewall_mode rh = StandaloneUfw")
  case True
  then obtain arguments where request: "request = ReqUfw arguments" and mode: "rh_firewall_mode rh = StandaloneUfw" by blast
  obtain r h' log' where run: "helper_ufw (logged_helper rh) arguments (fst (hw_host w), snd (hw_host w)) = (r, (h', log'))"
    by (metis surj_pair)
  with assms request mode have "hw_host w' = (h', log')"
    by (cases r) (auto simp: ufw_mode_allows_mutation_def logged_helper_def [of rh])
  with helper_ufw_confined [OF run mode] show ?thesis by auto
next
  case False
  then have "hw_host w' = hw_host w"
  proof (cases "\<exists>arguments. request = ReqUfw arguments")
    case True
    with False assms show ?thesis by (auto simp: ufw_mode_allows_mutation_def logged_helper_def)
  next
    case no: False
    from pam_requests_keep_host [of request "logged_helper rh" w] no assms show ?thesis by auto
  qed
  then show ?thesis by (auto simp: confined_def)
qed

section \<open>Two factors\<close>


section \<open>Client and helper agree\<close>

fun response_fits :: "PrivilegedRequest \<Rightarrow> PrivilegedResponse \<Rightarrow> bool" where
  "response_fits _ (RespError _) = True"
| "response_fits (ReqSetupStatus _ _) (RespSetupStatus _) = True"
| "response_fits (ReqEnrollmentStart _ _ _ _ _) (RespEnrollmentStarted _) = True"
| "response_fits (ReqEnrollmentConfirm _ _ _ _ _) (RespEnrollmentCompleted _) = True"
| "response_fits (ReqAuthenticate _ _ _ _ _) (RespAuthenticated _ _) = True"
| "response_fits (ReqUfw _) (RespUfwOutput _) = True"
| "response_fits _ _ = False"

lemma dispatch_fits: "response_fits request (fst (dispatch rh request w))"
  by (cases request) (auto simp: respond_with_def split: prod.splits sum.splits)

definition codec_ok :: "helper_codec \<Rightarrow> bool" where
  "codec_ok codec \<longleftrightarrow>
     (\<forall>r b. hc_request_to_json codec r = Some b \<longrightarrow> hc_request_of_json codec b = Some r)
     \<and> (\<forall>r b. hc_response_to_json codec r = Some b \<longrightarrow> hc_response_of_json codec b = Some r)
     \<and> hc_response_of_json codec [] = None"

lemma connection_answer:
  assumes "codec_ok codec" and "hc_request_to_json codec request = Some payload" and "length payload \<le> MAX_REQUEST_BYTES"
    and "connection rh codec service_uid peer_uid busy payload w = (Inr answer, w')" and "hc_response_of_json codec answer = Some response"
  shows "response = fst (dispatch rh request w)"
proof -
  have "hc_request_of_json codec payload = Some request" using assms(1,2) by (simp add: codec_ok_def)
  with assms(3) have handle: "handle rh codec payload w = (ok_or Protocol (hc_response_to_json codec (fst (dispatch rh request w))), snd (dispatch rh request w))"
    by (simp add: handle_def split_beta)
  from assms(1,4,5) handle have "hc_response_to_json codec (fst (dispatch rh request w)) = Some answer"
    by (cases "hc_response_to_json codec (fst (dispatch rh request w))") (auto simp: connection_def codec_ok_def split: if_splits)
  with assms(1,5) show ?thesis by (simp add: codec_ok_def)
qed

text \<open>
  (C17) The protocol is well typed end to end: what a client reads after any request is the kind of
  response that belongs to that request or an error, whoever the peer is and however busy the helper
  is. The branches of the client for a response of another kind are never taken.
\<close>

theorem responses_well_typed:
  assumes "codec_ok codec"
    and "round_trip codec (connection rh codec service_uid peer_uid busy) request w = (Inr response, w')"
  shows "response_fits request response"
proof -
  from assms(2) obtain payload answer where "hc_request_to_json codec request = Some payload" "length payload \<le> MAX_REQUEST_BYTES"
    "connection rh codec service_uid peer_uid busy payload w = (Inr answer, w')" "hc_response_of_json codec answer = Some response"
    by (auto simp: round_trip_def outcome_simps Let_def elim!: then_call_elim split: if_splits)
  from connection_answer [OF assms(1) this] dispatch_fits show ?thesis by simp
qed

lemma error_codes_agree: "pam_error (pam_code e) = e" "pam_error (pam_mfa_code f) = map_mfa_error f"
  by (cases e; simp add: pam_error_def) (cases f; simp add: pam_error_def)

definition fits_socket :: "helper_codec \<Rightarrow> PrivilegedResponse \<Rightarrow> bool" where
  "fits_socket codec response \<longleftrightarrow> (\<exists>b. hc_response_to_json codec response = Some b \<and> length b \<le> MAX_RESPONSE_BYTES)"

lemma round_trip_served:
  assumes "codec_ok codec" and "served service_uid peer_uid busy"
    and "hc_request_to_json codec request = Some payload" and "length payload \<le> MAX_REQUEST_BYTES"
    and "fits_socket codec (fst (dispatch rh request w))"
  shows "round_trip codec (connection rh codec service_uid peer_uid busy) request w
         = (Inr (fst (dispatch rh request w)), snd (dispatch rh request w))"
proof -
  from assms(5) obtain b where b: "hc_response_to_json codec (fst (dispatch rh request w)) = Some b" "length b \<le> MAX_RESPONSE_BYTES"
    by (auto simp: fits_socket_def)
  have "hc_request_of_json codec payload = Some request" "hc_response_of_json codec b = Some (fst (dispatch rh request w))"
    using assms(1,3) b(1) by (simp_all add: codec_ok_def)
  with assms(2,3,4) b show ?thesis
    by (simp add: round_trip_def connection_def handle_def split_beta)
qed


section \<open>A concrete helper\<close>

definition sample_pam_host :: pam_host where
  "sample_pam_host = \<lparr>ph_context = (\<lambda>_ _. True), ph_prompts = (\<lambda>_ _. [EchoOff]),
     ph_authenticate = (\<lambda>_ _ answers. answers = [Some ''secret'']), ph_acct_mgmt = (\<lambda>_ _. True), ph_user = (\<lambda>_ u. Some u),
     ph_lookup = (\<lambda>_. Some (1000, Some [''vpsguard-admin'']))\<rparr>"

definition sample_helper :: "(32 word, bool \<times> ufw_entry list) helper" where
  "sample_helper = \<lparr>rh_pam_service = ''vps-guard'', rh_allowed_group = ''vpsguard-admin'', rh_firewall_mode = StandaloneUfw,
     rh_ssh_port = 22, rh_pam_host = sample_pam_host, rh_pam_library = sample_pam_library, rh_ufw_library = sample_ufw_library,
     rh_executor = sample_ufw, rh_unix_seconds = (\<lambda>_. 5)\<rparr>"

definition sample_status_output :: CommandOutput where
  "sample_status_output = sample_output (sample_status True (snd sample_firewall))"

definition sample_codec_table :: helper_codec where
  "sample_codec_table = \<lparr>
     hc_request_to_json = (\<lambda>r. if r = ReqUfw status_arguments then Some ''s'' else None),
     hc_request_of_json = (\<lambda>b. if b = ''s'' then Some (ReqUfw status_arguments) else None),
     hc_response_to_json = (\<lambda>r. if r = RespUfwOutput sample_status_output then Some ''o'' else if r = RespError ''ufw_failed'' then Some ''e'' else None),
     hc_response_of_json = (\<lambda>b. if b = ''o'' then Some (RespUfwOutput sample_status_output) else if b = ''e'' then Some (RespError ''ufw_failed'') else None),
     hc_error_text = (\<lambda>_. [])\<rparr>"

definition sample_helper_world :: "(bool \<times> ufw_entry list) helper_world" where
  "sample_helper_world = \<lparr>hw_mfa = enrolled_world, hw_host = sample_firewall\<rparr>"

lemma sample_codec_ok: "codec_ok sample_codec_table"
  by (simp add: codec_ok_def sample_codec_table_def)

theorem helper_confined_witness:
  "\<exists>response w' commands. dispatch (logged_helper sample_helper) (ReqUfw [''--force'', ''delete'', ''1''])
       \<lparr>hw_mfa = enrolled_world, hw_host = (sample_firewall, [])\<rparr> = (response, w')
     \<and> snd (hw_host w') = commands \<and> confined sample_helper sample_firewall commands"
proof -
  let ?w = "\<lparr>hw_mfa = enrolled_world, hw_host = (sample_firewall, [])\<rparr>"
  obtain response w' where run: "dispatch (logged_helper sample_helper) (ReqUfw [''--force'', ''delete'', ''1'']) ?w = (response, w')"
    by (metis surj_pair)
  from helper_confined [OF run] have "\<exists>commands. snd (hw_host w') = commands \<and> confined sample_helper sample_firewall commands" by simp
  with run show ?thesis by blast
qed


lemma sample_status_run: "sample_ufw status_arguments sample_firewall = (Inr sample_status_output, sample_firewall)"
  by (simp add: sample_ufw_def sample_status_output_def sample_firewall_def)


theorem responses_well_typed_witness:
  "round_trip sample_codec_table (connection sample_helper sample_codec_table 990 0 7) (ReqUfw status_arguments) sample_helper_world
     = (Inr (RespUfwOutput sample_status_output), sample_helper_world)
   \<and> response_fits (ReqUfw status_arguments) (RespUfwOutput sample_status_output)"
proof -
  have "dispatch sample_helper (ReqUfw status_arguments) sample_helper_world = (RespUfwOutput sample_status_output, sample_helper_world)"
    by (simp add: helper_ufw_def validate_ufw_arguments_def sample_helper_def sample_helper_world_def sample_status_run
        ufw_mode_allows_mutation_def) (simp add: status_arguments_def)
  then have run: "round_trip sample_codec_table (connection sample_helper sample_codec_table 990 0 7) (ReqUfw status_arguments) sample_helper_world
     = (Inr (RespUfwOutput sample_status_output), sample_helper_world)"
    using round_trip_served [OF sample_codec_ok, of 990 0 7 "ReqUfw status_arguments" "''s''" sample_helper sample_helper_world]
    by (simp add: served_def fits_socket_def sample_codec_table_def MAX_REQUEST_BYTES_def MAX_RESPONSE_BYTES_def)
  with responses_well_typed [OF sample_codec_ok run] show ?thesis by simp
qed

end
