(* ===== verification/Auth_Store.thy ===== *)
theory Auth_Store
  imports Guard_Prelude Rust_Text "HOL-Library.Multiset"
begin

text \<open>
  The repository of administrator accounts, recovery codes and sessions,
  \<open>guard-control/src/auth_store.rs\<close>. Each table of the database is the list of its rows in insertion
  order and each SQL statement of the source is a function on the tables, with the constraints of the
  schema: a statement that violates one fails. Any statement, \<open>BEGIN\<close> and \<open>COMMIT\<close> included, may also
  fail for other reasons; the list of outcomes that decides it is part of the state. A transaction that
  is dropped before its commit leaves the tables as they were. The connection is behind a mutex, so the
  operations of concurrent requests form a sequence. The creation and update times of an account, which
  nothing reads, are left out.
\<close>

section \<open>Tables\<close>

definition MAX_SESSIONS :: int where "MAX_SESSIONS = 128"

datatype AuthStoreError = StoreFilesystem | StoreSqlite

record StoredAdminAccount =
  sa_id :: int
  sa_username :: string
  sa_password_hash :: string
  sa_totp_ciphertext :: string
  sa_totp_kdf_salt :: string
  sa_totp_nonce :: string

record NewAdminAccount =
  na_username :: string
  na_password_hash :: string
  na_totp_ciphertext :: string
  na_totp_kdf_salt :: string
  na_totp_nonce :: string

record recovery_row =
  rr_account_id :: int
  rr_code_digest :: string
  rr_created_at :: int
  rr_used_at :: "int option"

record NewStoredSession =
  ns_session_digest :: string
  ns_csrf_digest :: string
  ns_actor :: string
  ns_authentication_method :: string
  ns_issued_at :: int
  ns_expires_at :: int

record StoredSession =
  ss_csrf_digest :: string
  ss_actor :: string
  ss_authentication_method :: string
  ss_expires_at :: int

record auth_tables =
  at_accounts :: "StoredAdminAccount list"
  at_recovery_codes :: "recovery_row list"
  at_sessions :: "NewStoredSession list"

text \<open>
  The repository: its tables and the outcomes of the coming statements (\<open>True\<close>: the statement fails).
  The order in which the database visits the rows of the session table, which SQL leaves open and which
  decides between sessions of the same age, is the parameter \<open>scan\<close> of the operations.
\<close>

type_synonym session_order = "NewStoredSession list \<Rightarrow> NewStoredSession list"

record AuthRepository =
  ar_tables :: auth_tables
  ar_faults :: "bool list"

section \<open>Statements and transactions\<close>

definition statement :: "(auth_tables \<Rightarrow> ('a \<times> auth_tables) option) \<Rightarrow> AuthRepository \<Rightarrow> (AuthStoreError + 'a) \<times> AuthRepository" where
  "statement sql r =
     (let next = r \<lparr>ar_faults := tl (ar_faults r)\<rparr>
      in if ar_faults r \<noteq> [] \<and> hd (ar_faults r) then (Inl StoreSqlite, next)
         else (case sql (ar_tables r) of
                 None \<Rightarrow> (Inl StoreSqlite, next)
               | Some (result, tables) \<Rightarrow> (Inr result, next \<lparr>ar_tables := tables\<rparr>)))"

abbreviation execute :: "(auth_tables \<Rightarrow> auth_tables option) \<Rightarrow> AuthRepository \<Rightarrow> (AuthStoreError + unit) \<times> AuthRepository" where
  "execute sql \<equiv> statement (\<lambda>t. map_option (\<lambda>t'. ((), t')) (sql t))"

abbreviation query :: "(auth_tables \<Rightarrow> 'a) \<Rightarrow> AuthRepository \<Rightarrow> (AuthStoreError + 'a) \<times> AuthRepository" where
  "query sql \<equiv> statement (\<lambda>t. Some (sql t, t))"

text \<open>The body of a transaction says whether it is to be committed; anything else drops it.\<close>

definition close_transaction :: "(AuthStoreError + bool) \<times> AuthRepository \<Rightarrow> (AuthStoreError + bool) \<times> AuthRepository" where
  "close_transaction ended = then_call ended (\<lambda>commit s. if commit then then_call (execute Some s) (\<lambda>_ s. (Inr True, s)) else (Inr False, s))"

definition in_transaction ::
  "(AuthRepository \<Rightarrow> (AuthStoreError + bool) \<times> AuthRepository) \<Rightarrow> AuthRepository \<Rightarrow> (AuthStoreError + bool) \<times> AuthRepository" where
  "in_transaction body r =
     then_call (execute Some r) (\<lambda>_ begun.
       case close_transaction (body begun) of
         (Inr True, s) \<Rightarrow> (Inr True, s)
       | (result, s) \<Rightarrow> (result, s \<lparr>ar_tables := ar_tables begun\<rparr>))"

definition insert_account :: "NewAdminAccount \<Rightarrow> auth_tables \<Rightarrow> auth_tables option" where
  "insert_account account t =
     (if list_ex (\<lambda>a. sa_id a = 1 \<or> eq_ignore_ascii_case (sa_username a) (na_username account)) (at_accounts t)
         \<or> length (na_totp_kdf_salt account) \<noteq> 16 \<or> length (na_totp_nonce account) \<noteq> 24
      then None
      else Some (t \<lparr>at_accounts := at_accounts t @ [\<lparr>sa_id = 1, sa_username = na_username account,
             sa_password_hash = na_password_hash account, sa_totp_ciphertext = na_totp_ciphertext account,
             sa_totp_kdf_salt = na_totp_kdf_salt account, sa_totp_nonce = na_totp_nonce account\<rparr>]\<rparr>))"

definition insert_recovery_code :: "string \<Rightarrow> int \<Rightarrow> auth_tables \<Rightarrow> auth_tables option" where
  "insert_recovery_code digest now t =
     (if \<not> list_ex (\<lambda>a. sa_id a = 1) (at_accounts t) \<or> length digest \<noteq> 32
         \<or> list_ex (\<lambda>c. rr_account_id c = 1 \<and> rr_code_digest c = digest) (at_recovery_codes t)
      then None
      else Some (t \<lparr>at_recovery_codes := at_recovery_codes t @
             [\<lparr>rr_account_id = 1, rr_code_digest = digest, rr_created_at = now, rr_used_at = None\<rparr>]\<rparr>))"

definition insert_session_row :: "NewStoredSession \<Rightarrow> auth_tables \<Rightarrow> auth_tables option" where
  "insert_session_row session t =
     (if length (ns_session_digest session) \<noteq> 32 \<or> length (ns_csrf_digest session) \<noteq> 32
         \<or> list_ex (\<lambda>s. ns_session_digest s = ns_session_digest session) (at_sessions t)
      then None else Some (t \<lparr>at_sessions := at_sessions t @ [session]\<rparr>))"

definition delete_sessions_where :: "(NewStoredSession \<Rightarrow> bool) \<Rightarrow> auth_tables \<Rightarrow> (nat \<times> auth_tables) option" where
  "delete_sessions_where p t =
     Some (length (filter p (at_sessions t)), t \<lparr>at_sessions := filter (\<lambda>s. \<not> p s) (at_sessions t)\<rparr>)"

definition spend_code :: "int \<Rightarrow> int \<Rightarrow> string \<Rightarrow> recovery_row \<Rightarrow> recovery_row" where
  "spend_code now account_id digest c =
     (if rr_account_id c = account_id \<and> rr_code_digest c = digest \<and> rr_used_at c = None then c \<lparr>rr_used_at := Some now\<rparr> else c)"

definition update_recovery_codes :: "int \<Rightarrow> int \<Rightarrow> string \<Rightarrow> auth_tables \<Rightarrow> (nat \<times> auth_tables) option" where
  "update_recovery_codes now account_id digest t =
     Some (length (filter (\<lambda>c. rr_account_id c = account_id \<and> rr_code_digest c = digest \<and> rr_used_at c = None) (at_recovery_codes t)),
           t \<lparr>at_recovery_codes := map (spend_code now account_id digest) (at_recovery_codes t)\<rparr>)"

definition oldest_digests :: "session_order \<Rightarrow> nat \<Rightarrow> auth_tables \<Rightarrow> string list" where
  "oldest_digests scan n t = map ns_session_digest (take n (sort_key ns_issued_at (scan (at_sessions t))))"

definition trim_sessions :: "session_order \<Rightarrow> AuthRepository \<Rightarrow> (AuthStoreError + unit) \<times> AuthRepository" where
  "trim_sessions scan r =
     then_call (query (\<lambda>t. int (length (at_sessions t))) r) (\<lambda>count r.
       let excess = count - MAX_SESSIONS
       in if excess > 0
          then then_call (statement (\<lambda>t. delete_sessions_where (\<lambda>s. ns_session_digest s \<in> set (oldest_digests scan (nat excess) t)) t) r)
                 (\<lambda>_ r. (Inr (), r))
          else (Inr (), r))"

section \<open>Operations\<close>

definition apply_auth_migration :: "auth_tables option \<Rightarrow> auth_tables" where
  "apply_auth_migration existing =
     (case existing of None \<Rightarrow> \<lparr>at_accounts = [], at_recovery_codes = [], at_sessions = []\<rparr> | Some t \<Rightarrow> t)"

text \<open>Three pragmas, the busy timeout and the migration batch come before the first operation.\<close>

definition from_connection ::
  "auth_tables option \<Rightarrow> bool list \<Rightarrow> AuthStoreError + AuthRepository" where
  "from_connection existing faults =
     (if list_ex id (take 5 faults) then Inl StoreSqlite
      else Inr \<lparr>ar_tables = apply_auth_migration existing, ar_faults = drop 5 faults\<rparr>)"

text \<open>The outcomes of creating the directory (when the path has one), opening the file and restricting its mode.\<close>

definition open_repository ::
  "bool \<Rightarrow> bool \<Rightarrow> bool \<Rightarrow> bool \<Rightarrow> auth_tables option \<Rightarrow> bool list \<Rightarrow> AuthStoreError + AuthRepository" where
  "open_repository has_parent created opened permitted existing faults =
     and_then (checks [reject_if (has_parent \<and> \<not> created) StoreFilesystem, reject_if (\<not> opened) StoreSqlite,
                       reject_if (\<not> permitted) StoreFilesystem])
       (\<lambda>_. from_connection existing faults)"

definition is_configured :: "AuthRepository \<Rightarrow> (AuthStoreError + bool) \<times> AuthRepository" where
  "is_configured = query (\<lambda>t. length (at_accounts t) > 0)"

fun insert_recovery_codes :: "string list \<Rightarrow> int \<Rightarrow> AuthRepository \<Rightarrow> (AuthStoreError + unit) \<times> AuthRepository" where
  "insert_recovery_codes [] now r = (Inr (), r)"
| "insert_recovery_codes (digest # digests) now r =
     then_call (execute (insert_recovery_code digest now) r) (\<lambda>_. insert_recovery_codes digests now)"

definition insert_and_trim :: "session_order \<Rightarrow> NewStoredSession \<Rightarrow> AuthRepository \<Rightarrow> (AuthStoreError + bool) \<times> AuthRepository" where
  "insert_and_trim scan session r =
     then_call (execute (insert_session_row session) r) (\<lambda>_ r.
     then_call (trim_sessions scan r) (\<lambda>_ r. (Inr True, r)))"

definition create_initial_admin_and_session ::
  "session_order \<Rightarrow> NewAdminAccount \<Rightarrow> string list \<Rightarrow> NewStoredSession \<Rightarrow> int \<Rightarrow> AuthRepository \<Rightarrow> (AuthStoreError + bool) \<times> AuthRepository" where
  "create_initial_admin_and_session scan account recovery_code_digests session now =
     in_transaction (\<lambda>r.
       then_call (query (\<lambda>t. length (at_accounts t)) r) (\<lambda>existing r.
       if existing > 0 then (Inr False, r)
       else then_call (execute (insert_account account) r) (\<lambda>_ r.
            then_call (insert_recovery_codes recovery_code_digests now r) (\<lambda>_. insert_and_trim scan session))))"

definition account_of :: "string \<Rightarrow> AuthRepository \<Rightarrow> (AuthStoreError + StoredAdminAccount option) \<times> AuthRepository" where
  "account_of normalized_username = query (\<lambda>t. find (\<lambda>a. eq_ignore_ascii_case (sa_username a) normalized_username) (at_accounts t))"

definition delete_expired :: "int \<Rightarrow> AuthRepository \<Rightarrow> (AuthStoreError + nat) \<times> AuthRepository" where
  "delete_expired now = statement (delete_sessions_where (\<lambda>s. ns_expires_at s \<le> now))"

definition consume_recovery_code_and_insert_session ::
  "session_order \<Rightarrow> int \<Rightarrow> string \<Rightarrow> NewStoredSession \<Rightarrow> int \<Rightarrow> AuthRepository \<Rightarrow> (AuthStoreError + bool) \<times> AuthRepository" where
  "consume_recovery_code_and_insert_session scan account_id digest session now =
     in_transaction (\<lambda>r.
       then_call (statement (update_recovery_codes now account_id digest) r) (\<lambda>changed r.
       if changed \<noteq> 1 then (Inr False, r)
       else then_call (delete_expired (ns_issued_at session) r) (\<lambda>_. insert_and_trim scan session)))"

definition insert_session :: "session_order \<Rightarrow> NewStoredSession \<Rightarrow> AuthRepository \<Rightarrow> (AuthStoreError + unit) \<times> AuthRepository" where
  "insert_session scan session r =
     then_call (in_transaction (\<lambda>r. then_call (delete_expired (ns_issued_at session) r) (\<lambda>_. insert_and_trim scan session)) r)
       (\<lambda>_ r. (Inr (), r))"

definition stored_session :: "NewStoredSession \<Rightarrow> StoredSession" where
  "stored_session s = \<lparr>ss_csrf_digest = ns_csrf_digest s, ss_actor = ns_actor s,
     ss_authentication_method = ns_authentication_method s, ss_expires_at = ns_expires_at s\<rparr>"

definition session_of :: "string \<Rightarrow> int \<Rightarrow> AuthRepository \<Rightarrow> (AuthStoreError + StoredSession option) \<times> AuthRepository" where
  "session_of session_digest now r =
     then_call (delete_expired now r) (\<lambda>_.
       query (\<lambda>t. map_option stored_session (find (\<lambda>s. ns_session_digest s = session_digest) (at_sessions t))))"

definition delete_session :: "string \<Rightarrow> AuthRepository \<Rightarrow> (AuthStoreError + bool) \<times> AuthRepository" where
  "delete_session session_digest r =
     then_call (statement (delete_sessions_where (\<lambda>s. ns_session_digest s = session_digest)) r) (\<lambda>changed r. (Inr (changed = 1), r))"

definition delete_actor_sessions :: "string \<Rightarrow> AuthRepository \<Rightarrow> (AuthStoreError + nat) \<times> AuthRepository" where
  "delete_actor_sessions actor = statement (delete_sessions_where (\<lambda>s. ns_actor s = actor))"

section \<open>Effects of the operations\<close>

lemma statement_elim:
  assumes "statement sql r = (result, r')"
  obtains (failed) "result = Inl StoreSqlite" "ar_tables r' = ar_tables r"
    | (ran) x where "result = Inr x" "sql (ar_tables r) = Some (x, ar_tables r')"
proof (cases "(ar_faults r \<noteq> [] \<and> hd (ar_faults r)) \<or> sql (ar_tables r) = None")
  case True
  with assms have "result = Inl StoreSqlite" "ar_tables r' = ar_tables r"
    by (auto simp: statement_def Let_def split: if_splits)
  then show ?thesis by (rule failed)
next
  case False
  with assms obtain x where "result = Inr x" "sql (ar_tables r) = Some (x, ar_tables r')"
    by (auto simp: statement_def Let_def split: if_splits)
  then show ?thesis by (rule ran)
qed

lemma statement_Inr: "statement sql r = (Inr x, r') \<Longrightarrow> sql (ar_tables r) = Some (x, ar_tables r')"
  by (erule statement_elim) simp_all

lemma query_tables: "query sql r = (result, r') \<Longrightarrow> ar_tables r' = ar_tables r"
  by (erule statement_elim) simp_all

lemma query_Inr: "query sql r = (Inr x, r') \<Longrightarrow> x = sql (ar_tables r) \<and> ar_tables r' = ar_tables r"
  by (erule statement_elim) auto

lemma close_transaction_elim:
  assumes "close_transaction ended = (result, s')"
  obtains (failed) e where "result = Inl e"
    | (dropped) "result = Inr False" "ended = (Inr False, s')"
    | (committed) s where "result = Inr True" "ended = (Inr True, s)" "ar_tables s' = ar_tables s"
  using assms unfolding close_transaction_def
proof (cases rule: then_call_elim)
  case (stop e)
  then show ?thesis using failed by blast
next
  case (go commit s)
  show ?thesis
  proof (cases commit)
    case True
    with go(2) have "then_call (execute Some s) (\<lambda>_ s. (Inr True, s)) = (result, s')" by simp
    then show ?thesis
    proof (cases rule: then_call_elim)
      case (stop e)
      then show ?thesis using failed by blast
    next
      case go': (go x t)
      from statement_Inr [OF go'(1)] have "ar_tables t = ar_tables s" by simp
      with go' True go(1) show ?thesis by (intro committed [of s]) simp_all
    qed
  qed (use go dropped in simp)
qed

lemma in_transaction_elim:
  assumes "in_transaction body r = (result, r')"
  obtains (failed) e where "result = Inl e" "ar_tables r' = ar_tables r"
    | (dropped) begun s where "result = Inr False" "body begun = (Inr False, s)" "ar_tables r' = ar_tables r"
    | (committed) begun s where "result = Inr True" "ar_tables begun = ar_tables r" "body begun = (Inr True, s)" "ar_tables r' = ar_tables s"
  using assms unfolding in_transaction_def
proof (cases rule: then_call_elim)
  case (stop e)
  from stop(1) have "ar_tables r' = ar_tables r" by (rule statement_elim) simp_all
  with stop(2) show ?thesis by (rule failed)
next
  case (go x begun)
  from statement_Inr [OF go(1)] have begun: "ar_tables begun = ar_tables r" by simp
  obtain outcome s where run: "close_transaction (body begun) = (outcome, s)" by (metis surj_pair)
  from run show ?thesis
  proof (cases rule: close_transaction_elim)
    case (failed e)
    with go(2) run have "result = Inl e" "ar_tables r' = ar_tables begun" by auto
    with begun show ?thesis by (intro that(1)) simp_all
  next
    case dropped
    with go(2) run have "result = Inr False" "ar_tables r' = ar_tables begun" by auto
    with begun dropped show ?thesis by (intro that(2) [of begun s]) simp_all
  next
    case (committed t)
    with go(2) run have "result = Inr True" "r' = s" by auto
    with begun committed show ?thesis by (intro that(3) [of begun t]) simp_all
  qed
qed

lemma trim_sessions_Inr:
  assumes "trim_sessions scan r = (Inr u, r')"
  shows "ar_tables r' = ar_tables r \<lparr>at_sessions := filter (\<lambda>s. ns_session_digest s \<notin>
    set (oldest_digests scan (length (at_sessions (ar_tables r)) - 128) (ar_tables r))) (at_sessions (ar_tables r))\<rparr>"
proof -
  from assms obtain count s where count: "query (\<lambda>t. int (length (at_sessions t))) r = (Inr count, s)"
    and rest: "(let excess = count - MAX_SESSIONS in if excess > 0
       then then_call (statement (\<lambda>t. delete_sessions_where (\<lambda>x. ns_session_digest x \<in> set (oldest_digests scan (nat excess) t)) t) s) (\<lambda>_ r. (Inr (), r))
       else (Inr (), s)) = (Inr u, r')"
    by (auto simp: trim_sessions_def then_call_Inr)
  from query_Inr [OF count] have s: "ar_tables s = ar_tables r" and count: "count = int (length (at_sessions (ar_tables r)))" by auto
  show ?thesis
  proof (cases "length (at_sessions (ar_tables r)) > 128")
    case True
    then have "nat (count - MAX_SESSIONS) = length (at_sessions (ar_tables r)) - 128" "count - MAX_SESSIONS > 0"
      by (simp_all add: count MAX_SESSIONS_def)
    with rest s show ?thesis
      by (auto simp: Let_def then_call_Inr delete_sessions_where_def dest!: statement_Inr)
  next
    case False
    then have "\<not> count - MAX_SESSIONS > 0" by (simp add: count MAX_SESSIONS_def)
    with rest s False show ?thesis by (simp add: oldest_digests_def)
  qed
qed

lemma insert_and_trim_Inr:
  assumes "insert_and_trim scan session r = (Inr b, r')"
  obtains t where "insert_session_row session (ar_tables r) = Some t"
    "ar_tables r' = t \<lparr>at_sessions := filter (\<lambda>s. ns_session_digest s \<notin> set (oldest_digests scan (length (at_sessions t) - 128) t)) (at_sessions t)\<rparr>"
proof -
  from assms obtain x s where x: "execute (insert_session_row session) r = (Inr x, s)"
    and trim: "then_call (trim_sessions scan s) (\<lambda>_ r. (Inr True, r)) = (Inr b, r')"
    by (auto simp: insert_and_trim_def then_call_Inr)
  from statement_Inr [OF x] have "insert_session_row session (ar_tables r) = Some (ar_tables s)" by auto
  moreover from trim obtain u where "trim_sessions scan s = (Inr u, r')" by (auto simp: then_call_Inr)
  ultimately show ?thesis using that trim_sessions_Inr by blast
qed

text \<open>What a trimmed insertion leaves of a table whose rows are visited in some order.\<close>

definition fair_scan :: "session_order \<Rightarrow> bool" where
  "fair_scan scan \<longleftrightarrow> (\<forall>rows. mset (scan rows) = mset rows)"

lemma filter_drop_keys:
  assumes "distinct (map f rows)"
  shows "filter (\<lambda>x. f x \<notin> set (map f (take n rows))) rows = drop n rows"
proof -
  have "filter (\<lambda>x. f x \<notin> set (map f (take n rows))) (take n rows @ drop n rows) = drop n rows"
  proof -
    have "set (map f (take n rows)) \<inter> set (map f (drop n rows)) = {}"
      using assms by (metis append_take_drop_id distinct_append map_append)
    then have "filter (\<lambda>x. f x \<notin> set (map f (take n rows))) (drop n rows) = drop n rows"
      by (intro filter_True) (metis disjoint_iff image_eqI list.set_map)
    moreover have "filter (\<lambda>x. f x \<notin> set (map f (take n rows))) (take n rows) = []"
      by (intro filter_False) simp
    ultimately show ?thesis by (simp only: filter_append append_Nil)
  qed
  then show ?thesis by (simp only: append_take_drop_id)
qed

lemma length_without_oldest:
  assumes "fair_scan scan" "distinct (map ns_session_digest (at_sessions t))"
  shows "length (filter (\<lambda>s. ns_session_digest s \<notin> set (oldest_digests scan n t)) (at_sessions t)) = length (at_sessions t) - n"
proof -
  let ?rows = "sort_key ns_issued_at (scan (at_sessions t))"
  let ?kept = "filter (\<lambda>s. ns_session_digest s \<notin> set (oldest_digests scan n t))"
  have rows: "mset ?rows = mset (at_sessions t)" using assms(1) by (simp add: fair_scan_def)
  then have "mset (map ns_session_digest ?rows) = mset (map ns_session_digest (at_sessions t))" by (simp only: mset_map)
  then have "distinct (map ns_session_digest ?rows)" using assms(2) by (rule mset_eq_imp_distinct_iff [THEN iffD2])
  from filter_drop_keys [OF this, of n] have "?kept ?rows = drop n ?rows" by (simp only: oldest_digests_def)
  moreover have "mset (?kept ?rows) = mset (?kept (at_sessions t))" by (simp only: mset_filter rows)
  ultimately have "length (?kept (at_sessions t)) = length (drop n ?rows)" by (metis mset_eq_length)
  also have "\<dots> = length (at_sessions t) - n" using mset_eq_length [OF rows] by simp
  finally show ?thesis .
qed

section \<open>Invariant of the tables\<close>

definition code_key :: "recovery_row \<Rightarrow> int \<times> string" where
  "code_key c = (rr_account_id c, rr_code_digest c)"

definition tables_ok :: "auth_tables \<Rightarrow> bool" where
  "tables_ok t \<longleftrightarrow> length (at_accounts t) \<le> 1 \<and> distinct (map code_key (at_recovery_codes t)) \<and>
     (at_recovery_codes t \<noteq> [] \<longrightarrow> at_accounts t \<noteq> []) \<and>
     distinct (map ns_session_digest (at_sessions t)) \<and> length (at_sessions t) \<le> 128"

lemma sessions_filter_ok: "tables_ok t \<Longrightarrow> tables_ok (t \<lparr>at_sessions := filter p (at_sessions t)\<rparr>)"
  by (auto simp: tables_ok_def distinct_map inj_on_def length_filter_le_trans)

lemma insert_and_trim_ok:
  assumes "insert_and_trim scan session r = (Inr b, r')" "fair_scan scan"
    and "tables_ok (ar_tables r \<lparr>at_sessions := []\<rparr>)" "distinct (map ns_session_digest (at_sessions (ar_tables r)))"
  shows "tables_ok (ar_tables r')"
proof -
  obtain t where t: "insert_session_row session (ar_tables r) = Some t" and
    r': "ar_tables r' = t \<lparr>at_sessions := filter (\<lambda>s. ns_session_digest s \<notin> set (oldest_digests scan (length (at_sessions t) - 128) t)) (at_sessions t)\<rparr>"
    by (rule insert_and_trim_Inr [OF assms(1)])
  from t have t_def: "t = ar_tables r \<lparr>at_sessions := at_sessions (ar_tables r) @ [session]\<rparr>"
    and new: "ns_session_digest session \<notin> ns_session_digest ` set (at_sessions (ar_tables r))"
    by (auto simp: insert_session_row_def list_ex_iff split: if_splits)
  have distinct: "distinct (map ns_session_digest (at_sessions t))" using assms(4) new by (simp add: t_def)
  have "length (at_sessions (ar_tables r')) = length (at_sessions t) - (length (at_sessions t) - 128)"
    using length_without_oldest [OF assms(2) distinct] by (simp add: r')
  moreover have "distinct (map ns_session_digest (at_sessions (ar_tables r')))"
    using distinct by (auto simp: r' distinct_map inj_on_def)
  ultimately show ?thesis using assms(3) by (simp add: tables_ok_def r' t_def)
qed

lemma delete_expired_tables:
  "delete_expired now r = (result, r') \<Longrightarrow> ar_tables r' = ar_tables r \<or>
     ar_tables r' = ar_tables r \<lparr>at_sessions := filter (\<lambda>s. \<not> ns_expires_at s \<le> now) (at_sessions (ar_tables r))\<rparr>"
  by (auto simp: delete_expired_def delete_sessions_where_def elim!: statement_elim)

lemma delete_expired_Inr:
  "delete_expired now r = (Inr n, r') \<Longrightarrow>
     ar_tables r' = ar_tables r \<lparr>at_sessions := filter (\<lambda>s. \<not> ns_expires_at s \<le> now) (at_sessions (ar_tables r))\<rparr>"
  by (auto simp: delete_expired_def delete_sessions_where_def dest!: statement_Inr)

lemma insert_recovery_codes_Inr:
  "insert_recovery_codes digests now r = (Inr u, r') \<Longrightarrow> distinct (map code_key (at_recovery_codes (ar_tables r))) \<Longrightarrow>
   \<exists>codes. ar_tables r' = ar_tables r \<lparr>at_recovery_codes := codes\<rparr> \<and> distinct (map code_key codes)"
proof (induction digests arbitrary: r)
  case Nil
  then show ?case by (intro exI [of _ "at_recovery_codes (ar_tables r)"]) auto
next
  case (Cons digest digests)
  from Cons.prems(1) obtain x s where first: "execute (insert_recovery_code digest now) r = (Inr x, s)"
    and rest: "insert_recovery_codes digests now s = (Inr u, r')" by (auto simp: then_call_Inr)
  from statement_Inr [OF first] have row: "insert_recovery_code digest now (ar_tables r) = Some (ar_tables s)" by auto
  then have s: "ar_tables s = ar_tables r \<lparr>at_recovery_codes := at_recovery_codes (ar_tables r) @
      [\<lparr>rr_account_id = 1, rr_code_digest = digest, rr_created_at = now, rr_used_at = None\<rparr>]\<rparr>"
    by (simp add: insert_recovery_code_def split: if_splits)
  moreover from row have "(1, digest) \<notin> code_key ` set (at_recovery_codes (ar_tables r))"
    by (auto simp: insert_recovery_code_def code_key_def list_ex_iff split: if_splits)
  with Cons.prems(2) have "distinct (map code_key (at_recovery_codes (ar_tables s)))" by (simp add: s) (simp add: code_key_def)
  ultimately show ?case using Cons.IH [OF rest] by auto
qed

lemma spend_code_key: "code_key (spend_code now account_id digest c) = code_key c"
  by (simp add: spend_code_def code_key_def)

definition usable_code :: "int \<Rightarrow> string \<Rightarrow> recovery_row \<Rightarrow> bool" where
  "usable_code account_id digest c \<longleftrightarrow> code_key c = (account_id, digest) \<and> rr_used_at c = None"

lemma consume_elim:
  assumes "consume_recovery_code_and_insert_session scan account_id digest session now r = (result, r')"
  obtains (kept) "result \<noteq> Inr True" "ar_tables r' = ar_tables r"
    | (spent) s s' where "result = Inr True"
        "length (filter (usable_code account_id digest) (at_recovery_codes (ar_tables r))) = 1"
        "ar_tables s = ar_tables r \<lparr>at_recovery_codes := map (spend_code now account_id digest) (at_recovery_codes (ar_tables r)),
           at_sessions := filter (\<lambda>x. \<not> ns_expires_at x \<le> ns_issued_at session) (at_sessions (ar_tables r))\<rparr>"
        "insert_and_trim scan session s = (Inr True, s')" "ar_tables r' = ar_tables s'"
  using assms unfolding consume_recovery_code_and_insert_session_def
proof (cases rule: in_transaction_elim)
  case (failed e)
  then show ?thesis by (intro kept) simp_all
next
  case (dropped begun s)
  then show ?thesis by (intro kept) simp_all
next
  case (committed begun s')
  from committed(3) obtain changed u where update: "statement (update_recovery_codes now account_id digest) begun = (Inr changed, u)"
    and rest: "(if changed \<noteq> 1 then (Inr False, u)
       else then_call (delete_expired (ns_issued_at session) u) (\<lambda>_. insert_and_trim scan session)) = (Inr True, s')"
    by (auto simp: then_call_Inr)
  from rest obtain n v where changed: "changed = 1" and expired: "delete_expired (ns_issued_at session) u = (Inr n, v)"
    and insertion: "insert_and_trim scan session v = (Inr True, s')"
    by (auto simp: then_call_Inr split: if_splits)
  have usable: "(\<lambda>c. rr_account_id c = account_id \<and> rr_code_digest c = digest \<and> rr_used_at c = None) = usable_code account_id digest"
    by (auto simp: usable_code_def code_key_def)
  from statement_Inr [OF update] have u: "ar_tables u = ar_tables r \<lparr>at_recovery_codes := map (spend_code now account_id digest) (at_recovery_codes (ar_tables r))\<rparr>"
    and one: "length (filter (usable_code account_id digest) (at_recovery_codes (ar_tables r))) = changed"
    by (auto simp: update_recovery_codes_def committed(2) usable)
  from delete_expired_Inr [OF expired] u
  have v: "ar_tables v = ar_tables r \<lparr>at_recovery_codes := map (spend_code now account_id digest) (at_recovery_codes (ar_tables r)),
      at_sessions := filter (\<lambda>x. \<not> ns_expires_at x \<le> ns_issued_at session) (at_sessions (ar_tables r))\<rparr>" by simp
  show ?thesis using spent [OF committed(1) _ v insertion committed(4)] one changed by simp
qed

lemma create_elim:
  assumes "create_initial_admin_and_session scan account digests session now r = (result, r')"
  obtains (kept) "result \<noteq> Inr True" "ar_tables r' = ar_tables r"
    | (created) a u s s' where "result = Inr True" "at_accounts (ar_tables r) = []"
        "ar_tables u = ar_tables r \<lparr>at_accounts := [a]\<rparr>" "insert_recovery_codes digests now u = (Inr (), s)"
        "insert_and_trim scan session s = (Inr True, s')" "ar_tables r' = ar_tables s'"
  using assms unfolding create_initial_admin_and_session_def
proof (cases rule: in_transaction_elim)
  case (failed e)
  then show ?thesis by (intro kept) simp_all
next
  case (dropped begun s)
  then show ?thesis by (intro kept) simp_all
next
  case (committed begun s')
  from committed(3) obtain existing t where existing: "query (\<lambda>t. length (at_accounts t)) begun = (Inr existing, t)"
    and rest: "(if existing > 0 then (Inr False, t) else then_call (execute (insert_account account) t) (\<lambda>_ r.
        then_call (insert_recovery_codes digests now r) (\<lambda>_. insert_and_trim scan session))) = (Inr True, s')"
    by (auto simp: then_call_Inr)
  from query_Inr [OF existing] committed(2) have t: "ar_tables t = ar_tables r" "existing = length (at_accounts (ar_tables r))" by auto
  with rest have none: "at_accounts (ar_tables r) = []" by (auto split: if_splits)
  with rest t obtain x u y s where first: "execute (insert_account account) t = (Inr x, u)"
    and codes: "insert_recovery_codes digests now u = (Inr y, s)" and insertion: "insert_and_trim scan session s = (Inr True, s')"
    by (auto simp: then_call_Inr)
  from statement_Inr [OF first] have "insert_account account (ar_tables t) = Some (ar_tables u)" by auto
  then obtain a where "ar_tables u = ar_tables r \<lparr>at_accounts := [a]\<rparr>"
    using none t by (auto simp: insert_account_def split: if_splits dest: sym)
  then show ?thesis using created [OF committed(1) none _ _ insertion committed(4)] codes by simp
qed

lemma insert_session_elim:
  assumes "insert_session scan session r = (result, r')"
  obtains (kept) "result \<noteq> Inr ()" "ar_tables r' = ar_tables r"
    | (stored) s s' where "result = Inr ()"
        "ar_tables s = ar_tables r \<lparr>at_sessions := filter (\<lambda>x. \<not> ns_expires_at x \<le> ns_issued_at session) (at_sessions (ar_tables r))\<rparr>"
        "insert_and_trim scan session s = (Inr True, s')" "ar_tables r' = ar_tables s'"
proof -
  let ?body = "\<lambda>r. then_call (delete_expired (ns_issued_at session) r) (\<lambda>_. insert_and_trim scan session)"
  have always: "\<And>s s' b. ?body s = (Inr b, s') \<Longrightarrow> b" by (auto simp: then_call_Inr insert_and_trim_def)
  obtain outcome u where run: "in_transaction ?body r = (outcome, u)" by (metis surj_pair)
  from run show ?thesis
  proof (cases rule: in_transaction_elim)
    case (failed e)
    with run assms show ?thesis by (intro kept) (auto simp: insert_session_def)
  next
    case (dropped begun s)
    with always show ?thesis by blast
  next
    case (committed begun s')
    then obtain n s where "delete_expired (ns_issued_at session) begun = (Inr n, s)" "insert_and_trim scan session s = (Inr True, s')"
      by (auto simp: then_call_Inr)
    then show ?thesis using stored [of s s'] committed delete_expired_Inr run assms by (simp add: insert_session_def)
  qed
qed

section \<open>Every sequence of requests\<close>

datatype repository_request =
    CreateAdmin NewAdminAccount "string list" NewStoredSession int
  | AccountLookup string
  | ConsumeCode int string NewStoredSession int
  | InsertSession NewStoredSession
  | SessionLookup string int
  | DeleteSession string
  | DeleteActor string

fun repository_step :: "session_order \<Rightarrow> AuthRepository \<Rightarrow> repository_request \<Rightarrow> AuthRepository" where
  "repository_step scan r (CreateAdmin account digests session now) = snd (create_initial_admin_and_session scan account digests session now r)"
| "repository_step scan r (AccountLookup username) = snd (account_of username r)"
| "repository_step scan r (ConsumeCode account_id digest session now) = snd (consume_recovery_code_and_insert_session scan account_id digest session now r)"
| "repository_step scan r (InsertSession session) = snd (insert_session scan session r)"
| "repository_step scan r (SessionLookup digest now) = snd (session_of digest now r)"
| "repository_step scan r (DeleteSession digest) = snd (delete_session digest r)"
| "repository_step scan r (DeleteActor actor) = snd (delete_actor_sessions actor r)"

definition repository_ok :: "AuthRepository \<Rightarrow> bool" where
  "repository_ok r \<longleftrightarrow> tables_ok (ar_tables r)"

lemma create_ok:
  assumes "create_initial_admin_and_session scan account digests session now r = (result, r')" "fair_scan scan" "repository_ok r"
  shows "repository_ok r'"
  using assms(1)
proof (cases rule: create_elim)
  case kept
  with assms(3) show ?thesis by (simp add: repository_ok_def)
next
  case (created a u s s')
  have "distinct (map code_key (at_recovery_codes (ar_tables u)))" using assms(3) created(3) by (simp add: repository_ok_def tables_ok_def)
  from insert_recovery_codes_Inr [OF created(4) this] obtain codes
    where s: "ar_tables s = ar_tables u \<lparr>at_recovery_codes := codes\<rparr>" "distinct (map code_key codes)" by blast
  have "tables_ok (ar_tables s \<lparr>at_sessions := []\<rparr>)" using s created(3) by (simp add: tables_ok_def)
  moreover have "distinct (map ns_session_digest (at_sessions (ar_tables s)))"
    using assms(3) created(3) s by (simp add: repository_ok_def tables_ok_def)
  ultimately have "tables_ok (ar_tables s')" by (rule insert_and_trim_ok [OF created(5) assms(2)])
  with created(6) show ?thesis by (simp add: repository_ok_def)
qed

lemma sessions_filter_parts:
  assumes "tables_ok t"
  shows "distinct (map ns_session_digest (filter p (at_sessions t)))" "tables_ok (t \<lparr>at_sessions := []\<rparr>)"
  using sessions_filter_ok [OF assms, of p] assms by (simp_all add: tables_ok_def)

lemma consume_code_ok:
  assumes "consume_recovery_code_and_insert_session scan account_id digest session now r = (result, r')" "fair_scan scan" "repository_ok r"
  shows "repository_ok r'"
  using assms(1)
proof (cases rule: consume_elim)
  case kept
  with assms(3) show ?thesis by (simp add: repository_ok_def)
next
  case (spent s s')
  have ok: "tables_ok (ar_tables r)" using assms(3) by (simp add: repository_ok_def)
  have "map code_key (map (spend_code now account_id digest) (at_recovery_codes (ar_tables r))) = map code_key (at_recovery_codes (ar_tables r))"
    by (simp add: spend_code_key)
  then have "tables_ok (ar_tables s \<lparr>at_sessions := []\<rparr>)" using ok by (simp add: spent(3) tables_ok_def del: map_map)
  moreover have "distinct (map ns_session_digest (at_sessions (ar_tables s)))"
    using sessions_filter_parts [OF ok] by (simp add: spent(3))
  ultimately have "tables_ok (ar_tables s')" by (rule insert_and_trim_ok [OF spent(4) assms(2)])
  with spent(5) show ?thesis by (simp add: repository_ok_def)
qed

lemma insert_session_ok:
  assumes "insert_session scan session r = (result, r')" "fair_scan scan" "repository_ok r"
  shows "repository_ok r'"
  using assms(1)
proof (cases rule: insert_session_elim)
  case kept
  with assms(3) show ?thesis by (simp add: repository_ok_def)
next
  case (stored s s')
  have ok: "tables_ok (ar_tables r)" using assms(3) by (simp add: repository_ok_def)
  have "tables_ok (ar_tables s')"
    using insert_and_trim_ok [OF stored(3) assms(2)] sessions_filter_parts [OF ok] by (simp add: stored(2))
  with stored(4) show ?thesis by (simp add: repository_ok_def)
qed

text \<open>Lookups and deletions keep the accounts and codes and at most remove sessions.\<close>

definition only_drops_sessions :: "AuthRepository \<Rightarrow> AuthRepository \<Rightarrow> bool" where
  "only_drops_sessions r r' \<longleftrightarrow> (\<exists>p. ar_tables r' = ar_tables r \<lparr>at_sessions := filter p (at_sessions (ar_tables r))\<rparr>)"

lemma only_drops_same: "ar_tables r' = ar_tables r \<Longrightarrow> only_drops_sessions r r'"
  by (auto simp: only_drops_sessions_def intro: exI [of _ "\<lambda>_. True"])

lemma only_drops_delete: "statement (delete_sessions_where p) r = (result, r') \<Longrightarrow> only_drops_sessions r r'"
proof (erule statement_elim)
  fix x
  assume "delete_sessions_where p (ar_tables r) = Some (x, ar_tables r')"
  then have "ar_tables r' = ar_tables r \<lparr>at_sessions := filter (\<lambda>s. \<not> p s) (at_sessions (ar_tables r))\<rparr>"
    by (auto simp: delete_sessions_where_def)
  then show "only_drops_sessions r r'" unfolding only_drops_sessions_def by blast
qed (rule only_drops_same)

lemma session_of_drops:
  assumes "session_of digest now r = (result, r')"
  shows "only_drops_sessions r r'"
  using assms unfolding session_of_def
proof (cases rule: then_call_elim)
  case (stop e)
  then show ?thesis by (simp add: delete_expired_def only_drops_delete)
next
  case (go n s)
  from go(1) have "only_drops_sessions r s" by (simp add: delete_expired_def only_drops_delete)
  with query_tables [OF go(2)] show ?thesis by (simp add: only_drops_sessions_def)
qed

lemma lookup_drops:
  "only_drops_sessions r (snd (account_of username r))" "only_drops_sessions r (snd (session_of digest now r))"
  "only_drops_sessions r (snd (delete_session digest r))" "only_drops_sessions r (snd (delete_actor_sessions actor r))"
proof -
  show "only_drops_sessions r (snd (account_of username r))"
    unfolding account_of_def by (rule only_drops_same) (rule query_tables [OF prod.collapse [symmetric]])
  show "only_drops_sessions r (snd (session_of digest now r))" by (rule session_of_drops [OF prod.collapse [symmetric]])
  show "only_drops_sessions r (snd (delete_actor_sessions actor r))"
    unfolding delete_actor_sessions_def by (rule only_drops_delete [OF prod.collapse [symmetric]])
  obtain result s where run: "statement (delete_sessions_where (\<lambda>s. ns_session_digest s = digest)) r = (result, s)" by (metis surj_pair)
  then have "snd (delete_session digest r) = s" by (cases result) (simp_all add: delete_session_def)
  with only_drops_delete [OF run] show "only_drops_sessions r (snd (delete_session digest r))" by simp
qed

lemma only_drops_ok: "only_drops_sessions r r' \<Longrightarrow> repository_ok r \<Longrightarrow> repository_ok r'"
  by (auto simp: only_drops_sessions_def repository_ok_def sessions_filter_ok)

lemma repository_step_ok:
  assumes "fair_scan scan" "repository_ok r"
  shows "repository_ok (repository_step scan r e)"
proof (cases e)
  case (CreateAdmin account digests session now)
  then show ?thesis using create_ok [OF prod.collapse [symmetric] assms] by simp
next
  case (ConsumeCode account_id digest session now)
  then show ?thesis using consume_code_ok [OF prod.collapse [symmetric] assms] by simp
next
  case (InsertSession session)
  then show ?thesis using insert_session_ok [OF prod.collapse [symmetric] assms] by simp
qed (simp_all add: only_drops_ok [OF lookup_drops(1) assms(2)] only_drops_ok [OF lookup_drops(2) assms(2)]
  only_drops_ok [OF lookup_drops(3) assms(2)] only_drops_ok [OF lookup_drops(4) assms(2)])

interpretation repository_machine: invariant_machine "repository_step scan" "\<lambda>r. fair_scan scan \<and> repository_ok r"
  by unfold_locales (simp add: repository_step_ok)

lemma fresh_repository_ok: "from_connection None faults = Inr r \<Longrightarrow> repository_ok r"
  by (auto simp: from_connection_def apply_auth_migration_def repository_ok_def tables_ok_def split: if_splits)

definition spent_codes :: "int \<Rightarrow> string \<Rightarrow> AuthRepository \<Rightarrow> recovery_row list" where
  "spent_codes account_id digest r = filter (\<lambda>c. code_key c = (account_id, digest) \<and> rr_used_at c \<noteq> None) (at_recovery_codes (ar_tables r))"

definition spends :: "session_order \<Rightarrow> int \<Rightarrow> string \<Rightarrow> AuthRepository \<Rightarrow> repository_request \<Rightarrow> bool" where
  "spends scan account_id digest r e = (case e of
     ConsumeCode a d session now \<Rightarrow> a = account_id \<and> d = digest
       \<and> fst (consume_recovery_code_and_insert_session scan a d session now r) = Inr True
   | _ \<Rightarrow> False)"

lemma spent_only_drops: "only_drops_sessions r r' \<Longrightarrow> spent_codes a d r' = spent_codes a d r"
  by (auto simp: only_drops_sessions_def spent_codes_def)

lemma insert_and_trim_codes: "insert_and_trim scan session s = (Inr b, s') \<Longrightarrow> at_recovery_codes (ar_tables s') = at_recovery_codes (ar_tables s)"
  by (erule insert_and_trim_Inr) (auto simp: insert_session_row_def split: if_splits)

lemma length_filter_map_mono:
  "(\<And>x. x \<in> set xs \<Longrightarrow> P x \<Longrightarrow> P (f x)) \<Longrightarrow> length (filter P xs) \<le> length (filter P (map f xs))"
  by (induction xs) auto

lemma spend_code_spent: "code_key c = k \<and> rr_used_at c \<noteq> None \<Longrightarrow> code_key (spend_code now a d c) = k \<and> rr_used_at (spend_code now a d c) \<noteq> None"
  by (auto simp: spend_code_def code_key_def)

lemma consume_spends:
  assumes run: "consume_recovery_code_and_insert_session scan a d session now r = (result, r')" and ok: "repository_ok r"
  shows "length (spent_codes a' d' r) \<le> length (spent_codes a' d' r')
    \<and> (result = Inr True \<longrightarrow> spent_codes a d r = [] \<and> spent_codes a d r' \<noteq> [])"
  using run
proof (cases rule: consume_elim)
  case kept
  then show ?thesis by (simp add: spent_codes_def)
next
  case (spent s s')
  let ?codes = "at_recovery_codes (ar_tables r)"
  have codes: "at_recovery_codes (ar_tables r') = map (spend_code now a d) ?codes"
    using insert_and_trim_codes [OF spent(4)] spent(3,5) by simp
  from spent(2) obtain c where only: "filter (usable_code a d) ?codes = [c]" by (auto simp: length_Suc_conv)
  then have "c \<in> set (filter (usable_code a d) ?codes)" by simp
  then have c: "c \<in> set ?codes" "code_key c = (a, d)" "rr_used_at c = None" by (auto simp: usable_code_def)
  have "distinct (map code_key ?codes)" using ok by (simp add: repository_ok_def tables_ok_def)
  then have "x = c" if "x \<in> set ?codes" "code_key x = (a, d)" for x
    using that c by (metis distinct_map inj_onD)
  with c(3) have "spent_codes a d r = []" by (fastforce simp: spent_codes_def filter_empty_conv)
  moreover have "spend_code now a d c \<in> set (spent_codes a d r')"
    using c by (auto simp: spent_codes_def codes spend_code_def code_key_def)
  moreover have "length (spent_codes a' d' r) \<le> length (spent_codes a' d' r')"
    unfolding spent_codes_def codes by (intro length_filter_map_mono) (rule spend_code_spent)
  ultimately show ?thesis by auto
qed

lemma other_steps_keep_spent:
  assumes "repository_ok r" "\<And>a d session now. e \<noteq> ConsumeCode a d session now"
  shows "length (spent_codes a d r) \<le> length (spent_codes a d (repository_step scan r e))"
proof (cases e)
  case (CreateAdmin account digests session now)
  obtain result r' where run: "create_initial_admin_and_session scan account digests session now r = (result, r')" by (metis surj_pair)
  then have "length (spent_codes a d r) \<le> length (spent_codes a d r')"
  proof (cases rule: create_elim)
    case (created x u s s')
    with assms(1) have "at_recovery_codes (ar_tables r) = []" by (auto simp: repository_ok_def tables_ok_def)
    then show ?thesis by (simp add: spent_codes_def)
  qed (simp add: spent_codes_def)
  with CreateAdmin run show ?thesis by simp
next
  case (InsertSession session)
  obtain result r' where run: "insert_session scan session r = (result, r')" by (metis surj_pair)
  then have "spent_codes a d r' = spent_codes a d r"
    by (cases rule: insert_session_elim) (simp_all add: spent_codes_def insert_and_trim_codes)
  with InsertSession run show ?thesis by simp
qed (use assms(2) in \<open>simp_all add: spent_only_drops [OF lookup_drops(1)] spent_only_drops [OF lookup_drops(2)]
  spent_only_drops [OF lookup_drops(3)] spent_only_drops [OF lookup_drops(4)]\<close>)

interpretation code_meter: metered "repository_step scan" "\<lambda>r. fair_scan scan \<and> repository_ok r" "\<lambda>_. True"
  "spends scan a d" "\<lambda>r. length (spent_codes a d r)" 1
proof unfold_locales
  fix r e
  assume r: "fair_scan scan \<and> repository_ok r"
  then show "fair_scan scan \<and> repository_ok (repository_step scan r e)" by (simp add: repository_step_ok)
  show "length (spent_codes a d r) \<le> length (spent_codes a d (repository_step scan r e))"
  proof (cases "\<exists>a' d' session now. e = ConsumeCode a' d' session now")
    case True
    then show ?thesis using consume_spends [OF prod.collapse [symmetric]] r by auto
  qed (use r in \<open>auto intro: other_steps_keep_spent\<close>)
  assume "spends scan a d r e"
  then obtain session now where e: "e = ConsumeCode a d session now"
    and "fst (consume_recovery_code_and_insert_session scan a d session now r) = Inr True"
    by (auto simp: spends_def split: repository_request.splits)
  then show "length (spent_codes a d r) < 1 \<and> length (spent_codes a d r) < length (spent_codes a d (repository_step scan r e))"
    using consume_spends [OF prod.collapse [symmetric], where a' = a and d' = d and r = r] r by simp
qed

text \<open>
  (C39) The repository stays small and keyed. After any sequence of requests on a new database, whichever
  statements fail, there is at most one administrator, at most 128 sessions, no two of them with the same
  digest, and recovery codes only of that administrator, each stored once.
\<close>

theorem repository_bounded:
  assumes "fair_scan scan" "from_connection None faults = Inr r"
  shows "tables_ok (ar_tables (run (repository_step scan) r requests))"
  using repository_machine.invar_run [of scan r requests] assms fresh_repository_ok by (simp add: repository_ok_def)

text \<open>
  (C40) A recovery code of the local administrator logs in once. Over the whole life of the repository,
  whatever requests arrive and whichever statements fail, at most one request consumes the code.
\<close>

theorem stored_code_consumed_once:
  assumes "fair_scan scan" "from_connection None faults = Inr r"
  shows "count_run (repository_step scan) (spends scan account_id digest) r requests \<le> 1"
  using code_meter.admissions_bounded [of scan r requests account_id digest] assms fresh_repository_ok [OF assms(2)]
  by (simp add: list_all_iff)

section \<open>Sample repository\<close>

definition sample_admin :: NewAdminAccount where
  "sample_admin = \<lparr>na_username = ''ops'', na_password_hash = ''h'', na_totp_ciphertext = ''c'',
     na_totp_kdf_salt = replicate 16 (CHR ''s''), na_totp_nonce = replicate 24 (CHR ''n'')\<rparr>"

definition sample_code :: string where
  "sample_code = replicate 32 (CHR ''r'')"

definition sample_session :: "char \<Rightarrow> int \<Rightarrow> NewStoredSession" where
  "sample_session c now = \<lparr>ns_session_digest = replicate 32 c, ns_csrf_digest = replicate 32 c, ns_actor = ''ops'',
     ns_authentication_method = ''password_recovery'', ns_issued_at = now, ns_expires_at = now + 43200\<rparr>"

definition sample_requests :: "repository_request list" where
  "sample_requests = [CreateAdmin sample_admin [sample_code] (sample_session (CHR ''a'') 100) 100,
     ConsumeCode 1 sample_code (sample_session (CHR ''b'') 110) 110,
     ConsumeCode 1 sample_code (sample_session (CHR ''c'') 120) 120,
     SessionLookup (replicate 32 (CHR ''b'')) 130]"

definition new_repository :: AuthRepository where
  "new_repository = \<lparr>ar_tables = \<lparr>at_accounts = [], at_recovery_codes = [], at_sessions = []\<rparr>, ar_faults = []\<rparr>"

lemma new_repository_opened: "from_connection None [] = Inr new_repository"
  by (simp add: from_connection_def apply_auth_migration_def new_repository_def)

lemma fair_scan_id: "fair_scan id"
  by (simp add: fair_scan_def)

lemma sample_sessions_stored:
  "map ns_session_digest (at_sessions (ar_tables (run (repository_step id) new_repository sample_requests)))
   = [replicate 32 (CHR ''a''), replicate 32 (CHR ''b'')]"
  by code_simp

lemma sample_code_spent: "count_run (repository_step id) (spends id 1 sample_code) new_repository sample_requests = 1"
  by code_simp

theorem repository_bounded_witness:
  "tables_ok (ar_tables (run (repository_step id) new_repository sample_requests))
   \<and> length (at_sessions (ar_tables (run (repository_step id) new_repository sample_requests))) = 2"
proof -
  have "length (at_sessions (ar_tables (run (repository_step id) new_repository sample_requests))) = 2"
    using arg_cong [OF sample_sessions_stored, of length] by simp
  then show ?thesis using repository_bounded [OF fair_scan_id new_repository_opened, of sample_requests] by simp
qed

theorem stored_code_consumed_once_witness:
  "count_run (repository_step id) (spends id 1 sample_code) new_repository (sample_requests @ sample_requests) \<le> 1
   \<and> count_run (repository_step id) (spends id 1 sample_code) new_repository sample_requests = 1"
  using stored_code_consumed_once [OF fair_scan_id new_repository_opened] sample_code_spent by simp

end
