(* ===== verification/Spec2Isabelle.thy ===== *)
theory Spec2Isabelle
  imports Rate_Limit Edge_Policy Policy_Runtime Profiles Correlation Edge_Config Transaction Edge_Security Edge_Context Clearance Telemetry Tls Edge_Runtime Edge_Proxy Root_Helper Auth_Store
begin

text \<open>
  Verification library of VPSGuard, a guard for a single server. An edge proxy (\<open>guard-edge\<close>) admits,
  limits or refuses every request and reports it in datagrams; a control service (\<open>guard-control\<close>) reads
  the reports, runs a detector and a state machine (\<open>guard-core\<close>), writes the policy file the edge
  reloads, and serves the administrator; a helper running as root executes firewall commands and checks
  passwords for it; system components (\<open>guard-system\<close>) change the host in transactions. All paths below
  are under \<open>src/crates\<close>.

  \<^bold>\<open>Conventions.\<close> A struct is a record whose fields carry a prefix of their own, an enum a datatype. Text
  is a list of bytes as in UTF-8. Fixed-width integers are words, with saturating, checked and wrapping
  operations as in the source; \<open>usize\<close> counts are natural numbers and times are integers. A fallible
  function returns a sum, \<open>Inl\<close> the error; one that changes state returns the result with the new state and
  its steps are chained with \<open>then_call\<close>. A hash map is an association list with distinct keys. Code of
  other packages (JSON, hashes, HMAC, AEAD, TOTP, PAM, X.509, network types, Pingora) is a parameter,
  usually a field of a \<open>library\<close> record; what a theorem needs of it is a named hypothesis, met by a concrete
  instance in the witness. System calls can fail at any point: the list of failures is part of the state,
  so a statement about every state covers every pattern of failures. A mutex makes an operation one step;
  where the source uses atomics without a lock, the model is a step relation over single accesses.

  \<^bold>\<open>Foundations.\<close> \<open>Guard_Prelude\<close> holds the results, word arithmetic, maps, and the interfaces: a step that
  keeps an invariant (\<open>invariant_machine\<close>), one that never lowers a level (\<open>monotone_machine\<close>), one that
  meters admissions (\<open>metered\<close>), a validator with its contract (\<open>validated\<close>) and a record sealed by its
  digest (\<open>sealed_record\<close>). Each is interpreted in the theory of the component that implements it.
  \<open>Rust_Text\<close>, \<open>Rust_Path\<close> and \<open>Net_Addr\<close> model what the program uses of the standard library for text,
  paths and addresses.

  \<^bold>\<open>Detection and state\<close> (\<open>guard-core\<close>). \<open>Detection\<close> is \<open>detection.rs\<close>: more suspicious evidence never gets
  a milder decision. \<open>Guard_State\<close> is \<open>state.rs\<close>: every transition is an edge of the documented diagram, an escalation
  was preceded by as many breached windows as required, and a sustained attack escalates.
  \<open>Policy\<close> is \<open>policy.rs\<close>: settings, rules per mode, sealing and validation. \<open>Correlation\<close> and \<open>Crawler\<close> are
  \<open>correlation.rs\<close> and \<open>crawler.rs\<close>. \<open>Config\<close> and \<open>Config_Validation\<close> are \<open>config.rs\<close> with its whole
  semantic validation; \<open>Edge_Config\<close> shows what a validated configuration guarantees to the edge.
  \<open>Profiles\<close> is \<open>guard-profiles\<close>.

  \<^bold>\<open>Edge\<close> (\<open>guard-edge\<close>). \<open>Rate_Limit\<close> is \<open>rate_limit.rs\<close>: the limiter decides every request as
  specified, its budgets hold in every window and its memory is bounded. \<open>Edge_Policy\<close> is \<open>policy.rs\<close>: a
  client cannot choose its address by headers. \<open>Policy_Runtime\<close> is \<open>policy_runtime.rs\<close>: the version of the
  policy in force never falls and an expired rule is never applied. \<open>Edge_Security\<close>, \<open>Edge_Context\<close>,
  \<open>Clearance\<close>, \<open>Telemetry\<close> and \<open>Edge_Runtime\<close> are \<open>security.rs\<close>, \<open>context.rs\<close>, \<open>challenge.rs\<close>,
  \<open>telemetry.rs\<close> and \<open>runtime.rs\<close>: framing is unambiguous, origin permits stay within the limit under any
  interleaving, a clearance is bound to its client, every event is sent or counted as lost and emitting
  never waits. \<open>Edge_Proxy\<close> is \<open>proxy.rs\<close> with \<open>response.rs\<close>: a request is forwarded only after every
  filter, its body stays within the limit, and it is reported once.

  \<^bold>\<open>Host changes\<close> (\<open>guard-system\<close>). \<open>Atomic_Store\<close> is \<open>atomic_store.rs\<close>, each file system call separate, and
  provides the interface \<open>document_store\<close>. \<open>Operation\<close> models \<open>operation.rs\<close> and \<open>Transaction\<close> proves it:
  the ledger on disk can always be resumed, phases run in order, rollback comes last, and an undisturbed
  run ends. The driver of an operation is a record of arbitrary functions. \<open>Tls\<close> is \<open>tls.rs\<close>.
  \<open>Owned_Command\<close> is \<open>command.rs\<close>: neither secret arguments nor input reach the result. \<open>Ufw_Control\<close> is \<open>ufw.rs\<close>, and
  \<open>Ufw_Host\<close> shows on a host whose program obeys stated laws that applying a plan is the abstract change
  of the rule list, and where it is not.

  \<^bold>\<open>Administration\<close> (\<open>guard-control\<close>). \<open>Firewall_Manager\<close> is \<open>firewall.rs\<close>: pending plans are bounded and
  used once, and nothing runs without ownership. \<open>Pam_Mfa\<close> is \<open>pam_mfa.rs\<close>: a recovery code works once,
  whatever fails, and enrolling needs the secret. \<open>Root_Helper\<close> is \<open>privileged.rs\<close> and \<open>pam_auth.rs\<close>, both
  ends of the socket: what runs as root is confined, a login needs both factors, answers have the type of
  the request, and the controller works through the helper as it does without. \<open>Auth_Store\<close> is
  \<open>auth_store.rs\<close>, tables and transactions with failing statements: sessions are bounded and a recovery code
  is consumed once.

  \<^bold>\<open>Bounds.\<close> No fuel is used: loops over lists are structural, trimming has a measure, the compare-and-swap
  loop and the telemetry sink are step relations, and the phase loop recurses over the phase list.

  \<^bold>\<open>Not modelled.\<close> Log texts and messages for people; JSON, TOML, SQL and HTML as formats; durability
  across a power loss. Of \<open>guard-control\<close>: \<open>storage.rs\<close> (SQL over a time series), \<open>api.rs\<close> (routes and
  views), \<open>auth.rs\<close> (passwords and cookies over that repository), \<open>protection.rs\<close> (writer of the policy file),
  \<open>runtime.rs\<close>, \<open>telemetry.rs\<close>, \<open>notification.rs\<close>, \<open>provider.rs\<close> and \<open>admin_socket.rs\<close> (tasks, sockets and
  HTTP clients). \<open>guard-provider\<close> is a client of a remote service; \<open>guard-agent\<close> samples the kernel;
  \<open>guard-cli\<close> and \<open>xtask\<close> parse arguments and print. Of \<open>guard-system\<close>: the drivers \<open>ingress_state\<close> and
  \<open>deployment_state\<close>, whose steps are edits of foreign configuration files and unit states, \<open>nftables.rs\<close>,
  \<open>plan.rs\<close>, \<open>listener.rs\<close>, \<open>secret.rs\<close> and the two modules under \<open>tls\<close>. Of \<open>guard-edge\<close>: \<open>startup.rs\<close>,
  \<open>supervisor.rs\<close> and \<open>tls.rs\<close>, which start and replace processes.
\<close>

end
